theory Spec2Isabelle
  imports Main "HOL-Library.Sublist" "HOL-Library.Monad_Syntax"
begin

section \<open>Python values, errors and the JSON codec\<close>

text \<open>
  The managers exchange Python values with the key-value store.  A document is a Python
  value: \<open>None\<close>, a bool, an int, a float, a str, a list, a tuple, a dict with str keys (the
  key type the store declares; kept as an association list in insertion order), or some
  other object (a function, a datetime, a set, ...) identified by a tag.

  A float is an IEEE double: a finite one, given by its sign, a significand \<open>m\<close> and a binary
  exponent \<open>e\<close> (the value is \<open>m\<close> times \<open>2\<close> to the \<open>e\<close>, negated when the sign is set; minus
  zero is the zero significand with the sign set), an infinity with its sign, or NaN.
  Every double has such a representation, and nothing below needs it to be unique.
\<close>

datatype pyfloat =
    FloatFinite bool nat int
  | FloatInf bool
  | FloatNaN

datatype pyval =
    PNone
  | PBool bool
  | PInt int
  | PFloat pyfloat
  | PStr string
  | PList "pyval list"
  | PTuple "pyval list"
  | PDict "(string \<times> pyval) list"
  | PObject string

datatype error =
    TypeError string
  | ValueError string
  | AttributeError string
  | ValidationError string
  | JSONDecodeError string
  | FileNotFoundError string
  | ImportError string
  | RaisedException string

text \<open>Truthiness of a value, as tested by \<open>if cached:\<close>; an absent result is \<open>None\<close>.\<close>

fun truthy :: "pyval \<Rightarrow> bool" where
  "truthy PNone = False"
| "truthy (PBool b) = b"
| "truthy (PInt i) = (i \<noteq> 0)"
| "truthy (PFloat (FloatFinite s m e)) = (m \<noteq> 0)"
| "truthy (PFloat (FloatInf s)) = True"
| "truthy (PFloat FloatNaN) = True"
| "truthy (PStr s) = (s \<noteq> [])"
| "truthy (PList xs) = (xs \<noteq> [])"
| "truthy (PTuple xs) = (xs \<noteq> [])"
| "truthy (PDict kvs) = (kvs \<noteq> [])"
| "truthy (PObject t) = True"

text \<open>\<open>if cached:\<close> on an optional result: the value, when there is one and it is truthy.\<close>

fun hit :: "pyval option \<Rightarrow> pyval option" where
  "hit None = None"
| "hit (Some v) = (if truthy v then Some v else None)"

text \<open>\<open>d[k] = v\<close> on a dict: an existing key keeps its position, a new key goes last.\<close>

fun dict_setitem :: "string \<Rightarrow> 'v \<Rightarrow> (string \<times> 'v) list \<Rightarrow> (string \<times> 'v) list" where
  "dict_setitem k v [] = [(k, v)]"
| "dict_setitem k v (p # ps) = (if fst p = k then (k, v) # ps else p # dict_setitem k v ps)"

text \<open>\<open>d.get(k)\<close>: only a dict has the method; a missing key gives \<open>None\<close>.\<close>

fun py_get :: "pyval \<Rightarrow> string \<Rightarrow> error + pyval" where
  "py_get (PDict kvs) k = Inr (case map_of kvs k of None \<Rightarrow> PNone | Some v \<Rightarrow> v)"
| "py_get v k = Inl (AttributeError ''object has no attribute get'')"

text \<open>
  \<open>v == w\<close> on two values that share no object (a container first tests its elements for
  identity, which only matters when the very same object sits on both sides).  Bools,
  ints and floats are compared by their exact numeric value, across the three types; NaN
  is unequal to everything, itself included.  A list or tuple is equal to a sequence of
  the same type and length with equal elements: the elements are compared in order up
  to the first unequal pair, for lists only after the lengths were found equal.  Dicts
  are equal when they have as many keys and every key of the left one is in the right
  one with an equal value.  A comparison that involves some other object is decided by
  that object's own \<open>__eq__\<close>, so the model gives no answer for it (\<open>None\<close>).
\<close>

definition signed :: "bool \<Rightarrow> nat \<Rightarrow> int" where
  "signed s m = (if s then - int m else int m)"

fun float_eq :: "pyfloat \<Rightarrow> pyfloat \<Rightarrow> bool" where
  "float_eq (FloatFinite s m e) (FloatFinite s' m' e') =
     (signed s m * 2 ^ nat (e - min e e') = signed s' m' * 2 ^ nat (e' - min e e'))"
| "float_eq (FloatInf s) (FloatInf s') = (s = s')"
| "float_eq x y = False"

fun as_number :: "pyval \<Rightarrow> pyfloat option" where
  "as_number (PBool b) = Some (FloatFinite False (if b then 1 else 0) 0)"
| "as_number (PInt i) = Some (FloatFinite (i < 0) (nat \<bar>i\<bar>) 0)"
| "as_number (PFloat f) = Some f"
| "as_number v = None"

fun is_object :: "pyval \<Rightarrow> bool" where
  "is_object (PObject t) = True"
| "is_object v = False"

definition number_eq :: "pyfloat \<Rightarrow> pyval \<Rightarrow> bool option" where
  "number_eq a w =
     (if is_object w then None
      else case as_number w of None \<Rightarrow> Some False | Some b \<Rightarrow> Some (float_eq a b))"

fun py_eq :: "pyval \<Rightarrow> pyval \<Rightarrow> bool option"
  and py_eq_items :: "pyval list \<Rightarrow> pyval list \<Rightarrow> bool option"
  and py_eq_values :: "(string \<times> pyval) list \<Rightarrow> (string \<times> pyval) list \<Rightarrow> bool option" where
  "py_eq PNone w = (if is_object w then None else Some (w = PNone))"
| "py_eq (PBool b) w = number_eq (FloatFinite False (if b then 1 else 0) 0) w"
| "py_eq (PInt i) w = number_eq (FloatFinite (i < 0) (nat \<bar>i\<bar>) 0) w"
| "py_eq (PFloat f) w = number_eq f w"
| "py_eq (PStr s) w = (if is_object w then None else Some (w = PStr s))"
| "py_eq (PList xs) w =
     (case w of
        PList ys \<Rightarrow> if length xs \<noteq> length ys then Some False else py_eq_items xs ys
      | PObject t \<Rightarrow> None
      | _ \<Rightarrow> Some False)"
| "py_eq (PTuple xs) w =
     (case w of
        PTuple ys \<Rightarrow> py_eq_items xs ys
      | PObject t \<Rightarrow> None
      | _ \<Rightarrow> Some False)"
| "py_eq (PDict kvs) w =
     (case w of
        PDict other \<Rightarrow> if length kvs \<noteq> length other then Some False else py_eq_values kvs other
      | PObject t \<Rightarrow> None
      | _ \<Rightarrow> Some False)"
| "py_eq (PObject t) w = None"
| "py_eq_items [] ys = Some (ys = [])"
| "py_eq_items (x # xs) ys =
     (case ys of
        [] \<Rightarrow> Some False
      | y # ys' \<Rightarrow>
          (case py_eq x y of
             None \<Rightarrow> None
           | Some eq \<Rightarrow> if eq then py_eq_items xs ys' else Some False))"
| "py_eq_values [] other = Some True"
| "py_eq_values (kv # kvs) other =
     (case map_of other (fst kv) of
        None \<Rightarrow> Some False
      | Some w \<Rightarrow>
          (case py_eq (snd kv) w of
             None \<Rightarrow> None
           | Some eq \<Rightarrow> if eq then py_eq_values kvs other else Some False))"

text \<open>
  Converting an int to or from its decimal text fails with a \<open>ValueError\<close> when the text
  has more than \<open>sys.get_int_max_str_digits()\<close> digits, 4300 unless the process changes
  it.  An int has more than \<open>d\<close> digits when its absolute value is at least \<open>10\<close> to the \<open>d\<close>.
\<close>

definition int_max_str_digits :: nat where
  "int_max_str_digits = 4300"

definition str_digits_exceeded :: "int \<Rightarrow> bool" where
  "str_digits_exceeded i = (10 ^ int_max_str_digits \<le> \<bar>i\<bar>)"

text \<open>
  The JSON data model, and the type mapping of Python's \<open>json\<close> module.  A number of the
  text is an integer literal or a float literal (to which the module adds the constants
  \<open>NaN\<close>, \<open>Infinity\<close> and \<open>-Infinity\<close>); a float is written by its \<open>repr\<close>, the shortest text
  that reads back as the same double.  Encoding maps both lists and tuples to arrays; it
  raises a \<open>TypeError\<close> on an object without a JSON counterpart and a \<open>ValueError\<close> on an
  int with too many digits, at the first such value it meets.  Decoding maps arrays to
  lists and builds each dict by inserting the members in order; it raises a plain
  \<open>ValueError\<close> on an integer literal with too many digits.
\<close>

datatype json =
    JNull
  | JBool bool
  | JInt int
  | JFloat pyfloat
  | JStr string
  | JArr "json list"
  | JObj "(string \<times> json) list"

fun those_pairs :: "(string \<times> 'a option) list \<Rightarrow> (string \<times> 'a) list option" where
  "those_pairs [] = Some []"
| "those_pairs ((k, None) # ps) = None"
| "those_pairs ((k, Some v) # ps) = map_option (\<lambda>r. (k, v) # r) (those_pairs ps)"

text \<open>The results of encoding the elements in order: all of them, or the first failure.\<close>

fun encoded_items :: "(error + 'a) list \<Rightarrow> error + 'a list" where
  "encoded_items [] = Inr []"
| "encoded_items (r # rs) =
     (case r of
        Inl e \<Rightarrow> Inl e
      | Inr x \<Rightarrow> (case encoded_items rs of Inl e \<Rightarrow> Inl e | Inr xs \<Rightarrow> Inr (x # xs)))"

fun encoded_members :: "(string \<times> (error + 'a)) list \<Rightarrow> error + (string \<times> 'a) list" where
  "encoded_members [] = Inr []"
| "encoded_members (kr # rs) =
     (case snd kr of
        Inl e \<Rightarrow> Inl e
      | Inr x \<Rightarrow>
          (case encoded_members rs of Inl e \<Rightarrow> Inl e | Inr xs \<Rightarrow> Inr ((fst kr, x) # xs)))"

fun to_json :: "pyval \<Rightarrow> error + json" where
  "to_json PNone = Inr JNull"
| "to_json (PBool b) = Inr (JBool b)"
| "to_json (PInt i) =
     (if str_digits_exceeded i
      then Inl (ValueError ''Exceeds the limit for integer string conversion'')
      else Inr (JInt i))"
| "to_json (PFloat f) = Inr (JFloat f)"
| "to_json (PStr s) = Inr (JStr s)"
| "to_json (PList xs) = map_sum id JArr (encoded_items (map to_json xs))"
| "to_json (PTuple xs) = map_sum id JArr (encoded_items (map to_json xs))"
| "to_json (PDict kvs) =
     map_sum id JObj (encoded_members (map (\<lambda>kv. (fst kv, to_json (snd kv))) kvs))"
| "to_json (PObject t) = Inl (TypeError ''Object is not JSON serializable'')"

fun of_json :: "json \<Rightarrow> pyval" where
  "of_json JNull = PNone"
| "of_json (JBool b) = PBool b"
| "of_json (JInt i) = PInt i"
| "of_json (JFloat f) = PFloat f"
| "of_json (JStr s) = PStr s"
| "of_json (JArr xs) = PList (map of_json xs)"
| "of_json (JObj kvs) = PDict (fold (\<lambda>kv d. dict_setitem (fst kv) (of_json (snd kv)) d) kvs [])"

text \<open>A JSON value with an integer literal the decoder refuses to convert.\<close>

fun oversized :: "json \<Rightarrow> bool" where
  "oversized (JInt i) = str_digits_exceeded i"
| "oversized (JArr xs) = (\<exists>x\<in>set xs. oversized x)"
| "oversized (JObj kvs) = (\<exists>kv\<in>set kvs. oversized (snd kv))"
| "oversized j = False"

text \<open>
  The \<open>data\<close> column of the table holds text.  A text is either the serialisation of a
  JSON value or something the decoder rejects with a \<open>JSONDecodeError\<close>.
\<close>

datatype json_text = JsonText json | NotJson string

definition json_dumps :: "pyval \<Rightarrow> error + json_text" where
  "json_dumps data = map_sum id JsonText (to_json data)"

fun json_loads :: "json_text \<Rightarrow> error + pyval" where
  "json_loads (JsonText j) =
     (if oversized j
      then Inl (ValueError ''Exceeds the limit for integer string conversion'')
      else Inr (of_json j))"
| "json_loads (NotJson s) = Inl (JSONDecodeError ''Expecting value'')"

section \<open>The key-value store\<close>

text \<open>
  Table \<open>data_store\<close> with primary key \<open>(collection, key)\<close>: a partial map from the pair
  to the stored text.  \<open>db_set\<close> and \<open>db_get\<close> are \<open>set\<close> and \<open>get\<close> of the SQLite
  provider, to which the database manager passes its calls on.  Failures of the
  surroundings (the database file, memory, the interpreter's recursion limit on very
  deeply nested documents) are outside the model.
\<close>

type_synonym data_store = "string \<times> string \<rightharpoonup> json_text"

text \<open>\<open>except (TypeError, ValueError)\<close>; a \<open>JSONDecodeError\<close> is a \<open>ValueError\<close>.\<close>

fun type_or_value_error :: "error \<Rightarrow> bool" where
  "type_or_value_error (TypeError msg) = True"
| "type_or_value_error (ValueError msg) = True"
| "type_or_value_error (JSONDecodeError msg) = True"
| "type_or_value_error e = False"

definition db_set :: "string \<Rightarrow> string \<Rightarrow> pyval \<Rightarrow> data_store \<Rightarrow> error + data_store" where
  "db_set collection k data db =
     (case json_dumps data of
        Inl e \<Rightarrow>
          if type_or_value_error e then Inl (TypeError ''Data must be JSON-serializable'')
          else Inl e
      | Inr data_json \<Rightarrow> Inr (db((collection, k) \<mapsto> data_json)))"

text \<open>
  \<open>get\<close> returns \<open>None\<close> for a missing row and for a text that raises a \<open>JSONDecodeError\<close>;
  any other exception of the decoder leaves \<open>get\<close>.
\<close>

fun json_decode_error :: "error \<Rightarrow> bool" where
  "json_decode_error (JSONDecodeError msg) = True"
| "json_decode_error e = False"

definition db_get :: "string \<Rightarrow> string \<Rightarrow> data_store \<Rightarrow> error + pyval option" where
  "db_get collection k db =
     (case db (collection, k) of
        None \<Rightarrow> Inr None
      | Some result \<Rightarrow>
          (case json_loads result of
             Inl e \<Rightarrow> if json_decode_error e then Inr None else Inl e
           | Inr v \<Rightarrow> Inr (Some v)))"

section \<open>Secret manager\<close>

text \<open>The scope enum with its string values, and the \<open>Secret\<close> model.\<close>

datatype SecretScope = USER | PROJECT

fun scope_value :: "SecretScope \<Rightarrow> string" where
  "scope_value USER = ''USER''"
| "scope_value PROJECT = ''PROJECT''"

record Secret =
  secret_key :: string
  secret_value :: string
  secret_scope :: SecretScope
  secret_project :: "string option"

text \<open>
  The external secret service.  Its answers may depend on every call made to it so far,
  so each operation reads the history of calls; the manager appends to that history.
\<close>

datatype provider_call =
    GetSecretCall string SecretScope "string option"
  | SetSecretCall Secret

record SecretProvider =
  provider_get_secret :: "provider_call list \<Rightarrow> string \<Rightarrow> SecretScope \<Rightarrow> string option \<Rightarrow> Secret option"
  provider_set_secret :: "provider_call list \<Rightarrow> Secret \<Rightarrow> bool"

record SecretManager =
  sm_db :: data_store
  sm_provider :: "SecretProvider option"
  sm_calls :: "provider_call list"

text \<open>The manager's \<open>CACHE_COLLECTION\<close>.\<close>

definition SECRETS_CACHE :: string where
  "SECRETS_CACHE = ''secrets_cache''"

text \<open>An f-string renders an absent project as the text \<open>None\<close>.\<close>

definition make_cache_key :: "string \<Rightarrow> SecretScope \<Rightarrow> string option \<Rightarrow> string" where
  "make_cache_key k scope project =
     (let project_val = (if scope = PROJECT
                         then (case project of None \<Rightarrow> ''None'' | Some p \<Rightarrow> p)
                         else '''')
      in k @ '':'' @ scope_value scope @ '':'' @ project_val)"

text \<open>\<open>_cache_secret\<close>: the dict it builds, and the write.\<close>

definition secret_doc :: "Secret \<Rightarrow> pyval" where
  "secret_doc secret =
     PDict [(''key'', PStr (secret_key secret)),
            (''value'', PStr (secret_value secret)),
            (''scope'', PStr (scope_value (secret_scope secret))),
            (''project'', PStr (case secret_project secret of
                                  None \<Rightarrow> ''''
                                | Some p \<Rightarrow> if p = [] then '''' else p))]"

definition cache_secret :: "Secret \<Rightarrow> SecretManager \<Rightarrow> error + SecretManager" where
  "cache_secret secret m =
     (let cache_key = make_cache_key (secret_key secret) (secret_scope secret) (secret_project secret)
      in case db_set SECRETS_CACHE cache_key (secret_doc secret) (sm_db m) of
           Inl e \<Rightarrow> Inl e
         | Inr db' \<Rightarrow> Inr (m\<lparr>sm_db := db'\<rparr>))"

text \<open>\<open>os.environ.get(key)\<close>.\<close>

definition environ_get :: "(string \<rightharpoonup> string) \<Rightarrow> string \<Rightarrow> pyval" where
  "environ_get environ k = (case environ k of None \<Rightarrow> PNone | Some v \<Rightarrow> PStr v)"

text \<open>
  \<open>get_secret\<close> returns the value it yields (or the exception it raises) together with the
  manager afterwards.  \<open>None\<close> is \<open>PNone\<close>.
\<close>

definition get_secret ::
  "(string \<rightharpoonup> string) \<Rightarrow> string \<Rightarrow> SecretScope \<Rightarrow> string option \<Rightarrow> SecretManager
     \<Rightarrow> (error + pyval) \<times> SecretManager" where
  "get_secret environ k scope project m =
     (let cache_key = make_cache_key k scope project;
          fallback = (if scope = USER then environ_get environ k else PNone)
      in case db_get SECRETS_CACHE cache_key (sm_db m) of
           Inl e \<Rightarrow> (Inl e, m)
         | Inr cached \<Rightarrow>
             (case hit cached of
                Some c \<Rightarrow> (py_get c ''value'', m)
              | None \<Rightarrow>
                  (case sm_provider m of
                     None \<Rightarrow> (Inr fallback, m)
                   | Some p \<Rightarrow>
                       (let secret = provider_get_secret p (sm_calls m) k scope project;
                            m1 = m\<lparr>sm_calls := sm_calls m @ [GetSecretCall k scope project]\<rparr>
                        in case secret of
                             None \<Rightarrow> (Inr fallback, m1)
                           | Some s \<Rightarrow>
                               (case cache_secret s m1 of
                                  Inl e \<Rightarrow> (Inl e, m1)
                                | Inr m2 \<Rightarrow> (Inr (PStr (secret_value s)), m2))))))"

text \<open>
  \<open>Secret(key=key, value=value, scope=scope, project=project)\<close>, and \<open>set_secret\<close>, which
  returns its result together with the manager afterwards.
\<close>

definition new_secret :: "string \<Rightarrow> string \<Rightarrow> SecretScope \<Rightarrow> string option \<Rightarrow> Secret" where
  "new_secret k v scope project =
     \<lparr>secret_key = k, secret_value = v, secret_scope = scope, secret_project = project\<rparr>"

definition set_secret ::
  "string \<Rightarrow> string \<Rightarrow> SecretScope \<Rightarrow> string option \<Rightarrow> SecretManager
     \<Rightarrow> (error + bool) \<times> SecretManager" where
  "set_secret k v scope project m =
     (let secret = new_secret k v scope project;
          store = (\<lambda>m'. case cache_secret secret m' of
                           Inl e \<Rightarrow> (Inl e, m')
                         | Inr m2 \<Rightarrow> (Inr True, m2))
      in case sm_provider m of
           None \<Rightarrow> store m
         | Some p \<Rightarrow>
             (let success = provider_set_secret p (sm_calls m) secret;
                  m1 = m\<lparr>sm_calls := sm_calls m @ [SetSecretCall secret]\<rparr>
              in if \<not> success then (Inr False, m1) else store m1))"


section \<open>Domain models\<close>

record VersionControlInfo =
  vc_method :: string
  vc_repository :: "string option"
  vc_commit :: "string option"
  vc_branch :: "string option"
  vc_tag :: "string option"

record SoftwareInfo =
  sw_name :: string
  sw_version :: string

record ProjectManagerLink =
  link_provider :: string
  link_provider_id :: string
  link_metadata :: "(string \<times> pyval) list"

record Version =
  version_id :: string
  version_control :: "VersionControlInfo option"
  software :: "SoftwareInfo option"
  env_vars :: "(string \<times> string) list"
  dependencies :: "(string \<times> string) list"
  project_manager_links :: "ProjectManagerLink list"

record Entity =
  entity_uri :: string
  entity_name :: string
  entity_project_name :: string
  entity_type :: string
  entity_description :: "string option"
  entity_versions :: "Version list"

record Project =
  project_name :: string
  project_path :: string
  project_description :: "string option"
  project_created_at :: string
  project_workflows :: "pyval list"

subsection \<open>\<open>model_dump\<close>: a model as a dict, field by field\<close>

definition opt_str_dump :: "string option \<Rightarrow> pyval" where
  "opt_str_dump x = (case x of None \<Rightarrow> PNone | Some s \<Rightarrow> PStr s)"

definition str_dict_dump :: "(string \<times> string) list \<Rightarrow> pyval" where
  "str_dict_dump d = PDict (map (\<lambda>kv. (fst kv, PStr (snd kv))) d)"

definition version_control_dump :: "VersionControlInfo \<Rightarrow> pyval" where
  "version_control_dump vc =
     PDict [(''method'', PStr (vc_method vc)),
            (''repository'', opt_str_dump (vc_repository vc)),
            (''commit'', opt_str_dump (vc_commit vc)),
            (''branch'', opt_str_dump (vc_branch vc)),
            (''tag'', opt_str_dump (vc_tag vc))]"

definition software_dump :: "SoftwareInfo \<Rightarrow> pyval" where
  "software_dump sw = PDict [(''name'', PStr (sw_name sw)), (''version'', PStr (sw_version sw))]"

definition link_dump :: "ProjectManagerLink \<Rightarrow> pyval" where
  "link_dump l =
     PDict [(''provider'', PStr (link_provider l)),
            (''provider_id'', PStr (link_provider_id l)),
            (''metadata'', PDict (link_metadata l))]"

definition version_dump :: "Version \<Rightarrow> pyval" where
  "version_dump v =
     PDict [(''id'', PStr (version_id v)),
            (''version_control'', (case version_control v of
                                     None \<Rightarrow> PNone | Some vc \<Rightarrow> version_control_dump vc)),
            (''software'', (case software v of None \<Rightarrow> PNone | Some sw \<Rightarrow> software_dump sw)),
            (''env_vars'', str_dict_dump (env_vars v)),
            (''dependencies'', str_dict_dump (dependencies v)),
            (''project_manager_links'', PList (map link_dump (project_manager_links v)))]"

definition entity_model_dump :: "Entity \<Rightarrow> pyval" where
  "entity_model_dump e =
     PDict [(''uri'', PStr (entity_uri e)),
            (''name'', PStr (entity_name e)),
            (''project_name'', PStr (entity_project_name e)),
            (''type'', PStr (entity_type e)),
            (''description'', opt_str_dump (entity_description e)),
            (''versions'', PList (map version_dump (entity_versions e)))]"

definition project_model_dump :: "Project \<Rightarrow> pyval" where
  "project_model_dump p =
     PDict [(''name'', PStr (project_name p)),
            (''path'', PStr (project_path p)),
            (''description'', opt_str_dump (project_description p)),
            (''created_at'', PStr (project_created_at p)),
            (''workflows'', PList (project_workflows p))]"

subsection \<open>Validation: a document back into a model\<close>

text \<open>
  \<open>Entity(**cached)\<close> and \<open>Project(**cached)\<close> validate a document against the declared
  fields.  The model accepts the documents \<open>model_dump\<close> writes (every declared field
  present with a value of the declared type, further keys ignored) and reports every
  other document as invalid; the defaults and coercions of the validation library are not
  modelled.
\<close>

fun as_str :: "pyval \<Rightarrow> string option" where
  "as_str (PStr s) = Some s"
| "as_str v = None"

fun as_opt_str :: "pyval \<Rightarrow> string option option" where
  "as_opt_str PNone = Some None"
| "as_opt_str (PStr s) = Some (Some s)"
| "as_opt_str v = None"

fun as_dict :: "pyval \<Rightarrow> (string \<times> pyval) list option" where
  "as_dict (PDict kvs) = Some kvs"
| "as_dict v = None"

fun as_list :: "pyval \<Rightarrow> pyval list option" where
  "as_list (PList xs) = Some xs"
| "as_list v = None"

fun as_str_dict :: "pyval \<Rightarrow> (string \<times> string) list option" where
  "as_str_dict (PDict kvs) = those_pairs (map (\<lambda>kv. (fst kv, as_str (snd kv))) kvs)"
| "as_str_dict v = None"

definition str_field :: "(string \<times> pyval) list \<Rightarrow> string \<Rightarrow> string option" where
  "str_field d k = Option.bind (map_of d k) as_str"

definition opt_str_field :: "(string \<times> pyval) list \<Rightarrow> string \<Rightarrow> string option option" where
  "opt_str_field d k = Option.bind (map_of d k) as_opt_str"

definition version_control_validate :: "pyval \<Rightarrow> VersionControlInfo option" where
  "version_control_validate doc = do {
     d \<leftarrow> as_dict doc;
     m \<leftarrow> str_field d ''method'';
     r \<leftarrow> opt_str_field d ''repository'';
     c \<leftarrow> opt_str_field d ''commit'';
     b \<leftarrow> opt_str_field d ''branch'';
     t \<leftarrow> opt_str_field d ''tag'';
     Some \<lparr>vc_method = m, vc_repository = r, vc_commit = c, vc_branch = b, vc_tag = t\<rparr>
   }"

definition software_validate :: "pyval \<Rightarrow> SoftwareInfo option" where
  "software_validate doc = do {
     d \<leftarrow> as_dict doc;
     n \<leftarrow> str_field d ''name'';
     v \<leftarrow> str_field d ''version'';
     Some \<lparr>sw_name = n, sw_version = v\<rparr>
   }"

definition link_validate :: "pyval \<Rightarrow> ProjectManagerLink option" where
  "link_validate doc = do {
     d \<leftarrow> as_dict doc;
     p \<leftarrow> str_field d ''provider'';
     i \<leftarrow> str_field d ''provider_id'';
     md \<leftarrow> Option.bind (map_of d ''metadata'') as_dict;
     Some \<lparr>link_provider = p, link_provider_id = i, link_metadata = md\<rparr>
   }"

fun optional_model :: "(pyval \<Rightarrow> 'a option) \<Rightarrow> pyval \<Rightarrow> 'a option option" where
  "optional_model f PNone = Some None"
| "optional_model f v = map_option Some (f v)"

definition version_validate :: "pyval \<Rightarrow> Version option" where
  "version_validate doc = do {
     d \<leftarrow> as_dict doc;
     i \<leftarrow> str_field d ''id'';
     vc \<leftarrow> Option.bind (map_of d ''version_control'') (optional_model version_control_validate);
     sw \<leftarrow> Option.bind (map_of d ''software'') (optional_model software_validate);
     ev \<leftarrow> Option.bind (map_of d ''env_vars'') as_str_dict;
     deps \<leftarrow> Option.bind (map_of d ''dependencies'') as_str_dict;
     ls \<leftarrow> Option.bind (map_of d ''project_manager_links'') as_list;
     links \<leftarrow> those (map link_validate ls);
     Some \<lparr>version_id = i, version_control = vc, software = sw, env_vars = ev,
            dependencies = deps, project_manager_links = links\<rparr>
   }"

definition entity_fields :: "pyval \<Rightarrow> Entity option" where
  "entity_fields doc = do {
     d \<leftarrow> as_dict doc;
     u \<leftarrow> str_field d ''uri'';
     n \<leftarrow> str_field d ''name'';
     p \<leftarrow> str_field d ''project_name'';
     t \<leftarrow> str_field d ''type'';
     ds \<leftarrow> opt_str_field d ''description'';
     vs \<leftarrow> Option.bind (map_of d ''versions'') as_list;
     versions \<leftarrow> those (map version_validate vs);
     Some \<lparr>entity_uri = u, entity_name = n, entity_project_name = p, entity_type = t,
            entity_description = ds, entity_versions = versions\<rparr>
   }"

definition entity_validate :: "pyval \<Rightarrow> error + Entity" where
  "entity_validate doc =
     (case entity_fields doc of
        None \<Rightarrow> Inl (ValidationError ''Entity'')
      | Some e \<Rightarrow> Inr e)"

definition project_fields :: "pyval \<Rightarrow> Project option" where
  "project_fields doc = do {
     d \<leftarrow> as_dict doc;
     n \<leftarrow> str_field d ''name'';
     p \<leftarrow> str_field d ''path'';
     ds \<leftarrow> opt_str_field d ''description'';
     c \<leftarrow> str_field d ''created_at'';
     ws \<leftarrow> Option.bind (map_of d ''workflows'') as_list;
     Some \<lparr>project_name = n, project_path = p, project_description = ds,
            project_created_at = c, project_workflows = ws\<rparr>
   }"

definition project_validate :: "pyval \<Rightarrow> error + Project" where
  "project_validate doc =
     (case project_fields doc of
        None \<Rightarrow> Inl (ValidationError ''Project'')
      | Some p \<Rightarrow> Inr p)"

section \<open>Entity URIs\<close>

text \<open>
  \<open>urlparse\<close> and \<open>parse_qs\<close> belong to the standard library.  The parser below takes
  them as a pair of functions: what \<open>urlparse\<close> raises or returns (scheme, netloc, path
  and query of the URL), and the dict of value lists \<open>parse_qs\<close> builds from a query.
\<close>

record ParseResult =
  url_scheme :: string
  url_netloc :: string
  url_path :: string
  url_query :: string

record urllib =
  urlparse :: "string \<Rightarrow> error + ParseResult"
  parse_qs :: "string \<Rightarrow> (string \<times> string list) list"

record EntityURI =
  uri_project :: string
  uri_entity_type :: string
  uri_path :: string
  uri_version :: "string option"

text \<open>\<open>s.lstrip("/")\<close>, \<open>s.strip("/")\<close>, \<open>s.split("/", 1)\<close> and \<open>s.split("/")[-1]\<close>.\<close>

definition lstrip_slash :: "string \<Rightarrow> string" where
  "lstrip_slash s = dropWhile (\<lambda>c. c = CHR ''/'') s"

definition strip_slash :: "string \<Rightarrow> string" where
  "strip_slash s = rev (lstrip_slash (rev (lstrip_slash s)))"

definition split_slash_once :: "string \<Rightarrow> string list" where
  "split_slash_once s =
     (if CHR ''/'' \<in> set s
      then [takeWhile (\<lambda>c. c \<noteq> CHR ''/'') s, tl (dropWhile (\<lambda>c. c \<noteq> CHR ''/'') s)]
      else [s])"

definition last_component :: "string \<Rightarrow> string" where
  "last_component s = rev (takeWhile (\<lambda>c. c \<noteq> CHR ''/'') (rev s))"

definition parse_entity_uri :: "urllib \<Rightarrow> string \<Rightarrow> error + EntityURI" where
  "parse_entity_uri lib uri =
     (case urlparse lib uri of
        Inl e \<Rightarrow> Inl e
      | Inr parsed \<Rightarrow>
          if url_scheme parsed \<noteq> ''entity'' then Inl (ValueError ''Invalid URI scheme'')
          else if url_netloc parsed = [] then Inl (ValueError ''Invalid URI: missing project'')
          else
            (let project = url_netloc parsed;
                 full_path = lstrip_slash (url_path parsed)
             in if full_path = [] then Inl (ValueError ''Invalid URI: missing entity type and path'')
                else
                  (case split_slash_once full_path of
                     [etype, epath] \<Rightarrow>
                       (let query_params = parse_qs lib (url_query parsed);
                            found = (if url_query parsed \<noteq> [] then map_of query_params ''version''
                                     else None)
                        in case found of
                             None \<Rightarrow>
                               Inr \<lparr>uri_project = project, uri_entity_type = etype,
                                    uri_path = epath, uri_version = None\<rparr>
                           | Some [] \<Rightarrow> Inl (RaisedException ''IndexError'')
                           | Some (v # vs) \<Rightarrow>
                               Inr \<lparr>uri_project = project, uri_entity_type = etype,
                                    uri_path = epath, uri_version = Some v\<rparr>)
                   | _ \<Rightarrow> Inl (ValueError ''Invalid URI: missing entity path''))))"

definition get_entity_cache_key :: "urllib \<Rightarrow> string \<Rightarrow> error + string" where
  "get_entity_cache_key lib uri =
     (case parse_entity_uri lib uri of
        Inl e \<Rightarrow> Inl e
      | Inr parsed \<Rightarrow>
          Inr (''entity://'' @ uri_project parsed @ ''/'' @ uri_entity_type parsed
               @ ''/'' @ uri_path parsed))"

subsection \<open>A plain reading of URLs\<close>

text \<open>
  For URLs of the plain form \<open>scheme://netloc/path?query\<close> in printable ASCII, with a
  lower-case scheme and without spaces, fragment, percent escapes, plus signs or
  brackets, the standard library splits as follows: the scheme ends at the first colon, the netloc runs from
  \<open>//\<close> to the next slash or question mark, and the query starts after the first question
  mark.  \<open>parse_qs\<close> splits the query at ampersands and each field at its first equals
  sign, drops fields with an empty value and collects the values of each name in order.
\<close>

definition before :: "char \<Rightarrow> string \<Rightarrow> string" where
  "before c s = takeWhile (\<lambda>x. x \<noteq> c) s"

definition after :: "char \<Rightarrow> string \<Rightarrow> string" where
  "after c s = tl (dropWhile (\<lambda>x. x \<noteq> c) s)"

definition plain_urlparse :: "string \<Rightarrow> error + ParseResult" where
  "plain_urlparse url =
     (let has_scheme = (CHR '':'' \<in> set url \<and> before CHR '':'' url \<noteq> []);
          scheme = (if has_scheme then before CHR '':'' url else []);
          rest = (if has_scheme then after CHR '':'' url else url);
          has_netloc = (take 2 rest = ''//'');
          tail = (if has_netloc then drop 2 rest else rest);
          netloc = (if has_netloc then takeWhile (\<lambda>x. x \<noteq> CHR ''/'' \<and> x \<noteq> CHR ''?'') tail else []);
          path_query = (if has_netloc then dropWhile (\<lambda>x. x \<noteq> CHR ''/'' \<and> x \<noteq> CHR ''?'') tail else tail)
      in Inr \<lparr>url_scheme = scheme, url_netloc = netloc,
              url_path = before CHR ''?'' path_query,
              url_query = after CHR ''?'' path_query\<rparr>)"

fun split_on :: "char \<Rightarrow> string \<Rightarrow> string \<Rightarrow> string list" where
  "split_on c acc [] = [rev acc]"
| "split_on c acc (x # xs) = (if x = c then rev acc # split_on c [] xs else split_on c (x # acc) xs)"

definition add_value :: "string \<Rightarrow> string \<Rightarrow> (string \<times> string list) list \<Rightarrow> (string \<times> string list) list" where
  "add_value name v d =
     (case map_of d name of
        None \<Rightarrow> d @ [(name, [v])]
      | Some vs \<Rightarrow> dict_setitem name (vs @ [v]) d)"

definition plain_parse_qs :: "string \<Rightarrow> (string \<times> string list) list" where
  "plain_parse_qs qs =
     fold (\<lambda>field d. if after CHR ''='' field = [] then d
                      else add_value (before CHR ''='' field) (after CHR ''='' field) d)
          (split_on CHR ''&'' [] qs) []"

definition plain_urllib :: urllib where
  "plain_urllib = \<lparr>urlparse = plain_urlparse, parse_qs = plain_parse_qs\<rparr>"

section \<open>Project manager\<close>

datatype pm_call =
    FetchProjectCall string
  | PrefetchEntitiesCall string
  | GetEntityCall string
  | GetVersionCall string string
  | CreateEntityCall Entity

text \<open>
  The external project management service, again answering from the history of calls.
  Prefetching may raise, which \<open>get_project\<close> catches.
\<close>

record ProjectManagerProvider =
  provider_fetch_project :: "pm_call list \<Rightarrow> string \<Rightarrow> Project option"
  provider_prefetch_entities :: "pm_call list \<Rightarrow> string \<Rightarrow> error + Entity list"
  provider_get_entity :: "pm_call list \<Rightarrow> string \<Rightarrow> Entity option"
  provider_get_version :: "pm_call list \<Rightarrow> string \<Rightarrow> string \<Rightarrow> Version option"
  provider_create_entity :: "pm_call list \<Rightarrow> Entity \<Rightarrow> Entity"

record ProjectManager =
  pm_db :: data_store
  pm_provider :: "ProjectManagerProvider option"
  pm_calls :: "pm_call list"

text \<open>The \<open>CACHE_COLLECTION\<close> of the project manager and of the entity manager.\<close>

definition PROJECTS_CACHE :: string where
  "PROJECTS_CACHE = ''projects_cache''"

definition ENTITIES_CACHE :: string where
  "ENTITIES_CACHE = ''entities_cache''"

text \<open>\<open>Project(**cached)\<close> and \<open>Entity(**cached)\<close>: unpacking needs a mapping.\<close>

fun construct_project :: "pyval \<Rightarrow> error + Project" where
  "construct_project (PDict kvs) = project_validate (PDict kvs)"
| "construct_project v = Inl (TypeError ''argument after ** must be a mapping'')"

fun construct_entity :: "pyval \<Rightarrow> error + Entity" where
  "construct_entity (PDict kvs) = entity_validate (PDict kvs)"
| "construct_entity v = Inl (TypeError ''argument after ** must be a mapping'')"

text \<open>The loop of \<open>_cache_entities\<close>; what was stored before a failure stays stored.\<close>

fun cache_entities :: "urllib \<Rightarrow> Entity list \<Rightarrow> data_store \<Rightarrow> error option \<times> data_store" where
  "cache_entities lib [] db = (None, db)"
| "cache_entities lib (entity # entities) db =
     (case get_entity_cache_key lib (entity_uri entity) of
        Inl e \<Rightarrow> (Some e, db)
      | Inr base_uri \<Rightarrow>
          (case db_set ENTITIES_CACHE base_uri (entity_model_dump entity) db of
             Inl e \<Rightarrow> (Some e, db)
           | Inr db' \<Rightarrow> cache_entities lib entities db'))"

definition cache_project :: "Project \<Rightarrow> ProjectManager \<Rightarrow> error + ProjectManager" where
  "cache_project project m =
     (case db_set PROJECTS_CACHE (project_name project) (project_model_dump project) (pm_db m) of
        Inl e \<Rightarrow> Inl e
      | Inr db' \<Rightarrow> Inr (m\<lparr>pm_db := db'\<rparr>))"

definition pm_call_made :: "pm_call \<Rightarrow> ProjectManager \<Rightarrow> ProjectManager" where
  "pm_call_made c m = m\<lparr>pm_calls := pm_calls m @ [c]\<rparr>"

definition get_project ::
  "urllib \<Rightarrow> string \<Rightarrow> ProjectManager \<Rightarrow> (error + Project option) \<times> ProjectManager" where
  "get_project lib name m =
     (case db_get PROJECTS_CACHE name (pm_db m) of
        Inl e \<Rightarrow> (Inl e, m)
      | Inr cached \<Rightarrow>
          (case hit cached of
             Some c \<Rightarrow> (map_sum id Some (construct_project c), m)
           | None \<Rightarrow>
               (case pm_provider m of
                  None \<Rightarrow> (Inr None, m)
                | Some p \<Rightarrow>
                    (let project = provider_fetch_project p (pm_calls m) name;
                         m1 = pm_call_made (FetchProjectCall name) m
                     in case project of
                          None \<Rightarrow> (Inr None, m1)
                        | Some pr \<Rightarrow>
                            (case cache_project pr m1 of
                               Inl e \<Rightarrow> (Inl e, m1)
                             | Inr m2 \<Rightarrow>
                                 (let entities = provider_prefetch_entities p (pm_calls m2) name;
                                      m3 = pm_call_made (PrefetchEntitiesCall name) m2
                                  in case entities of
                                       Inl e \<Rightarrow> (Inr (Some pr), m3)
                                     | Inr es \<Rightarrow>
                                         (Inr (Some pr),
                                          m3\<lparr>pm_db := snd (cache_entities lib es (pm_db m3))\<rparr>)))))))"

section \<open>Entity manager\<close>

datatype event = EntityAdded Entity

record EntityManager =
  em_db :: data_store
  em_project_manager :: "ProjectManager option"
  em_events :: "event list"

definition em_provider :: "EntityManager \<Rightarrow> ProjectManagerProvider option" where
  "em_provider m = Option.bind (em_project_manager m) pm_provider"

definition em_calls :: "EntityManager \<Rightarrow> pm_call list" where
  "em_calls m = (case em_project_manager m of None \<Rightarrow> [] | Some pm \<Rightarrow> pm_calls pm)"

definition em_call_made :: "pm_call \<Rightarrow> EntityManager \<Rightarrow> EntityManager" where
  "em_call_made c m = m\<lparr>em_project_manager := map_option (pm_call_made c) (em_project_manager m)\<rparr>"

definition cache_entity :: "urllib \<Rightarrow> Entity \<Rightarrow> EntityManager \<Rightarrow> error + EntityManager" where
  "cache_entity lib entity m =
     (case get_entity_cache_key lib (entity_uri entity) of
        Inl e \<Rightarrow> Inl e
      | Inr base_uri \<Rightarrow>
          (case db_set ENTITIES_CACHE base_uri (entity_model_dump entity) (em_db m) of
             Inl e \<Rightarrow> Inl e
           | Inr db' \<Rightarrow> Inr (m\<lparr>em_db := db'\<rparr>)))"

text \<open>\<open>if version:\<close> holds for a version that is present and not the empty string.\<close>

fun requested :: "string option \<Rightarrow> string option" where
  "requested None = None"
| "requested (Some v) = (if v = [] then None else Some v)"

definition minimal_entity_name :: "EntityURI \<Rightarrow> string" where
  "minimal_entity_name parsed =
     (let stripped = strip_slash (uri_path parsed);
          entity_name = (if CHR ''/'' \<in> set stripped then last_component stripped else stripped)
      in if entity_name = [] then uri_entity_type parsed @ ''_unknown'' else entity_name)"

definition fetch_from_providers ::
  "urllib \<Rightarrow> string \<Rightarrow> string option \<Rightarrow> EntityManager
     \<Rightarrow> (error + Entity option) \<times> EntityManager" where
  "fetch_from_providers lib uri version m =
     (case em_provider m of
        None \<Rightarrow> (Inr None, m)
      | Some provider \<Rightarrow>
          (case requested version of
             Some ver \<Rightarrow>
               (let version_obj = provider_get_version provider (em_calls m) uri ver;
                    m1 = em_call_made (GetVersionCall uri ver) m
                in case version_obj of
                     None \<Rightarrow> (Inr None, m1)
                   | Some vobj \<Rightarrow>
                       (let entity = provider_get_entity provider (em_calls m1) uri;
                            m2 = em_call_made (GetEntityCall uri) m1
                        in case entity of
                             Some ent \<Rightarrow>
                               (case cache_entity lib ent m2 of
                                  Inl e \<Rightarrow> (Inl e, m2)
                                | Inr m3 \<Rightarrow>
                                    (case get_entity_cache_key lib uri of
                                       Inl e \<Rightarrow> (Inl e, m3)
                                     | Inr base_uri \<Rightarrow>
                                         (Inr (Some \<lparr>entity_uri = base_uri,
                                                      entity_name = entity_name ent,
                                                      entity_project_name = entity_project_name ent,
                                                      entity_type = entity_type ent,
                                                      entity_description = entity_description ent,
                                                      entity_versions =
                                                        filter (\<lambda>v. version_id v = ver) (entity_versions ent)\<rparr>),
                                          m3)))
                           | None \<Rightarrow>
                               (case get_entity_cache_key lib uri of
                                  Inl e \<Rightarrow> (Inl e, m2)
                                | Inr base_uri \<Rightarrow>
                                    (case parse_entity_uri lib uri of
                                       Inl e \<Rightarrow> (Inl e, m2)
                                     | Inr parsed \<Rightarrow>
                                         (let minimal_entity =
                                                \<lparr>entity_uri = base_uri,
                                                 entity_name = minimal_entity_name parsed,
                                                 entity_project_name = uri_project parsed,
                                                 entity_type = uri_entity_type parsed,
                                                 entity_description = None,
                                                 entity_versions = [vobj]\<rparr>
                                          in case cache_entity lib minimal_entity m2 of
                                               Inl e \<Rightarrow> (Inl e, m2)
                                             | Inr m3 \<Rightarrow> (Inr (Some minimal_entity), m3))))))
           | None \<Rightarrow>
               (let entity = provider_get_entity provider (em_calls m) uri;
                    m1 = em_call_made (GetEntityCall uri) m
                in case entity of
                     None \<Rightarrow> (Inr None, m1)
                   | Some ent \<Rightarrow>
                       (case cache_entity lib ent m1 of
                          Inl e \<Rightarrow> (Inl e, m1)
                        | Inr m2 \<Rightarrow> (Inr (Some ent), m2)))))"

definition get_entity ::
  "urllib \<Rightarrow> string \<Rightarrow> EntityManager \<Rightarrow> (error + Entity option) \<times> EntityManager" where
  "get_entity lib uri m =
     (case parse_entity_uri lib uri of
        Inl e \<Rightarrow> (Inl e, m)
      | Inr parsed \<Rightarrow>
          (case get_entity_cache_key lib uri of
             Inl e \<Rightarrow> (Inl e, m)
           | Inr base_uri \<Rightarrow>
               (case db_get ENTITIES_CACHE base_uri (em_db m) of
                  Inl e \<Rightarrow> (Inl e, m)
                | Inr cached \<Rightarrow>
                    (case hit cached of
                       Some c \<Rightarrow>
                         (case construct_entity c of
                            Inl e \<Rightarrow> (Inl e, m)
                          | Inr entity \<Rightarrow>
                              (case requested (uri_version parsed) of
                                 None \<Rightarrow> (Inr (Some entity), m)
                               | Some ver \<Rightarrow>
                                   (let versions = filter (\<lambda>v. version_id v = ver) (entity_versions entity)
                                    in if versions = []
                                       then fetch_from_providers lib uri (uri_version parsed) m
                                       else (Inr (Some (entity\<lparr>entity_versions := versions\<rparr>)), m))))
                     | None \<Rightarrow> fetch_from_providers lib uri None m))))"

definition add_entity ::
  "urllib \<Rightarrow> Entity \<Rightarrow> bool \<Rightarrow> EntityManager \<Rightarrow> (error + Entity) \<times> EntityManager" where
  "add_entity lib entity publish m =
     (case cache_entity lib entity m of
        Inl e \<Rightarrow> (Inl e, m)
      | Inr m1 \<Rightarrow>
          (case (if publish then em_provider m1 else None) of
             None \<Rightarrow> (Inr entity, m1\<lparr>em_events := em_events m1 @ [EntityAdded entity]\<rparr>)
           | Some provider \<Rightarrow>
               (let created = provider_create_entity provider (em_calls m1) entity;
                    m2 = em_call_made (CreateEntityCall entity) m1
                in case cache_entity lib created m2 of
                     Inl e \<Rightarrow> (Inl e, m2)
                   | Inr m3 \<Rightarrow>
                       (Inr created, m3\<lparr>em_events := em_events m3 @ [EntityAdded created]\<rparr>))))"

section \<open>Plugin models\<close>

datatype PluginType = CORE | ROUTER | APP | MODEL | AGENT | UI

datatype PluginTiming = PRE_INIT | DEFAULT | AFTER_INIT

record AgentSkill =
  skill_name :: string
  skill_description :: string
  skill_context_keywords :: "string list"
  skill_tools :: "string list"
  skill_instructions :: string
  skill_examples :: "string list"
  skill_plugin_name :: "string option"

record PluginManifest =
  manifest_name :: string
  manifest_version :: string
  manifest_type :: PluginType
  manifest_timing :: PluginTiming
  manifest_priority :: int
  manifest_description :: "string option"
  manifest_entry_point :: "string option"
  manifest_config :: "(string \<times> pyval) list"
  manifest_dependencies :: "string list"
  manifest_provider :: "string option"
  manifest_path :: "string option"
  manifest_skill :: "AgentSkill option"

record ToolDefinition =
  tool_name :: string
  tool_description :: "string option"

text \<open>
  What plugin code does is outside the manager.  A hook either returns or raises an
  exception (an instance of \<open>Exception\<close>, the class the manager's handlers catch).  A
  member of a plugin instance, as \<open>inspect.getmembers\<close> lists it, carries its attribute
  name, the marks the \<open>tool\<close> decorator leaves on it, and its docstring.
\<close>

datatype hook_result = Returns | Raises string

record member =
  member_name :: string
  member_is_tool :: bool
  member_tool_name :: "string option"
  member_tool_description :: "string option"
  member_doc :: "string option"

record plugin_class =
  class_construct :: hook_result
  class_initialize :: hook_result
  class_members :: "member list"
  class_shutdown :: hook_result

text \<open>
  A member of an executed module: one of the five base classes, a proper subclass of
  \<open>Plugin\<close>, or anything else.
\<close>

datatype module_member = BaseClass | PluginSubclass plugin_class | OtherMember

text \<open>
  The surroundings of a load: which files exist under a plugin directory, and what
  executing a file as a module yields (its members in \<open>getmembers\<close> order, or the
  exception raised on the way).
\<close>

record loader_env =
  file_exists :: "string \<Rightarrow> string \<Rightarrow> bool"
  exec_module :: "string \<Rightarrow> string \<Rightarrow> string \<Rightarrow> error + module_member list"

record Plugin =
  plugin_manifest :: PluginManifest
  plugin_tools :: "ToolDefinition list"
  plugin_shutdown :: hook_result

record PluginManager =
  plugins :: "string \<rightharpoonup> Plugin"
  manifests :: "string \<rightharpoonup> PluginManifest"
  load_order :: "string list"
  skill_manager :: "(string \<rightharpoonup> AgentSkill) option"

definition new_plugin_manager :: "(string \<rightharpoonup> AgentSkill) option \<Rightarrow> PluginManager" where
  "new_plugin_manager sm =
     \<lparr>plugins = Map.empty, manifests = Map.empty, load_order = [], skill_manager = sm\<rparr>"

section \<open>Plugin manager\<close>

text \<open>The built-in declarative UI plugin: both hooks are empty, no member is a tool.\<close>

definition UiPlugin :: plugin_class where
  "UiPlugin =
     \<lparr>class_construct = Returns, class_initialize = Returns,
      class_members =
        [\<lparr>member_name = ''get_router'', member_is_tool = False, member_tool_name = None,
          member_tool_description = None, member_doc = None\<rparr>,
         \<lparr>member_name = ''initialize'', member_is_tool = False, member_tool_name = None,
          member_tool_description = None, member_doc = None\<rparr>,
         \<lparr>member_name = ''shutdown'', member_is_tool = False, member_tool_name = None,
          member_tool_description = None, member_doc = None\<rparr>],
      class_shutdown = Returns\<rparr>"

fun find_plugin_class :: "module_member list \<Rightarrow> plugin_class option" where
  "find_plugin_class [] = None"
| "find_plugin_class (PluginSubclass c # ms) = Some c"
| "find_plugin_class (m # ms) = find_plugin_class ms"

text \<open>\<open>a or b\<close> on optional strings: the first if it is present and not empty.\<close>

fun or_else :: "string option \<Rightarrow> string option \<Rightarrow> string option" where
  "or_else None b = b"
| "or_else (Some a) b = (if a = [] then b else Some a)"

definition resolved_tool_name :: "member \<Rightarrow> string" where
  "resolved_tool_name m =
     (case or_else (member_tool_name m) (Some (member_name m)) of
        None \<Rightarrow> member_name m
      | Some n \<Rightarrow> n)"

fun scan_for_tools :: "member list \<Rightarrow> ToolDefinition list \<Rightarrow> error + ToolDefinition list" where
  "scan_for_tools [] tools = Inr tools"
| "scan_for_tools (m # ms) tools =
     (if member_is_tool m then
        (let tname = resolved_tool_name m;
             tdesc = or_else (member_tool_description m) (member_doc m)
         in if \<exists>t\<in>set tools. tool_name t = tname
            then Inl (ValueError (''Duplicate tool name '' @ tname))
            else scan_for_tools ms (tools @ [\<lparr>tool_name = tname, tool_description = tdesc\<rparr>]))
      else scan_for_tools ms tools)"

definition module_name_of :: "string \<Rightarrow> string" where
  "module_name_of n = ''artreactor.plugins.'' @ map (\<lambda>c. if c = CHR ''-'' then CHR ''_'' else c) n"

text \<open>
  The first half of \<open>_load_plugin\<close>: choose the entry file, execute it and find the
  plugin class, with the fallbacks of a UI plugin.
\<close>

definition resolve_plugin_class :: "loader_env \<Rightarrow> PluginManifest \<Rightarrow> error + plugin_class" where
  "resolve_plugin_class env manifest =
     (case manifest_path manifest of
        None \<Rightarrow> Inl (TypeError ''expected str, bytes or os.PathLike object, not NoneType'')
      | Some plugin_dir \<Rightarrow>
          (let module_name = module_name_of (manifest_name manifest);
               init_file = ''__init__.py'';
               entry_file = requested (manifest_entry_point manifest);
               target_file =
                 (case entry_file of
                    Some f \<Rightarrow> if file_exists env plugin_dir f then Some f
                              else if file_exists env plugin_dir init_file then Some init_file
                              else None
                  | None \<Rightarrow> if file_exists env plugin_dir init_file then Some init_file else None);
               loaded =
                 (case target_file of
                    None \<Rightarrow>
                      if manifest_type manifest = UI then Inr None
                      else Inl (FileNotFoundError (''No entry point found for plugin ''
                                                    @ manifest_name manifest))
                  | Some f \<Rightarrow> map_sum id Some (exec_module env module_name plugin_dir f))
           in case loaded of
                Inl e \<Rightarrow> Inl e
              | Inr module \<Rightarrow>
                  (case Option.bind module find_plugin_class of
                     Some c \<Rightarrow> Inr c
                   | None \<Rightarrow>
                       if manifest_type manifest = UI then Inr UiPlugin
                       else Inl (ValueError (''No Plugin class found in '' @ module_name)))))"

definition register_skill :: "AgentSkill \<Rightarrow> (string \<rightharpoonup> AgentSkill) \<Rightarrow> (string \<rightharpoonup> AgentSkill)" where
  "register_skill skill skills = skills(skill_name skill \<mapsto> skill)"

text \<open>
  \<open>_load_plugin\<close>.  A new instance starts with an empty tool list.  The manager's own
  fields are written only after construction, initialisation and the tool scan have all
  passed, so a raise leaves them as they were.
\<close>

definition load_plugin :: "loader_env \<Rightarrow> PluginManifest \<Rightarrow> PluginManager \<Rightarrow> error + PluginManager" where
  "load_plugin env manifest s =
     (case resolve_plugin_class env manifest of
        Inl e \<Rightarrow> Inl e
      | Inr c \<Rightarrow>
          (case class_construct c of
             Raises e \<Rightarrow> Inl (RaisedException e)
           | Returns \<Rightarrow>
               (case class_initialize c of
                  Raises e \<Rightarrow> Inl (RaisedException e)
                | Returns \<Rightarrow>
                    (case scan_for_tools (class_members c) [] of
                       Inl e \<Rightarrow> Inl e
                     | Inr tools \<Rightarrow>
                         (let plugin = \<lparr>plugin_manifest = manifest, plugin_tools = tools,
                                        plugin_shutdown = class_shutdown c\<rparr>;
                              sm = (case manifest_skill manifest of
                                      None \<Rightarrow> skill_manager s
                                    | Some skill \<Rightarrow> map_option (register_skill skill) (skill_manager s))
                          in Inr (s\<lparr>plugins := (plugins s)(manifest_name manifest \<mapsto> plugin),
                                    manifests := (manifests s)(manifest_name manifest \<mapsto> manifest),
                                    load_order := load_order s @ [manifest_name manifest],
                                    skill_manager := sm\<rparr>))))))"

text \<open>
  \<open>list.sort(key, reverse=True)\<close>: reverse the list, sort it stably in ascending order of
  the key, reverse the result.
\<close>

definition sort_reverse :: "('a \<Rightarrow> int) \<Rightarrow> 'a list \<Rightarrow> 'a list" where
  "sort_reverse f xs = rev (sort_key f (rev xs))"

text \<open>The loop of \<open>load_plugins\<close> over the sorted manifests.\<close>

fun load_each :: "loader_env \<Rightarrow> PluginManifest list \<Rightarrow> PluginManager \<Rightarrow> PluginManager" where
  "load_each env [] s = s"
| "load_each env (manifest # rest) s =
     (if manifest_name manifest \<in> dom (plugins s) then load_each env rest s
      else (case load_plugin env manifest s of
              Inl e \<Rightarrow> load_each env rest s
            | Inr s' \<Rightarrow> load_each env rest s'))"

text \<open>\<open>load_plugins\<close>, given what \<open>discover_plugins\<close> returns at the time of the call.\<close>

definition load_plugins ::
  "loader_env \<Rightarrow> PluginManifest list \<Rightarrow> PluginTiming \<Rightarrow> PluginManager \<Rightarrow> PluginManager" where
  "load_plugins env discovered timing s =
     (let to_load = filter (\<lambda>m. manifest_timing m = timing) discovered
      in load_each env (sort_reverse manifest_priority to_load) s)"

text \<open>
  \<open>shutdown_all\<close> yields what it does, in order: each hook it invokes and each error
  it logs.
\<close>

datatype shutdown_event = ShutdownInvoked string | ShutdownErrorLogged string string

fun shutdown_each :: "(string \<rightharpoonup> Plugin) \<Rightarrow> string list \<Rightarrow> shutdown_event list" where
  "shutdown_each ps [] = []"
| "shutdown_each ps (n # names) =
     (case ps n of
        None \<Rightarrow> shutdown_each ps names
      | Some plugin \<Rightarrow>
          (case plugin_shutdown plugin of
             Returns \<Rightarrow> ShutdownInvoked n # shutdown_each ps names
           | Raises e \<Rightarrow> ShutdownInvoked n # ShutdownErrorLogged n e # shutdown_each ps names))"

definition shutdown_all :: "PluginManager \<Rightarrow> shutdown_event list" where
  "shutdown_all s = shutdown_each (plugins s) (rev (load_order s))"

section \<open>Notions used in the statements\<close>

text \<open>
  A JSON-native value, one the codec returns as it was: built from \<open>None\<close>, bools, ints
  within the digit limit, floats other than NaN, strs, lists and dicts only, every dict
  with distinct keys (as every Python dict has).
\<close>

fun json_native :: "pyval \<Rightarrow> bool" where
  "json_native PNone = True"
| "json_native (PBool b) = True"
| "json_native (PInt i) = (\<not> str_digits_exceeded i)"
| "json_native (PFloat f) = (f \<noteq> FloatNaN)"
| "json_native (PStr s) = True"
| "json_native (PList xs) = (\<forall>x\<in>set xs. json_native x)"
| "json_native (PTuple xs) = False"
| "json_native (PDict kvs) = (distinct (map fst kvs) \<and> (\<forall>kv\<in>set kvs. json_native (snd kv)))"
| "json_native (PObject t) = False"

text \<open>A sequence of \<open>set\<close> calls; a rejected call raises and stores nothing.\<close>

fun set_all :: "(string \<times> string \<times> pyval) list \<Rightarrow> data_store \<Rightarrow> data_store" where
  "set_all [] db = db"
| "set_all ((c, k, v) # ops) db =
     (case db_set c k v db of Inl e \<Rightarrow> set_all ops db | Inr db' \<Rightarrow> set_all ops db')"

text \<open>
  The store of a new database file, and four documents: one of JSON-native values, one
  that holds a tuple, one that holds a NaN, and one that holds the least int with more
  digits than the limit.
\<close>

definition empty_store :: data_store where
  "empty_store = Map.empty"

definition plain_doc :: pyval where
  "plain_doc =
     PDict [(''a'', PList [PInt 1, PStr ''x'', PNone, PBool True]),
            (''b'', PFloat (FloatFinite True 3 (- 1))),
            (''c'', PFloat (FloatInf False))]"

definition tuple_doc :: pyval where
  "tuple_doc = PDict [(''size'', PTuple [PInt 1, PInt 2])]"

definition nan_doc :: pyval where
  "nan_doc = PDict [(''ratio'', PFloat FloatNaN)]"

definition huge_doc :: pyval where
  "huge_doc = PDict [(''n'', PInt (10 ^ int_max_str_digits))]"

text \<open>
  The manager after registering a plugin, as the last lines of \<open>_load_plugin\<close> leave it.
\<close>

definition registered :: "PluginManifest \<Rightarrow> Plugin \<Rightarrow> PluginManager \<Rightarrow> PluginManager" where
  "registered m pl s =
     s\<lparr>plugins := (plugins s)(manifest_name m \<mapsto> pl),
       manifests := (manifests s)(manifest_name m \<mapsto> m),
       load_order := load_order s @ [manifest_name m],
       skill_manager := (case manifest_skill m of
                           None \<Rightarrow> skill_manager s
                         | Some skill \<Rightarrow> map_option (register_skill skill) (skill_manager s))\<rparr>"

text \<open>A manifest loads when \<open>_load_plugin\<close> on it does not raise.\<close>

definition loads :: "loader_env \<Rightarrow> PluginManifest \<Rightarrow> bool" where
  "loads env m = (\<not> isl (load_plugin env m (new_plugin_manager None)))"

text \<open>The names whose shutdown hook was invoked, in order.\<close>

fun invoked :: "shutdown_event list \<Rightarrow> string list" where
  "invoked [] = []"
| "invoked (ShutdownInvoked n # es) = n # invoked es"
| "invoked (ShutdownErrorLogged n e # es) = invoked es"

text \<open>The managers a process can reach: a new one, then any number of phase loads.\<close>

inductive reachable :: "PluginManager \<Rightarrow> bool" where
  start: "reachable (new_plugin_manager sm)"
| load: "reachable s \<Longrightarrow> reachable (load_plugins env discovered timing s)"

text \<open>The tool names a plugin class resolves to, in scan order.\<close>

definition tool_names :: "plugin_class \<Rightarrow> string list" where
  "tool_names c = map resolved_tool_name (filter member_is_tool (class_members c))"

text \<open>
  An entity whose dump the JSON codec returns unchanged: the dicts of every version have
  distinct keys, and link metadata holds JSON-native values only.
\<close>

fun version_native :: "Version \<Rightarrow> bool" where
  "version_native v =
     (distinct (map fst (env_vars v)) \<and> distinct (map fst (dependencies v))
      \<and> (\<forall>l\<in>set (project_manager_links v). json_native (PDict (link_metadata l))))"

definition entity_native :: "Entity \<Rightarrow> bool" where
  "entity_native e = (\<forall>v\<in>set (entity_versions e). version_native v)"

section \<open>Instances\<close>

text \<open>
  Secret managers for the examples: one without a provider, one whose provider refuses
  every write, and a process environment with one variable.
\<close>

definition local_secrets :: SecretManager where
  "local_secrets = \<lparr>sm_db = empty_store, sm_provider = None, sm_calls = []\<rparr>"

definition refusing_provider :: SecretProvider where
  "refusing_provider =
     \<lparr>provider_get_secret = (\<lambda>calls k scope project. None),
      provider_set_secret = (\<lambda>calls secret. False)\<rparr>"

definition refused_secrets :: SecretManager where
  "refused_secrets = \<lparr>sm_db = empty_store, sm_provider = Some refusing_provider, sm_calls = []\<rparr>"

definition home_environ :: "string \<rightharpoonup> string" where
  "home_environ = [''HOME'' \<mapsto> ''/root'']"

text \<open>
  Plugins for the examples: an environment without any file, where only declarative UI
  plugins load, and one where every plugin directory holds an \<open>__init__.py\<close>.
\<close>

definition manifest_of ::
  "string \<Rightarrow> string \<Rightarrow> PluginType \<Rightarrow> PluginTiming \<Rightarrow> int \<Rightarrow> PluginManifest" where
  "manifest_of n dir ty t p =
     \<lparr>manifest_name = n, manifest_version = ''1.0.0'', manifest_type = ty, manifest_timing = t,
      manifest_priority = p, manifest_description = None, manifest_entry_point = None,
      manifest_config = [], manifest_dependencies = [], manifest_provider = None,
      manifest_path = Some dir, manifest_skill = None\<rparr>"

definition bare_env :: loader_env where
  "bare_env = \<lparr>file_exists = (\<lambda>dir f. False),
               exec_module = (\<lambda>n dir f. Inl (ImportError ''no such file''))\<rparr>"

definition tool_member :: "string \<Rightarrow> string option \<Rightarrow> member" where
  "tool_member n custom =
     \<lparr>member_name = n, member_is_tool = True, member_tool_name = custom,
      member_tool_description = None, member_doc = None\<rparr>"

definition class_with :: "member list \<Rightarrow> hook_result \<Rightarrow> plugin_class" where
  "class_with ms down =
     \<lparr>class_construct = Returns, class_initialize = Returns, class_members = ms,
      class_shutdown = down\<rparr>"

definition plugin_code :: "string \<Rightarrow> module_member list" where
  "plugin_code dir =
     (if dir = ''/plugins/dup''
      then [BaseClass, PluginSubclass (class_with [tool_member ''first'' (Some ''run''),
                                                   tool_member ''second'' (Some ''run'')] Returns)]
      else if dir = ''/plugins/b''
      then [BaseClass, PluginSubclass (class_with [tool_member ''run'' None] (Raises ''boom''))]
      else [BaseClass, PluginSubclass (class_with [tool_member ''run'' None] Returns)])"

definition code_env :: loader_env where
  "code_env = \<lparr>file_exists = (\<lambda>dir f. f = ''__init__.py''),
               exec_module = (\<lambda>n dir f. Inr (plugin_code dir))\<rparr>"

definition fresh_manager :: PluginManager where
  "fresh_manager = new_plugin_manager None"

definition broken :: PluginManifest where
  "broken = manifest_of ''broken'' ''/plugins/broken'' CORE DEFAULT 0"

definition panel :: PluginManifest where
  "panel = manifest_of ''panel'' ''/plugins/panel'' UI DEFAULT 0"

definition panel_early :: PluginManifest where
  "panel_early = manifest_of ''panel'' ''/plugins/panel_early'' UI PRE_INIT 0"

definition plugin_a :: PluginManifest where
  "plugin_a = manifest_of ''a'' ''/plugins/a'' CORE DEFAULT 3"

definition plugin_b :: PluginManifest where
  "plugin_b = manifest_of ''b'' ''/plugins/b'' CORE DEFAULT 2"

definition plugin_c :: PluginManifest where
  "plugin_c = manifest_of ''c'' ''/plugins/c'' CORE DEFAULT 1"

definition plugin_dup :: PluginManifest where
  "plugin_dup = manifest_of ''dup'' ''/plugins/dup'' CORE DEFAULT 0"

text \<open>
  Entities, projects and providers for the examples: an entity \<open>hero\<close> with the given
  version ids, a project service \<open>studio\<close> that knows one project and the entity with two
  versions, and a secret service \<open>vault\<close> that knows one secret.
\<close>

definition hero_uri :: string where
  "hero_uri = ''entity://projectA/asset/characters/hero''"

definition plain_version :: "string \<Rightarrow> Version" where
  "plain_version i =
     \<lparr>version_id = i, version_control = None, software = None, env_vars = [],
      dependencies = [], project_manager_links = []\<rparr>"

definition hero :: "string list \<Rightarrow> Entity" where
  "hero ids =
     \<lparr>entity_uri = hero_uri, entity_name = ''hero'', entity_project_name = ''projectA'',
      entity_type = ''asset'', entity_description = None,
      entity_versions = map plain_version ids\<rparr>"

definition local_entities :: EntityManager where
  "local_entities = \<lparr>em_db = empty_store, em_project_manager = None, em_events = []\<rparr>"

definition demo_project :: Project where
  "demo_project =
     \<lparr>project_name = ''demo'', project_path = ''/projects/demo'', project_description = None,
      project_created_at = ''2024-01-01T00:00:00+00:00'', project_workflows = []\<rparr>"

definition studio :: ProjectManagerProvider where
  "studio =
     \<lparr>provider_fetch_project = (\<lambda>calls n. if n = ''demo'' then Some demo_project else None),
      provider_prefetch_entities = (\<lambda>calls n. Inr [hero [''v1'']]),
      provider_get_entity = (\<lambda>calls u. if u = hero_uri then Some (hero [''v1'', ''v2'']) else None),
      provider_get_version = (\<lambda>calls u v. None),
      provider_create_entity = (\<lambda>calls e. e)\<rparr>"

definition local_projects :: ProjectManager where
  "local_projects = \<lparr>pm_db = empty_store, pm_provider = None, pm_calls = []\<rparr>"

definition studio_projects :: ProjectManager where
  "studio_projects = \<lparr>pm_db = empty_store, pm_provider = Some studio, pm_calls = []\<rparr>"

definition studio_entities :: EntityManager where
  "studio_entities =
     \<lparr>em_db = empty_store, em_project_manager = Some studio_projects, em_events = []\<rparr>"

definition vault :: SecretProvider where
  "vault =
     \<lparr>provider_get_secret =
        (\<lambda>calls k scope project. if k = ''TOKEN'' then Some (new_secret k ''t0p'' scope project)
                                  else None),
      provider_set_secret = (\<lambda>calls secret. True)\<rparr>"

definition vault_secrets :: SecretManager where
  "vault_secrets = \<lparr>sm_db = empty_store, sm_provider = Some vault, sm_calls = []\<rparr>"


section \<open>The key-value store: round trip\<close>

lemma dict_setitem_fresh: "k \<notin> fst ` set d \<Longrightarrow> dict_setitem k v d = d @ [(k, v)]"
  by (induction d) auto

lemma fold_setitem_distinct:
  "distinct (map fst kvs) \<Longrightarrow> fst ` set acc \<inter> fst ` set kvs = {} \<Longrightarrow>
   fold (\<lambda>kv d. dict_setitem (fst kv) (f (snd kv)) d) kvs acc = acc @ map (\<lambda>kv. (fst kv, f (snd kv))) kvs"
proof (induction kvs arbitrary: acc)
  case Nil
  then show ?case by simp
next
  case (Cons p ps)
  have fresh: "fst p \<notin> fst ` set acc" using Cons.prems(2) by auto
  have d: "distinct (map fst ps)" using Cons.prems(1) by simp
  have disj: "fst ` set (acc @ [(fst p, f (snd p))]) \<inter> fst ` set ps = {}"
    using Cons.prems by auto
  show ?case
    using Cons.IH[OF d disj] by (simp add: dict_setitem_fresh[OF fresh])
qed

lemma digits_within_limit: "\<bar>i\<bar> < 10 \<Longrightarrow> \<not> str_digits_exceeded i"
proof -
  assume small: "\<bar>i\<bar> < 10"
  have "(10::int) ^ 1 \<le> 10 ^ int_max_str_digits"
    by (rule power_increasing) (simp_all add: int_max_str_digits_def)
  then show ?thesis using small by (simp add: str_digits_exceeded_def)
qed

lemma digits_beyond_limit: "str_digits_exceeded (10 ^ int_max_str_digits)"
  by (simp add: str_digits_exceeded_def)

lemma encoded_items_roundtrip:
  "\<forall>x\<in>set xs. \<exists>j. to_json x = Inr j \<and> of_json j = x \<Longrightarrow>
   \<exists>js. encoded_items (map to_json xs) = Inr js \<and> map of_json js = xs"
proof (induction xs)
  case Nil
  then show ?case by simp
next
  case (Cons x xs)
  from Cons.prems obtain j where j: "to_json x = Inr j" "of_json j = x" by auto
  from Cons.prems have "\<forall>x\<in>set xs. \<exists>j. to_json x = Inr j \<and> of_json j = x" by simp
  from Cons.IH[OF this] obtain js where
    js: "encoded_items (map to_json xs) = Inr js" "map of_json js = xs" by auto
  show ?case using j js by simp
qed

lemma encoded_members_roundtrip:
  "\<forall>kv\<in>set kvs. \<exists>j. to_json (snd kv) = Inr j \<and> of_json j = snd kv \<Longrightarrow>
   \<exists>js. encoded_members (map (\<lambda>kv. (fst kv, to_json (snd kv))) kvs) = Inr js
        \<and> map (\<lambda>kv. (fst kv, of_json (snd kv))) js = kvs"
proof (induction kvs)
  case Nil
  then show ?case by simp
next
  case (Cons p ps)
  from Cons.prems obtain j where j: "to_json (snd p) = Inr j" "of_json j = snd p" by auto
  from Cons.prems have "\<forall>kv\<in>set ps. \<exists>j. to_json (snd kv) = Inr j \<and> of_json j = snd kv"
    by simp
  from Cons.IH[OF this] obtain js where
    js: "encoded_members (map (\<lambda>kv. (fst kv, to_json (snd kv))) ps) = Inr js"
        "map (\<lambda>kv. (fst kv, of_json (snd kv))) js = ps" by auto
  have "encoded_members (map (\<lambda>kv. (fst kv, to_json (snd kv))) (p # ps)) = Inr ((fst p, j) # js)"
    using j(1) js(1) by simp
  moreover have "map (\<lambda>kv. (fst kv, of_json (snd kv))) ((fst p, j) # js) = p # ps"
    using j(2) js(2) by simp
  ultimately show ?case by (intro exI[of _ "(fst p, j) # js"] conjI)
qed

lemma json_native_roundtrip:
  "json_native v \<Longrightarrow> \<exists>j. to_json v = Inr j \<and> of_json j = v"
proof (induction v)
  case (PList xs)
  then have "\<forall>x\<in>set xs. \<exists>j. to_json x = Inr j \<and> of_json j = x" by simp
  from encoded_items_roundtrip[OF this] obtain js where
    "encoded_items (map to_json xs) = Inr js" "map of_json js = xs" by auto
  then show ?case by simp
next
  case (PDict kvs)
  have "\<forall>kv\<in>set kvs. \<exists>j. to_json (snd kv) = Inr j \<and> of_json j = snd kv"
  proof
    fix kv assume kv: "kv \<in> set kvs"
    then have "json_native (snd kv)" using PDict.prems by simp
    moreover have "snd kv \<in> Basic_BNFs.snds kv" by (cases kv) simp
    ultimately show "\<exists>j. to_json (snd kv) = Inr j \<and> of_json j = snd kv"
      using PDict.IH kv by blast
  qed
  from encoded_members_roundtrip[OF this] obtain js where
    js: "encoded_members (map (\<lambda>kv. (fst kv, to_json (snd kv))) kvs) = Inr js"
        "map (\<lambda>kv. (fst kv, of_json (snd kv))) js = kvs" by auto
  have "map fst kvs = map fst (map (\<lambda>kv. (fst kv, of_json (snd kv))) js)" using js(2) by simp
  also have "\<dots> = map fst js" by (simp add: comp_def)
  finally have d: "distinct (map fst js)" using PDict.prems by simp
  have "fold (\<lambda>kv d. dict_setitem (fst kv) (of_json (snd kv)) d) js [] = kvs"
    using fold_setitem_distinct[OF d, of "[]" of_json] js(2) by simp
  then show ?case using js(1) by simp
qed simp_all

text \<open>What the encoder wrote, the decoder reads: no integer literal is too long.\<close>

lemma encoded_items_Inr:
  "encoded_items rs = Inr js \<Longrightarrow> length js = length rs \<and> (\<forall>i<length rs. rs ! i = Inr (js ! i))"
proof (induction rs arbitrary: js)
  case Nil
  then show ?case by simp
next
  case (Cons r rs)
  from Cons.prems obtain x xs where
    x: "r = Inr x" "encoded_items rs = Inr xs" "js = x # xs"
    by (auto split: sum.splits)
  from Cons.IH[OF x(2)] have ih: "length xs = length rs" "\<forall>i<length rs. rs ! i = Inr (xs ! i)"
    by auto
  show ?case
  proof (intro conjI allI impI)
    show "length js = length (r # rs)" using x(3) ih(1) by simp
  next
    fix i assume "i < length (r # rs)"
    then show "(r # rs) ! i = Inr (js ! i)" using x ih(2) by (cases i) auto
  qed
qed

lemma encoded_items_sources:
  assumes "encoded_items (map f xs) = Inr js" and "j \<in> set js"
  shows "\<exists>x\<in>set xs. f x = Inr j"
proof -
  from encoded_items_Inr[OF assms(1)] have
    len: "length js = length xs" and nth: "\<forall>i<length xs. f (xs ! i) = Inr (js ! i)" by auto
  from assms(2) obtain i where i: "i < length js" "js ! i = j" by (auto simp: in_set_conv_nth)
  with len nth have "f (xs ! i) = Inr j" by auto
  moreover have "xs ! i \<in> set xs" using i(1) len by simp
  ultimately show ?thesis by blast
qed

lemma encoded_members_sources:
  "encoded_members (map (\<lambda>kv. (fst kv, f (snd kv))) kvs) = Inr js \<Longrightarrow> kj \<in> set js \<Longrightarrow>
   \<exists>kv\<in>set kvs. f (snd kv) = Inr (snd kj)"
proof (induction kvs arbitrary: js)
  case Nil
  then show ?case by simp
next
  case (Cons p ps)
  from Cons.prems(1) obtain x xs where
    x: "f (snd p) = Inr x"
       "encoded_members (map (\<lambda>kv. (fst kv, f (snd kv))) ps) = Inr xs" "js = (fst p, x) # xs"
    by (auto split: sum.splits)
  show ?case
  proof (cases "kj = (fst p, x)")
    case True
    then show ?thesis using x(1) by simp
  next
    case False
    with Cons.prems(2) x(3) have "kj \<in> set xs" by simp
    from Cons.IH[OF x(2) this] show ?thesis by auto
  qed
qed

lemma to_json_readable: "to_json v = Inr j \<Longrightarrow> \<not> oversized j"
proof (induction v arbitrary: j)
  case (PInt i)
  then show ?case by (auto split: if_splits)
next
  case (PList xs)
  from PList.prems obtain js where
    js: "encoded_items (map to_json xs) = Inr js" "j = JArr js"
    by (cases "encoded_items (map to_json xs)") auto
  have "\<not> oversized y" if "y \<in> set js" for y
  proof -
    from encoded_items_sources[OF js(1) that] obtain x where "x \<in> set xs" "to_json x = Inr y"
      by blast
    then show ?thesis using PList.IH by blast
  qed
  then show ?case using js(2) by simp
next
  case (PTuple xs)
  from PTuple.prems obtain js where
    js: "encoded_items (map to_json xs) = Inr js" "j = JArr js"
    by (cases "encoded_items (map to_json xs)") auto
  have "\<not> oversized y" if "y \<in> set js" for y
  proof -
    from encoded_items_sources[OF js(1) that] obtain x where "x \<in> set xs" "to_json x = Inr y"
      by blast
    then show ?thesis using PTuple.IH by blast
  qed
  then show ?case using js(2) by simp
next
  case (PDict kvs)
  from PDict.prems obtain js where
    js: "encoded_members (map (\<lambda>kv. (fst kv, to_json (snd kv))) kvs) = Inr js" "j = JObj js"
    by (cases "encoded_members (map (\<lambda>kv. (fst kv, to_json (snd kv))) kvs)") auto
  have "\<not> oversized (snd kj)" if "kj \<in> set js" for kj
  proof -
    from encoded_members_sources[OF js(1) that] obtain kv where
      kv: "kv \<in> set kvs" "to_json (snd kv) = Inr (snd kj)" by blast
    have "snd kv \<in> Basic_BNFs.snds kv" by (cases kv) simp
    with kv show ?thesis using PDict.IH by blast
  qed
  then show ?case using js(2) by simp
qed auto

text \<open>The encoder raises nothing but a \<open>TypeError\<close> or a \<open>ValueError\<close>.\<close>

lemma encoded_items_Inl:
  "encoded_items rs = Inl e \<Longrightarrow> Inl e \<in> set rs"
proof (induction rs)
  case Nil
  then show ?case by simp
next
  case (Cons r rs)
  then show ?case by (cases r; cases "encoded_items rs") auto
qed

lemma encoded_members_Inl:
  "encoded_members rs = Inl e \<Longrightarrow> Inl e \<in> snd ` set rs"
proof (induction rs)
  case Nil
  then show ?case by simp
next
  case (Cons r rs)
  then show ?case by (cases "snd r"; cases "encoded_members rs") auto
qed

lemma to_json_raises: "to_json v = Inl e \<Longrightarrow> type_or_value_error e"
proof (induction v arbitrary: e)
  case (PInt i)
  then show ?case by (auto split: if_splits)
next
  case (PList xs)
  from PList.prems have "encoded_items (map to_json xs) = Inl e"
    by (cases "encoded_items (map to_json xs)") auto
  from encoded_items_Inl[OF this] obtain x where "x \<in> set xs" "to_json x = Inl e" by auto
  then show ?case using PList.IH by blast
next
  case (PTuple xs)
  from PTuple.prems have "encoded_items (map to_json xs) = Inl e"
    by (cases "encoded_items (map to_json xs)") auto
  from encoded_items_Inl[OF this] obtain x where "x \<in> set xs" "to_json x = Inl e" by auto
  then show ?case using PTuple.IH by blast
next
  case (PDict kvs)
  from PDict.prems have "encoded_members (map (\<lambda>kv. (fst kv, to_json (snd kv))) kvs) = Inl e"
    by (cases "encoded_members (map (\<lambda>kv. (fst kv, to_json (snd kv))) kvs)") auto
  from encoded_members_Inl[OF this] obtain kv where
    kv: "kv \<in> set kvs" "to_json (snd kv) = Inl e" by auto
  have "snd kv \<in> Basic_BNFs.snds kv" by (cases kv) simp
  with kv show ?case using PDict.IH by blast
qed auto

lemma db_set_encoded:
  "to_json v = Inr j \<Longrightarrow> db_set c k v db = Inr (db((c, k) \<mapsto> JsonText j))"
  by (simp add: db_set_def json_dumps_def)

lemma db_get_encoded:
  "to_json v = Inr j \<Longrightarrow> db_get c k (db((c, k) \<mapsto> JsonText j)) = Inr (Some (of_json j))"
  using to_json_readable[of v j] by (simp add: db_get_def)

lemma db_set_rejected:
  "to_json v = Inl e \<Longrightarrow> db_set c k v db = Inl (TypeError ''Data must be JSON-serializable'')"
  using to_json_raises[of v e] by (simp add: db_set_def json_dumps_def)

text \<open>A JSON-native value is equal to itself; a NaN is what would break that.\<close>

lemma float_eq_refl: "f \<noteq> FloatNaN \<Longrightarrow> float_eq f f"
  by (cases f) simp_all

lemma py_eq_items_refl:
  "\<forall>x\<in>set xs. py_eq x x = Some True \<Longrightarrow> py_eq_items xs xs = Some True"
  by (induction xs) simp_all

lemma py_eq_values_refl:
  "\<forall>kv\<in>set kvs. map_of other (fst kv) = Some (snd kv) \<and> py_eq (snd kv) (snd kv) = Some True \<Longrightarrow>
   py_eq_values kvs other = Some True"
  by (induction kvs) simp_all

lemma json_native_self_equal: "json_native v \<Longrightarrow> py_eq v v = Some True"
proof (induction v)
  case (PFloat f)
  then show ?case by (simp add: number_eq_def float_eq_refl)
next
  case (PList xs)
  then have "\<forall>x\<in>set xs. py_eq x x = Some True" by simp
  from py_eq_items_refl[OF this] show ?case by simp
next
  case (PDict kvs)
  have "\<forall>kv\<in>set kvs. map_of kvs (fst kv) = Some (snd kv) \<and> py_eq (snd kv) (snd kv) = Some True"
  proof
    fix kv assume kv: "kv \<in> set kvs"
    then have "json_native (snd kv)" using PDict.prems by simp
    moreover have "snd kv \<in> Basic_BNFs.snds kv" by (cases kv) simp
    ultimately have "py_eq (snd kv) (snd kv) = Some True" using PDict.IH kv by blast
    moreover have "map_of kvs (fst kv) = Some (snd kv)"
      using PDict.prems kv by (cases kv) simp
    ultimately show "map_of kvs (fst kv) = Some (snd kv) \<and> py_eq (snd kv) (snd kv) = Some True"
      by simp
  qed
  from py_eq_values_refl[OF this] show ?case by simp
qed (simp_all add: number_eq_def)

lemma db_get_set_other:
  "db_set c' k' v db = Inr db' \<Longrightarrow> (c', k') \<noteq> (c, k) \<Longrightarrow> db_get c k db' = db_get c k db"
  by (cases "to_json v") (auto simp: db_set_def db_get_def json_dumps_def split: if_splits)

lemma set_all_untouched:
  "(c, k) \<notin> set (map (\<lambda>op. (fst op, fst (snd op))) ops) \<Longrightarrow>
   db_get c k (set_all ops db) = db_get c k db"
proof (induction ops arbitrary: db)
  case Nil
  then show ?case by simp
next
  case (Cons op ops)
  obtain c' k' v where op: "op = (c', k', v)" by (cases op) auto
  with Cons.prems have ne: "(c', k') \<noteq> (c, k)" and
    rest: "(c, k) \<notin> set (map (\<lambda>op. (fst op, fst (snd op))) ops)" by auto
  show ?case
  proof (cases "db_set c' k' v db")
    case (Inl e)
    then show ?thesis using op Cons.IH[OF rest] by simp
  next
    case (Inr db')
    then show ?thesis using op Cons.IH[OF rest, of db'] db_get_set_other[OF Inr ne] by simp
  qed
qed

text \<open>
  Claim C8, as amended.  For a document built only from \<open>None\<close>, booleans, integers of at
  most 4300 digits, floats other than NaN, strings, lists and dicts, \<open>set\<close> succeeds and
  \<open>get\<close> then returns that same document, which \<open>==\<close> finds equal to the one stored.  Every
  document the encoder accepts is stored, and read back as the decoder renders it.
  \<open>get\<close> on a key that no \<open>set\<close> call has named returns nothing.  A document the encoder
  cannot serialise (it holds an object without a JSON counterpart, or an integer of more
  than 4300 digits) is rejected by \<open>set\<close> with a \<open>TypeError\<close>, and there is no store after
  the call but the one before it.  The claim as written also covers documents holding a
  tuple or a NaN, which the encoder accepts: the decoder returns a list for the tuple,
  and a NaN that is unequal to the one stored, so such a document does not come back
  equal.
\<close>

theorem store_roundtrip:
  "(json_native v \<longrightarrow>
      (\<exists>db' got. db_set c k v db = Inr db' \<and> db_get c k db' = Inr (Some got)
                \<and> got = v \<and> py_eq got v = Some True))
   \<and> (to_json v = Inr j \<longrightarrow>
      (\<exists>db'. db_set c k v db = Inr db' \<and> db_get c k db' = Inr (Some (of_json j))))
   \<and> ((c, k) \<notin> set (map (\<lambda>op. (fst op, fst (snd op))) ops) \<longrightarrow>
      db_get c k (set_all ops empty_store) = Inr None)
   \<and> (isl (to_json v) \<longrightarrow> (\<exists>msg. db_set c k v db = Inl (TypeError msg)))"
proof (intro conjI impI)
  assume native: "json_native v"
  from json_native_roundtrip[OF native] obtain j' where
    j': "to_json v = Inr j'" "of_json j' = v" by auto
  have "db_set c k v db = Inr (db((c, k) \<mapsto> JsonText j'))" by (rule db_set_encoded[OF j'(1)])
  moreover have "db_get c k (db((c, k) \<mapsto> JsonText j')) = Inr (Some v)"
    using db_get_encoded[OF j'(1)] j'(2) by simp
  moreover have "py_eq v v = Some True" by (rule json_native_self_equal[OF native])
  ultimately show "\<exists>db' got. db_set c k v db = Inr db' \<and> db_get c k db' = Inr (Some got)
                \<and> got = v \<and> py_eq got v = Some True"
    by simp
next
  assume enc: "to_json v = Inr j"
  show "\<exists>db'. db_set c k v db = Inr db' \<and> db_get c k db' = Inr (Some (of_json j))"
    using db_set_encoded[OF enc, of c k db] db_get_encoded[OF enc, of c k db] by simp
next
  assume "(c, k) \<notin> set (map (\<lambda>op. (fst op, fst (snd op))) ops)"
  from set_all_untouched[OF this] show "db_get c k (set_all ops empty_store) = Inr None"
    by (simp add: empty_store_def db_get_def)
next
  assume "isl (to_json v)"
  then obtain e where "to_json v = Inl e" by (cases "to_json v") auto
  from db_set_rejected[OF this] show "\<exists>msg. db_set c k v db = Inl (TypeError msg)"
    by simp
qed

theorem store_roundtrip_counterexample:
  "\<not> isl (to_json tuple_doc)
   \<and> \<not> isl (db_set ''c'' ''k'' tuple_doc empty_store)
   \<and> db_get ''c'' ''k'' (projr (db_set ''c'' ''k'' tuple_doc empty_store))
        = Inr (Some (PDict [(''size'', PList [PInt 1, PInt 2])]))
   \<and> py_eq (PDict [(''size'', PList [PInt 1, PInt 2])]) tuple_doc = Some False
   \<and> \<not> isl (to_json nan_doc)
   \<and> \<not> isl (db_set ''c'' ''k'' nan_doc empty_store)
   \<and> db_get ''c'' ''k'' (projr (db_set ''c'' ''k'' nan_doc empty_store)) = Inr (Some nan_doc)
   \<and> py_eq nan_doc nan_doc = Some False"
  by (simp add: tuple_doc_def nan_doc_def db_set_def db_get_def json_dumps_def empty_store_def
        digits_within_limit number_eq_def)

theorem store_roundtrip_witness:
  "json_native plain_doc
   \<and> (\<exists>db' got. db_set ''c'' ''k'' plain_doc empty_store = Inr db'
         \<and> db_get ''c'' ''k'' db' = Inr (Some got) \<and> got = plain_doc \<and> py_eq got plain_doc = Some True)
   \<and> to_json tuple_doc = Inr (JObj [(''size'', JArr [JInt 1, JInt 2])])
   \<and> (\<exists>db'. db_set ''c'' ''k'' tuple_doc empty_store = Inr db'
         \<and> db_get ''c'' ''k'' db' = Inr (Some (PDict [(''size'', PList [PInt 1, PInt 2])])))
   \<and> db_get ''c'' ''k'' (set_all [(''c'', ''other'', plain_doc)] empty_store) = Inr None
   \<and> isl (to_json (PDict [(''when'', PObject ''datetime'')]))
   \<and> (\<exists>msg. db_set ''c'' ''k'' (PDict [(''when'', PObject ''datetime'')]) empty_store
               = Inl (TypeError msg))
   \<and> isl (to_json huge_doc)
   \<and> (\<exists>msg. db_set ''c'' ''k'' huge_doc empty_store = Inl (TypeError msg))"
proof -
  have native: "json_native plain_doc"
    by (simp add: plain_doc_def digits_within_limit)
  have tuple: "to_json tuple_doc = Inr (JObj [(''size'', JArr [JInt 1, JInt 2])])"
    by (simp add: tuple_doc_def digits_within_limit)
  have object: "isl (to_json (PDict [(''when'', PObject ''datetime'')]))"
    by simp
  have huge: "isl (to_json huge_doc)"
    by (simp add: huge_doc_def digits_beyond_limit)
  show ?thesis
    using native tuple object huge
      store_roundtrip[of plain_doc "''c''" "''k''" empty_store
                         "JObj [(''size'', JArr [JInt 1, JInt 2])]" "[(''c'', ''other'', plain_doc)]"]
      store_roundtrip[of tuple_doc "''c''" "''k''" empty_store
                         "JObj [(''size'', JArr [JInt 1, JInt 2])]" "[]"]
      store_roundtrip[of "PDict [(''when'', PObject ''datetime'')]" "''c''" "''k''" empty_store
                         "JNull" "[]"]
      store_roundtrip[of huge_doc "''c''" "''k''" empty_store "JNull" "[]"]
    by simp
qed

section \<open>Secrets\<close>

lemma secret_doc_native: "json_native (secret_doc s)"
  by (simp add: secret_doc_def)

lemma cache_secret_ok:
  "\<exists>db'. cache_secret s m = Inr (m\<lparr>sm_db := db'\<rparr>)
     \<and> db' = (sm_db m)((SECRETS_CACHE, make_cache_key (secret_key s) (secret_scope s) (secret_project s))
              \<mapsto> JsonText (projr (to_json (secret_doc s))))
     \<and> db_get SECRETS_CACHE (make_cache_key (secret_key s) (secret_scope s) (secret_project s)) db'
         = Inr (Some (secret_doc s))"
proof -
  from json_native_roundtrip[OF secret_doc_native] obtain j where
    j: "to_json (secret_doc s) = Inr j" "of_json j = secret_doc s" by blast
  show ?thesis
    using j db_set_encoded[OF j(1)] db_get_encoded[OF j(1)]
    by (simp add: cache_secret_def Let_def)
qed

lemma hit_Some_iff: "hit c = Some d \<longleftrightarrow> c = Some d \<and> truthy d"
  by (cases c) auto

lemma hit_None_absent: "hit None = None"
  by simp

lemma secret_doc_truthy: "truthy (secret_doc s)"
  by (simp add: secret_doc_def)

lemma secret_doc_value: "py_get (secret_doc s) ''value'' = Inr (PStr (secret_value s))"
  by (simp add: secret_doc_def)

lemma set_secret_rejected:
  assumes "sm_provider m = Some p"
      and "\<not> provider_set_secret p (sm_calls m) (new_secret k v scope project)"
  shows "fst (set_secret k v scope project m) = Inr False"
    and "sm_db (snd (set_secret k v scope project m)) = sm_db m"
  using assms by (simp_all add: set_secret_def new_secret_def Let_def)

lemma set_secret_stored:
  assumes "sm_provider m = None
           \<or> (\<exists>p. sm_provider m = Some p \<and> provider_set_secret p (sm_calls m) (new_secret k v scope project))"
  shows "fst (set_secret k v scope project m) = Inr True"
    and "db_get SECRETS_CACHE (make_cache_key k scope project) (sm_db (snd (set_secret k v scope project m)))
           = Inr (Some (secret_doc (new_secret k v scope project)))"
proof -
  let ?s = "new_secret k v scope project"
  have key: "make_cache_key (secret_key ?s) (secret_scope ?s) (secret_project ?s) = make_cache_key k scope project"
    by (simp add: new_secret_def)
  have store: "\<And>m'. \<exists>db'. cache_secret ?s m' = Inr (m'\<lparr>sm_db := db'\<rparr>)
        \<and> db_get SECRETS_CACHE (make_cache_key k scope project) db' = Inr (Some (secret_doc ?s))"
    using cache_secret_ok[of ?s] key by metis
  show "fst (set_secret k v scope project m) = Inr True"
  proof (cases "sm_provider m")
    case None
    obtain db' where "cache_secret ?s m = Inr (m\<lparr>sm_db := db'\<rparr>)" using store by blast
    then show ?thesis using None by (simp add: set_secret_def new_secret_def Let_def)
  next
    case (Some p)
    let ?m1 = "m\<lparr>sm_calls := sm_calls m @ [SetSecretCall ?s]\<rparr>"
    obtain db' where "cache_secret ?s ?m1 = Inr (?m1\<lparr>sm_db := db'\<rparr>)" using store by blast
    then show ?thesis using Some assms by (simp add: set_secret_def new_secret_def Let_def)
  qed
  show "db_get SECRETS_CACHE (make_cache_key k scope project) (sm_db (snd (set_secret k v scope project m)))
           = Inr (Some (secret_doc ?s))"
  proof (cases "sm_provider m")
    case None
    obtain db' where "cache_secret ?s m = Inr (m\<lparr>sm_db := db'\<rparr>)"
       "db_get SECRETS_CACHE (make_cache_key k scope project) db' = Inr (Some (secret_doc ?s))" using store by blast
    then show ?thesis using None by (simp add: set_secret_def new_secret_def Let_def)
  next
    case (Some p)
    let ?m1 = "m\<lparr>sm_calls := sm_calls m @ [SetSecretCall ?s]\<rparr>"
    obtain db' where "cache_secret ?s ?m1 = Inr (?m1\<lparr>sm_db := db'\<rparr>)"
       "db_get SECRETS_CACHE (make_cache_key k scope project) db' = Inr (Some (secret_doc ?s))" using store by blast
    then show ?thesis using Some assms by (simp add: set_secret_def new_secret_def Let_def)
  qed
qed

text \<open>
  Claim C7.  With a provider configured that rejects the write, \<open>set_secret\<close> returns
  \<open>False\<close> and the store is the one it started with.  With no provider, or with a provider
  that accepts, \<open>set_secret\<close> returns \<open>True\<close> and the secret's document is in the cache
  under its cache key.
\<close>

theorem set_secret_provider_decides:
  "(sm_provider m = Some p \<and> \<not> provider_set_secret p (sm_calls m) (new_secret k v scope project)
      \<longrightarrow> fst (set_secret k v scope project m) = Inr False
          \<and> sm_db (snd (set_secret k v scope project m)) = sm_db m)
   \<and> (sm_provider m = None
        \<or> (sm_provider m = Some p \<and> provider_set_secret p (sm_calls m) (new_secret k v scope project))
      \<longrightarrow> fst (set_secret k v scope project m) = Inr True
          \<and> db_get SECRETS_CACHE (make_cache_key k scope project)
                (sm_db (snd (set_secret k v scope project m)))
              = Inr (Some (secret_doc (new_secret k v scope project))))"
proof (intro conjI impI)
  assume a: "sm_provider m = Some p \<and> \<not> provider_set_secret p (sm_calls m) (new_secret k v scope project)"
  then show "fst (set_secret k v scope project m) = Inr False"
    using set_secret_rejected(1) by blast
  from a show "sm_db (snd (set_secret k v scope project m)) = sm_db m"
    using set_secret_rejected(2) by blast
next
  assume "sm_provider m = None
        \<or> (sm_provider m = Some p \<and> provider_set_secret p (sm_calls m) (new_secret k v scope project))"
  then have b: "sm_provider m = None
           \<or> (\<exists>p. sm_provider m = Some p \<and> provider_set_secret p (sm_calls m) (new_secret k v scope project))"
    by blast
  show "fst (set_secret k v scope project m) = Inr True" by (rule set_secret_stored(1)[OF b])
  show "db_get SECRETS_CACHE (make_cache_key k scope project)
                (sm_db (snd (set_secret k v scope project m)))
              = Inr (Some (secret_doc (new_secret k v scope project)))" by (rule set_secret_stored(2)[OF b])
qed


lemma set_secret_True:
  assumes "fst (set_secret k v scope project m) = Inr True"
  shows "db_get SECRETS_CACHE (make_cache_key k scope project) (sm_db (snd (set_secret k v scope project m)))
           = Inr (Some (secret_doc (new_secret k v scope project)))"
proof (rule set_secret_stored(2))
  show "sm_provider m = None
        \<or> (\<exists>p. sm_provider m = Some p \<and> provider_set_secret p (sm_calls m) (new_secret k v scope project))"
  proof (cases "sm_provider m")
    case None
    then show ?thesis by simp
  next
    case (Some p)
    have "provider_set_secret p (sm_calls m) (new_secret k v scope project)"
    proof (rule ccontr)
      assume "\<not> provider_set_secret p (sm_calls m) (new_secret k v scope project)"
      from set_secret_rejected(1)[OF Some this] assms show False by simp
    qed
    with Some show ?thesis by simp
  qed
qed

lemma get_secret_hit:
  "db_get SECRETS_CACHE (make_cache_key k scope project) (sm_db m) = Inr cached \<Longrightarrow>
   hit cached = Some c \<Longrightarrow>
   get_secret environ k scope project m = (py_get c ''value'', m)"
  by (simp add: get_secret_def Let_def)

lemma make_cache_key_user: "make_cache_key k USER p = k @ '':USER:''"
  by (simp add: make_cache_key_def)

text \<open>
  Claim C10.  For the \<open>USER\<close> scope the cache key is the key, \<open>:USER:\<close> and an empty
  project part, whatever project is passed.  So for any two project arguments, a
  \<open>set_secret\<close> that stored the secret (it returned \<open>True\<close>, as it always does when no
  provider is configured) is followed by a \<open>get_secret\<close> that returns the value set.
\<close>

theorem user_scope_ignores_project:
  "make_cache_key k USER p1 = k @ '':USER:''
   \<and> make_cache_key k USER p2 = k @ '':USER:''
   \<and> (fst (set_secret k v USER p1 m) = Inr True \<longrightarrow>
        fst (get_secret environ k USER p2 (snd (set_secret k v USER p1 m))) = Inr (PStr v))
   \<and> (sm_provider m = None \<longrightarrow>
        fst (get_secret environ k USER p2 (snd (set_secret k v USER p1 m))) = Inr (PStr v))"
proof -
  have main: "fst (get_secret environ k USER p2 (snd (set_secret k v USER p1 m))) = Inr (PStr v)"
    if ok: "fst (set_secret k v USER p1 m) = Inr True"
  proof -
    let ?m1 = "snd (set_secret k v USER p1 m)"
    have row: "db_get SECRETS_CACHE (make_cache_key k USER p2) (sm_db ?m1)
            = Inr (Some (secret_doc (new_secret k v USER p1)))"
      using set_secret_True[OF ok] by (simp add: make_cache_key_user)
    have "hit (Some (secret_doc (new_secret k v USER p1)))
            = Some (secret_doc (new_secret k v USER p1))"
      by (simp add: secret_doc_truthy)
    from get_secret_hit[OF row this] show ?thesis
      by (simp add: secret_doc_value new_secret_def)
  qed
  have local_mode: "fst (set_secret k v USER p1 m) = Inr True" if "sm_provider m = None"
    using that set_secret_stored(1)[of m k v USER p1] by simp
  show ?thesis using main local_mode by (simp add: make_cache_key_user)
qed

text \<open>
  Claim C9.  A \<open>USER\<close>-scoped lookup that finds nothing in the cache, with no provider
  configured, returns the environment variable of that name, and \<open>None\<close> when it is
  unset.  A \<open>PROJECT\<close>-scoped lookup does not depend on the environment at all, and when
  cache and provider both have nothing it returns \<open>None\<close>.
\<close>

theorem get_secret_env_fallback:
  "(db_get SECRETS_CACHE (make_cache_key k USER project) (sm_db m) = Inr cached
       \<and> hit cached = None \<and> sm_provider m = None
      \<longrightarrow> get_secret environ k USER project m
            = (Inr (case environ k of None \<Rightarrow> PNone | Some v \<Rightarrow> PStr v), m))
   \<and> get_secret environ k PROJECT project m = get_secret environ' k PROJECT project m
   \<and> (db_get SECRETS_CACHE (make_cache_key k PROJECT project) (sm_db m) = Inr cached
        \<and> hit cached = None
        \<and> (sm_provider m = None
            \<or> (sm_provider m = Some p \<and> provider_get_secret p (sm_calls m) k PROJECT project = None))
      \<longrightarrow> fst (get_secret environ k PROJECT project m) = Inr PNone)"
proof (intro conjI impI)
  assume "db_get SECRETS_CACHE (make_cache_key k USER project) (sm_db m) = Inr cached
       \<and> hit cached = None \<and> sm_provider m = None"
  then show "get_secret environ k USER project m
            = (Inr (case environ k of None \<Rightarrow> PNone | Some v \<Rightarrow> PStr v), m)"
    by (simp add: get_secret_def environ_get_def Let_def)
next
  show "get_secret environ k PROJECT project m = get_secret environ' k PROJECT project m"
    by (simp add: get_secret_def Let_def)
next
  assume "db_get SECRETS_CACHE (make_cache_key k PROJECT project) (sm_db m) = Inr cached
        \<and> hit cached = None
        \<and> (sm_provider m = None
            \<or> (sm_provider m = Some p \<and> provider_get_secret p (sm_calls m) k PROJECT project = None))"
  then show "fst (get_secret environ k PROJECT project m) = Inr PNone"
    by (auto simp add: get_secret_def Let_def)
qed

theorem set_secret_provider_decides_witness:
  "fst (set_secret ''K'' ''u'' USER None refused_secrets) = Inr False
   \<and> sm_db (snd (set_secret ''K'' ''u'' USER None refused_secrets)) = sm_db refused_secrets
   \<and> fst (set_secret ''K'' ''u'' USER None local_secrets) = Inr True
   \<and> db_get SECRETS_CACHE (make_cache_key ''K'' USER None)
        (sm_db (snd (set_secret ''K'' ''u'' USER None local_secrets)))
       = Inr (Some (secret_doc (new_secret ''K'' ''u'' USER None)))"
  using set_secret_provider_decides[of refused_secrets refusing_provider "''K''" "''u''" USER None]
        set_secret_provider_decides[of local_secrets refusing_provider "''K''" "''u''" USER None]
  by (simp add: refused_secrets_def refusing_provider_def local_secrets_def)

theorem user_scope_ignores_project_witness:
  "fst (set_secret ''K'' ''u'' USER (Some ''proj1'') local_secrets) = Inr True
   \<and> fst (get_secret home_environ ''K'' USER (Some ''proj2'')
            (snd (set_secret ''K'' ''u'' USER (Some ''proj1'') local_secrets))) = Inr (PStr ''u'')"
proof -
  have ok: "fst (set_secret ''K'' ''u'' USER (Some ''proj1'') local_secrets) = Inr True"
    using set_secret_stored(1)[of local_secrets "''K''" "''u''" USER "Some ''proj1''"]
    by (simp add: local_secrets_def)
  with user_scope_ignores_project[of "''K''" "Some ''proj1''" "Some ''proj2''" "''u''" local_secrets home_environ]
  show ?thesis by simp
qed

theorem get_secret_env_fallback_witness:
  "db_get SECRETS_CACHE (make_cache_key ''HOME'' USER None) (sm_db local_secrets) = Inr None
   \<and> sm_provider local_secrets = None
   \<and> get_secret home_environ ''HOME'' USER None local_secrets = (Inr (PStr ''/root''), local_secrets)
   \<and> get_secret home_environ ''EDITOR'' USER None local_secrets = (Inr PNone, local_secrets)
   \<and> db_get SECRETS_CACHE (make_cache_key ''HOME'' PROJECT (Some ''proj1'')) (sm_db local_secrets) = Inr None
   \<and> fst (get_secret home_environ ''HOME'' PROJECT (Some ''proj1'') local_secrets) = Inr PNone"
proof -
  have a: "db_get SECRETS_CACHE ck (sm_db local_secrets) = Inr None" for ck
    by (simp add: local_secrets_def empty_store_def db_get_def)
  have b: "sm_provider local_secrets = None" by (simp add: local_secrets_def)
  show ?thesis
    using a b
      get_secret_env_fallback[where k = "''HOME''" and project = None and m = local_secrets
        and environ = home_environ and environ' = home_environ and p = refusing_provider
        and cached = None]
      get_secret_env_fallback[where k = "''EDITOR''" and project = None and m = local_secrets
        and environ = home_environ and environ' = home_environ and p = refusing_provider
        and cached = None]
      get_secret_env_fallback[where k = "''HOME''" and project = "Some ''proj1''" and m = local_secrets
        and environ = home_environ and environ' = home_environ and p = refusing_provider
        and cached = None]
    by (simp add: home_environ_def)
qed

section \<open>Plugin loading and shutdown\<close>

subsection \<open>The sort\<close>

lemma sort_reverse_descending:
  "sorted_wrt (\<lambda>a b. f b \<le> f a) (sort_reverse f xs)"
proof -
  have "sorted_wrt (\<lambda>a b. f a \<le> f b) (sort_key f (rev xs))"
    using sorted_sort_key[of f "rev xs"] unfolding sorted_map .
  then show ?thesis unfolding sort_reverse_def sorted_wrt_rev .
qed

lemma sort_reverse_stable:
  "filter (\<lambda>y. f y = k) (sort_reverse f xs) = filter (\<lambda>y. f y = k) xs"
proof -
  have "filter (\<lambda>y. f y = k) (sort_reverse f xs) = rev (filter (\<lambda>y. f y = k) (sort_key f (rev xs)))"
    unfolding sort_reverse_def by (rule rev_filter[symmetric])
  also have "\<dots> = rev (filter (\<lambda>y. f y = k) (rev xs))" by (simp only: sort_key_stable)
  also have "\<dots> = filter (\<lambda>y. f y = k) (rev (rev xs))" by (rule rev_filter)
  also have "\<dots> = filter (\<lambda>y. f y = k) xs" by (simp only: rev_rev_ident)
  finally show ?thesis .
qed

lemma set_sort_reverse: "set (sort_reverse f xs) = set xs"
  by (simp add: sort_reverse_def)

lemma subseq_set: "subseq xs ys \<Longrightarrow> set xs \<subseteq> set ys"
  by (induction rule: list_emb.induct) auto

lemma sorted_wrt_subseq: "subseq xs ys \<Longrightarrow> sorted_wrt P ys \<Longrightarrow> sorted_wrt P xs"
proof (induction rule: list_emb.induct)
  case (list_emb_Nil ys)
  then show ?case by simp
next
  case (list_emb_Cons xs ys y)
  then show ?case by simp
next
  case (list_emb_Cons2 x y xs ys)
  from list_emb_Cons2.hyps(2) have "set xs \<subseteq> set ys" by (rule subseq_set)
  moreover from list_emb_Cons2.prems have "\<forall>z\<in>set ys. P y z" "sorted_wrt P ys" by simp_all
  ultimately show ?case using list_emb_Cons2.IH list_emb_Cons2.hyps(1) by auto
qed

subsection \<open>One load\<close>

lemma load_plugin_unfold:
  "load_plugin env m s =
     (case resolve_plugin_class env m of
        Inl e \<Rightarrow> Inl e
      | Inr c \<Rightarrow>
          (case class_construct c of
             Raises e \<Rightarrow> Inl (RaisedException e)
           | Returns \<Rightarrow>
               (case class_initialize c of
                  Raises e \<Rightarrow> Inl (RaisedException e)
                | Returns \<Rightarrow>
                    (case scan_for_tools (class_members c) [] of
                       Inl e \<Rightarrow> Inl e
                     | Inr tools \<Rightarrow>
                         Inr (registered m \<lparr>plugin_manifest = m, plugin_tools = tools,
                                             plugin_shutdown = class_shutdown c\<rparr> s)))))"
  unfolding load_plugin_def registered_def Let_def by (rule refl)

lemma load_plugin_Inr_iff:
  "load_plugin env m s = Inr s' \<longleftrightarrow>
     (\<exists>c tools. resolve_plugin_class env m = Inr c \<and> class_construct c = Returns
        \<and> class_initialize c = Returns \<and> scan_for_tools (class_members c) [] = Inr tools
        \<and> s' = registered m \<lparr>plugin_manifest = m, plugin_tools = tools,
                               plugin_shutdown = class_shutdown c\<rparr> s)"
proof (cases "resolve_plugin_class env m")
  case (Inl e)
  then show ?thesis by (simp add: load_plugin_unfold)
next
  case (Inr c)
  show ?thesis
  proof (cases "class_construct c")
    case (Raises e)
    then show ?thesis using Inr by (simp add: load_plugin_unfold)
  next
    case Returns
    note con = this
    show ?thesis
    proof (cases "class_initialize c")
      case (Raises e)
      then show ?thesis using Inr con by (simp add: load_plugin_unfold)
    next
      case Returns
      note ini = this
      show ?thesis
      proof (cases "scan_for_tools (class_members c) []")
        case (Inl e)
        then show ?thesis using Inr con ini by (simp add: load_plugin_unfold)
      next
        case (Inr tools)
        then show ?thesis using \<open>resolve_plugin_class env m = Inr c\<close> con ini
          by (auto simp add: load_plugin_unfold)
      qed
    qed
  qed
qed

lemma load_plugin_plugins:
  assumes "load_plugin env m s = Inr s'"
  shows "\<exists>pl. plugin_manifest pl = m \<and> plugins s' = (plugins s)(manifest_name m \<mapsto> pl)"
proof -
  from assms[unfolded load_plugin_Inr_iff] obtain c :: plugin_class and tools where
    "s' = registered m \<lparr>plugin_manifest = m, plugin_tools = tools, plugin_shutdown = class_shutdown c\<rparr> s"
    by auto
  then have "plugin_manifest \<lparr>plugin_manifest = m, plugin_tools = tools, plugin_shutdown = class_shutdown c\<rparr> = m
     \<and> plugins s' = (plugins s)(manifest_name m \<mapsto> \<lparr>plugin_manifest = m, plugin_tools = tools, plugin_shutdown = class_shutdown c\<rparr>)"
    by (simp add: registered_def)
  then show ?thesis by blast
qed

lemma load_plugin_load_order:
  "load_plugin env m s = Inr s' \<Longrightarrow> load_order s' = load_order s @ [manifest_name m]"
  unfolding load_plugin_Inr_iff by (auto simp: registered_def)

lemma load_plugin_isl: "isl (load_plugin env m s) = isl (load_plugin env m s2)"
  by (simp add: load_plugin_unfold split: sum.split hook_result.split)

subsection \<open>The loop\<close>

lemma load_each_keeps:
  "plugins s n = Some pl \<Longrightarrow>
   plugins (load_each env ms s) n = Some pl
   \<and> count_list (load_order (load_each env ms s)) n = count_list (load_order s) n"
proof (induction ms arbitrary: s)
  case Nil
  then show ?case by simp
next
  case (Cons m ms)
  show ?case
  proof (cases "manifest_name m \<in> dom (plugins s)")
    case True
    then show ?thesis using Cons by simp
  next
    case False
    then have ne: "manifest_name m \<noteq> n" using Cons.prems by auto
    show ?thesis
    proof (cases "load_plugin env m s")
      case (Inl e)
      then show ?thesis using False Cons by simp
    next
      case (Inr s')
      from load_plugin_plugins[OF Inr] ne Cons.prems have p: "plugins s' n = Some pl" by auto
      from load_plugin_load_order[OF Inr] ne
      have c: "count_list (load_order s') n = count_list (load_order s) n" by simp
      from Cons.IH[OF p] c show ?thesis using False Inr by simp
    qed
  qed
qed

lemma load_each_dom:
  "dom (plugins (load_each env ms s)) \<subseteq> dom (plugins s) \<union> manifest_name ` set ms"
proof (induction ms arbitrary: s)
  case Nil
  then show ?case by simp
next
  case (Cons m ms)
  show ?case
  proof (cases "manifest_name m \<in> dom (plugins s)")
    case True
    then show ?thesis using Cons[of s] by auto
  next
    case False
    show ?thesis
    proof (cases "load_plugin env m s")
      case (Inl e)
      then show ?thesis using False Cons[of s] by auto
    next
      case (Inr s')
      from load_plugin_plugins[OF Inr] have "dom (plugins s') = insert (manifest_name m) (dom (plugins s))"
        by auto
      then show ?thesis using False Inr Cons[of s'] by auto
    qed
  qed
qed

lemma load_each_trace:
  "\<exists>loaded. load_order (load_each env ms s) = load_order s @ map manifest_name loaded
     \<and> subseq loaded ms
     \<and> (\<forall>m\<in>set loaded. \<exists>pl. plugins (load_each env ms s) (manifest_name m) = Some pl
                               \<and> plugin_manifest pl = m)"
proof (induction ms arbitrary: s)
  case Nil
  then show ?case by simp
next
  case (Cons m ms)
  show ?case
  proof (cases "manifest_name m \<in> dom (plugins s)")
    case True
    from Cons[of s] obtain loaded where
      l: "load_order (load_each env ms s) = load_order s @ map manifest_name loaded"
         "subseq loaded ms"
         "\<forall>m\<in>set loaded. \<exists>pl. plugins (load_each env ms s) (manifest_name m) = Some pl \<and> plugin_manifest pl = m"
      by blast
    have "subseq loaded (m # ms)" using l(2) by (rule list_emb_Cons)
    then show ?thesis
      by (intro exI[of _ loaded]) (use True l in simp)
  next
    case False
    show ?thesis
    proof (cases "load_plugin env m s")
      case (Inl e)
      from Cons[of s] obtain loaded where
        l: "load_order (load_each env ms s) = load_order s @ map manifest_name loaded"
           "subseq loaded ms"
           "\<forall>m\<in>set loaded. \<exists>pl. plugins (load_each env ms s) (manifest_name m) = Some pl \<and> plugin_manifest pl = m"
        by blast
      have "subseq loaded (m # ms)" using l(2) by (rule list_emb_Cons)
      then show ?thesis
        by (intro exI[of _ loaded]) (use False Inl l in simp)
    next
      case (Inr s')
      from Cons[of s'] obtain loaded where
        l: "load_order (load_each env ms s') = load_order s' @ map manifest_name loaded"
           "subseq loaded ms"
           "\<forall>m\<in>set loaded. \<exists>pl. plugins (load_each env ms s') (manifest_name m) = Some pl \<and> plugin_manifest pl = m"
        by blast
      from load_plugin_plugins[OF Inr] obtain pl where
        pl: "plugin_manifest pl = m" "plugins s' (manifest_name m) = Some pl" by auto
      from load_each_keeps[OF pl(2)] have
        kept: "plugins (load_each env ms s') (manifest_name m) = Some pl" by blast
      have step: "load_each env (m # ms) s = load_each env ms s'" using False Inr by simp
      show ?thesis
      proof (intro exI[of _ "m # loaded"] conjI)
        show "load_order (load_each env (m # ms) s) = load_order s @ map manifest_name (m # loaded)"
          using step l(1) load_plugin_load_order[OF Inr] by simp
        show "subseq (m # loaded) (m # ms)" using l(2) by simp
        show "\<forall>m'\<in>set (m # loaded). \<exists>pl. plugins (load_each env (m # ms) s) (manifest_name m') = Some pl
                 \<and> plugin_manifest pl = m'"
          using step l(3) kept pl(1) by auto
      qed
    qed
  qed
qed

text \<open>
  Claim C3.  One call of \<open>load_plugins\<close> appends to the load order the names of the
  manifests it loads, and these manifests, in the order they were loaded, form a
  subsequence of the phase's manifests sorted by descending priority.  So all of them
  belong to the phase and are registered under their names, their priorities never
  increase along the load order, a manifest of strictly higher priority is loaded
  before one of lower priority, and the manifests of one priority are loaded in their
  discovery order.  The loop loads one manifest after the other, so a load is complete
  before the next begins.
\<close>

theorem load_plugins_priority_order:
  "\<exists>loaded.
     load_order (load_plugins env discovered timing s) = load_order s @ map manifest_name loaded
     \<and> subseq loaded (sort_reverse manifest_priority (filter (\<lambda>m. manifest_timing m = timing) discovered))
     \<and> (\<forall>m\<in>set loaded. manifest_timing m = timing
            \<and> (\<exists>pl. plugins (load_plugins env discovered timing s) (manifest_name m) = Some pl
                     \<and> plugin_manifest pl = m))
     \<and> sorted_wrt (\<lambda>a b. manifest_priority b \<le> manifest_priority a) loaded
     \<and> (\<forall>i j. i < length loaded \<and> j < length loaded
             \<and> manifest_priority (loaded ! j) < manifest_priority (loaded ! i) \<longrightarrow> i < j)
     \<and> (\<forall>p. subseq (filter (\<lambda>m. manifest_priority m = p) loaded)
                     (filter (\<lambda>m. manifest_priority m = p) discovered))"
proof -
  let ?to_load = "filter (\<lambda>m. manifest_timing m = timing) discovered"
  let ?sorted = "sort_reverse manifest_priority ?to_load"
  let ?s' = "load_plugins env discovered timing s"
  have eq: "?s' = load_each env ?sorted s" by (simp add: load_plugins_def)
  from load_each_trace[of env ?sorted s] obtain loaded where
    l: "load_order ?s' = load_order s @ map manifest_name loaded"
       "subseq loaded ?sorted"
       "\<forall>m\<in>set loaded. \<exists>pl. plugins ?s' (manifest_name m) = Some pl \<and> plugin_manifest pl = m"
    unfolding eq by blast
  have sub: "set loaded \<subseteq> set ?sorted" using l(2) by (rule subseq_set)
  have timing: "\<forall>m\<in>set loaded. manifest_timing m = timing"
    using sub by (auto simp: set_sort_reverse)
  have desc: "sorted_wrt (\<lambda>a b. manifest_priority b \<le> manifest_priority a) loaded"
    using sorted_wrt_subseq[OF l(2) sort_reverse_descending] .
  have idx: "\<forall>i j. i < length loaded \<and> j < length loaded
             \<and> manifest_priority (loaded ! j) < manifest_priority (loaded ! i) \<longrightarrow> i < j"
  proof (intro allI impI)
    fix i j
    assume a: "i < length loaded \<and> j < length loaded
             \<and> manifest_priority (loaded ! j) < manifest_priority (loaded ! i)"
    show "i < j"
    proof (rule ccontr)
      assume "\<not> i < j"
      then have "j < i \<or> j = i" by auto
      then show False
      proof
        assume "j < i"
        with a desc have "manifest_priority (loaded ! i) \<le> manifest_priority (loaded ! j)"
          by (simp add: sorted_wrt_iff_nth_less)
        with a show False by simp
      next
        assume "j = i"
        with a show False by simp
      qed
    qed
  qed
  have stable: "\<forall>p. subseq (filter (\<lambda>m. manifest_priority m = p) loaded)
                     (filter (\<lambda>m. manifest_priority m = p) discovered)"
  proof
    fix p
    have "subseq (filter (\<lambda>m. manifest_priority m = p) loaded)
                 (filter (\<lambda>m. manifest_priority m = p) ?sorted)"
      using l(2) by (rule subseq_filter)
    also have "filter (\<lambda>m. manifest_priority m = p) ?sorted
                 = filter (\<lambda>m. manifest_priority m = p) ?to_load"
      by (rule sort_reverse_stable)
    also have "subseq (filter (\<lambda>m. manifest_priority m = p) ?to_load)
                 (filter (\<lambda>m. manifest_priority m = p) discovered)"
      by (rule subseq_filter) (rule subseq_filter_left)
    finally show "subseq (filter (\<lambda>m. manifest_priority m = p) loaded)
                     (filter (\<lambda>m. manifest_priority m = p) discovered)" .
  qed
  show ?thesis
    by (rule exI[of _ loaded]) (use l timing desc idx stable in blast)
qed

lemma loads_any_state: "loads env m \<Longrightarrow> \<exists>s'. load_plugin env m s = Inr s'"
proof -
  assume "loads env m"
  then have "\<not> isl (load_plugin env m s)"
    unfolding loads_def using load_plugin_isl[of env m s "new_plugin_manager None"] by simp
  then show ?thesis by (cases "load_plugin env m s") auto
qed

lemma not_loads_any_state: "\<not> loads env m \<Longrightarrow> \<exists>e. load_plugin env m s = Inl e"
proof -
  assume "\<not> loads env m"
  then have "isl (load_plugin env m s)"
    unfolding loads_def using load_plugin_isl[of env m s "new_plugin_manager None"] by simp
  then show ?thesis by (cases "load_plugin env m s") auto
qed

lemma load_each_dom_mono: "dom (plugins s) \<subseteq> dom (plugins (load_each env ms s))"
proof
  fix n assume "n \<in> dom (plugins s)"
  then obtain pl where "plugins s n = Some pl" by auto
  from load_each_keeps[OF this, of env ms] show "n \<in> dom (plugins (load_each env ms s))" by auto
qed

lemma load_each_loaded:
  "m \<in> set ms \<Longrightarrow> loads env m \<Longrightarrow> manifest_name m \<in> dom (plugins (load_each env ms s))"
proof (induction ms arbitrary: s)
  case Nil
  then show ?case by simp
next
  case (Cons a ms)
  show ?case
  proof (cases "manifest_name a \<in> dom (plugins s)")
    case True
    show ?thesis
    proof (cases "a = m")
      case True
      with \<open>manifest_name a \<in> dom (plugins s)\<close> have "manifest_name m \<in> dom (plugins s)"
        by simp
      then show ?thesis using load_each_dom_mono[of s env "a # ms"] by blast
    next
      case False
      with Cons.prems have "m \<in> set ms" by simp
      from Cons.IH[OF this Cons.prems(2), of s] True show ?thesis by simp
    qed
  next
    case False
    note fresh = this
    show ?thesis
    proof (cases "load_plugin env a s")
      case (Inl e)
      have "a \<noteq> m" using loads_any_state[OF Cons.prems(2), of s] Inl by auto
      with Cons.prems have "m \<in> set ms" by auto
      from Cons.IH[OF this Cons.prems(2), of s] fresh Inl show ?thesis by simp
    next
      case (Inr s')
      show ?thesis
      proof (cases "a = m")
        case True
        from load_plugin_plugins[OF Inr] have "manifest_name m \<in> dom (plugins s')"
          using True by auto
        then have "manifest_name m \<in> dom (plugins (load_each env ms s'))"
          using load_each_dom_mono[of s' env ms] by blast
        then show ?thesis using fresh Inr by simp
      next
        case False
        with Cons.prems have "m \<in> set ms" by simp
        from Cons.IH[OF this Cons.prems(2), of s'] fresh Inr show ?thesis by simp
      qed
    qed
  qed
qed

lemma load_each_count:
  "n \<notin> dom (plugins s) \<Longrightarrow>
   (n \<notin> dom (plugins (load_each env ms s))
      \<and> count_list (load_order (load_each env ms s)) n = count_list (load_order s) n)
   \<or> (n \<in> dom (plugins (load_each env ms s))
      \<and> count_list (load_order (load_each env ms s)) n = count_list (load_order s) n + 1)"
proof (induction ms arbitrary: s)
  case Nil
  then show ?case by simp
next
  case (Cons a ms)
  show ?case
  proof (cases "manifest_name a \<in> dom (plugins s)")
    case True
    then show ?thesis using Cons.IH[OF Cons.prems] by simp
  next
    case False
    note fresh = this
    show ?thesis
    proof (cases "load_plugin env a s")
      case (Inl e)
      then show ?thesis using fresh Cons.IH[OF Cons.prems] by simp
    next
      case (Inr s')
      note step = load_plugin_plugins[OF Inr] load_plugin_load_order[OF Inr]
      show ?thesis
      proof (cases "manifest_name a = n")
        case True
        from step(1) True obtain pl where pl: "plugins s' n = Some pl" by auto
        from step(2) True have c: "count_list (load_order s') n = count_list (load_order s) n + 1"
          by simp
        from load_each_keeps[OF pl, of env ms] c fresh Inr show ?thesis by auto
      next
        case False
        from step(1) False Cons.prems have "n \<notin> dom (plugins s')" by auto
        moreover from step(2) False have "count_list (load_order s') n = count_list (load_order s) n"
          by simp
        ultimately show ?thesis using Cons.IH[of s'] fresh Inr by simp
      qed
    qed
  qed
qed

lemma load_each_settled:
  "\<forall>m\<in>set ms. manifest_name m \<in> dom (plugins s) \<or> \<not> loads env m \<Longrightarrow> load_each env ms s = s"
proof (induction ms)
  case Nil
  then show ?case by simp
next
  case (Cons a ms)
  then have rest: "load_each env ms s = s" by simp
  show ?case
  proof (cases "manifest_name a \<in> dom (plugins s)")
    case True
    then show ?thesis using rest by simp
  next
    case False
    with Cons.prems have "\<not> loads env a" by simp
    from not_loads_any_state[OF this, of s] obtain e where "load_plugin env a s = Inl e" by blast
    then show ?thesis using False rest by simp
  qed
qed

lemma load_each_idempotent: "load_each env ms (load_each env ms s) = load_each env ms s"
proof (rule load_each_settled, rule ballI)
  fix m assume "m \<in> set ms"
  show "manifest_name m \<in> dom (plugins (load_each env ms s)) \<or> \<not> loads env m"
    using load_each_loaded[OF \<open>m \<in> set ms\<close>, of env s] by blast
qed

lemma load_each_not_loaded:
  "\<forall>m\<in>set ms. manifest_name m = n \<longrightarrow> \<not> loads env m \<Longrightarrow> n \<notin> dom (plugins s) \<Longrightarrow>
   n \<notin> dom (plugins (load_each env ms s))"
proof (induction ms arbitrary: s)
  case Nil
  then show ?case by simp
next
  case (Cons a ms)
  from Cons.prems(1) have rest: "\<forall>m\<in>set ms. manifest_name m = n \<longrightarrow> \<not> loads env m" by simp
  show ?case
  proof (cases "manifest_name a \<in> dom (plugins s)")
    case True
    then show ?thesis using Cons.IH[OF rest Cons.prems(2)] by simp
  next
    case False
    note fresh = this
    show ?thesis
    proof (cases "load_plugin env a s")
      case (Inl e)
      then show ?thesis using fresh Cons.IH[OF rest Cons.prems(2)] by simp
    next
      case (Inr s')
      have "loads env a"
        using Inr load_plugin_isl[of env a s "new_plugin_manager None"] by (simp add: loads_def)
      with Cons.prems(1) have "manifest_name a \<noteq> n" by auto
      with load_plugin_plugins[OF Inr] Cons.prems(2) have "n \<notin> dom (plugins s')" by auto
      from Cons.IH[OF rest this] fresh Inr show ?thesis by simp
    qed
  qed
qed

lemma load_each_order_names:
  "set (load_order (load_each env ms s)) \<subseteq> set (load_order s) \<union> dom (plugins (load_each env ms s))"
proof -
  from load_each_trace[of env ms s] obtain loaded where
    l: "load_order (load_each env ms s) = load_order s @ map manifest_name loaded"
       "\<forall>m\<in>set loaded. \<exists>pl. plugins (load_each env ms s) (manifest_name m) = Some pl
                               \<and> plugin_manifest pl = m"
    by blast
  from l(2) have "manifest_name ` set loaded \<subseteq> dom (plugins (load_each env ms s))" by auto
  with l(1) show ?thesis by auto
qed

lemma load_plugins_load_each:
  "load_plugins env discovered timing s
     = load_each env (sort_reverse manifest_priority (filter (\<lambda>m. manifest_timing m = timing) discovered)) s"
  by (simp add: load_plugins_def)

lemma to_load_set:
  "set (sort_reverse manifest_priority (filter (\<lambda>m. manifest_timing m = timing) discovered))
     = {m \<in> set discovered. manifest_timing m = timing}"
  by (simp add: set_sort_reverse)

text \<open>
  Claim C2, as amended.  The claim as written fails for a manifest whose load raises (it
  is never registered, however often its phase is loaded) and for a manifest whose name
  is shared by a manifest of another phase (that phase registers the name).  What holds:
  \<^item> loading phase \<open>Y\<close> leaves a manifest of phase \<open>X \<noteq> Y\<close> unloaded, provided its name was
    not registered before and no discovered manifest of phase \<open>Y\<close> carries its name;
  \<^item> a name that was not registered before is appended to the load order at most once by
    two calls for the same phase, and exactly once, already by the first call, when
    the manifest loads;
  \<^item> the second of two calls for the same phase changes nothing;
  \<^item> a name already in the registry keeps its plugin and its number of occurrences in
    the load order through any later call, whatever is discovered then.
\<close>

theorem load_plugins_phase_idempotent:
  "(m \<in> set discovered \<and> manifest_timing m = X \<and> Y \<noteq> X
      \<and> manifest_name m \<notin> dom (plugins s)
      \<and> (\<forall>m'\<in>set discovered. manifest_timing m' = Y \<longrightarrow> manifest_name m' \<noteq> manifest_name m)
     \<longrightarrow> manifest_name m \<notin> dom (plugins (load_plugins env discovered Y s)))
   \<and> (manifest_name m \<notin> dom (plugins s) \<and> manifest_name m \<notin> set (load_order s)
     \<longrightarrow> count_list (load_order (load_plugins env discovered X (load_plugins env discovered X s)))
            (manifest_name m) \<le> 1)
   \<and> (m \<in> set discovered \<and> manifest_timing m = X \<and> loads env m
      \<and> manifest_name m \<notin> dom (plugins s) \<and> manifest_name m \<notin> set (load_order s)
     \<longrightarrow> manifest_name m \<in> dom (plugins (load_plugins env discovered X s))
        \<and> count_list (load_order (load_plugins env discovered X s)) (manifest_name m) = 1
        \<and> count_list (load_order (load_plugins env discovered X (load_plugins env discovered X s)))
            (manifest_name m) = 1)
   \<and> load_plugins env discovered X (load_plugins env discovered X s) = load_plugins env discovered X s
   \<and> (n \<in> dom (plugins s)
     \<longrightarrow> plugins (load_plugins env' discovered' Z s) n = plugins s n
        \<and> count_list (load_order (load_plugins env' discovered' Z s)) n = count_list (load_order s) n)"
proof -
  let ?ms = "\<lambda>t. sort_reverse manifest_priority (filter (\<lambda>m. manifest_timing m = t) discovered)"
  have idem: "load_plugins env discovered X (load_plugins env discovered X s) = load_plugins env discovered X s"
    by (simp only: load_plugins_load_each load_each_idempotent)
  have other: "manifest_name m \<notin> dom (plugins (load_plugins env discovered Y s))"
    if a: "m \<in> set discovered \<and> manifest_timing m = X \<and> Y \<noteq> X
      \<and> manifest_name m \<notin> dom (plugins s)
      \<and> (\<forall>m'\<in>set discovered. manifest_timing m' = Y \<longrightarrow> manifest_name m' \<noteq> manifest_name m)"
  proof -
    have "manifest_name m \<notin> manifest_name ` set (?ms Y)"
      using a by (auto simp: to_load_set)
    with a load_each_dom[of env "?ms Y" s] show ?thesis
      unfolding load_plugins_load_each by blast
  qed
  have once: "count_list (load_order (load_plugins env discovered X s)) (manifest_name m) \<le> 1"
    if a: "manifest_name m \<notin> dom (plugins s) \<and> manifest_name m \<notin> set (load_order s)"
  proof -
    from a have z: "count_list (load_order s) (manifest_name m) = 0" by simp
    from a load_each_count[of "manifest_name m" s env "?ms X"] z show ?thesis
      unfolding load_plugins_load_each by auto
  qed
  have exactly: "manifest_name m \<in> dom (plugins (load_plugins env discovered X s))
        \<and> count_list (load_order (load_plugins env discovered X s)) (manifest_name m) = 1"
    if a: "m \<in> set discovered \<and> manifest_timing m = X \<and> loads env m
      \<and> manifest_name m \<notin> dom (plugins s) \<and> manifest_name m \<notin> set (load_order s)"
  proof -
    from a have "m \<in> set (?ms X)" by (simp add: to_load_set)
    from load_each_loaded[OF this, of env s] a
    have d: "manifest_name m \<in> dom (plugins (load_plugins env discovered X s))"
      unfolding load_plugins_load_each by simp
    from a have z: "count_list (load_order s) (manifest_name m) = 0" by simp
    from a load_each_count[of "manifest_name m" s env "?ms X"] z d show ?thesis
      unfolding load_plugins_load_each by auto
  qed
  have kept: "plugins (load_plugins env' discovered' Z s) n = plugins s n
        \<and> count_list (load_order (load_plugins env' discovered' Z s)) n = count_list (load_order s) n"
    if a: "n \<in> dom (plugins s)"
  proof -
    from a obtain pl where "plugins s n = Some pl" by auto
    from load_each_keeps[OF this] this show ?thesis
      unfolding load_plugins_load_each by simp
  qed
  show ?thesis
    using idem other once exactly kept by (simp only: idem) blast
qed

subsection \<open>Shutdown\<close>

lemma invoked_shutdown_each:
  "invoked (shutdown_each ps names) = filter (\<lambda>n. n \<in> dom ps) names"
proof (induction names)
  case Nil
  then show ?case by simp
next
  case (Cons n names)
  show ?case
  proof (cases "ps n")
    case None
    then show ?thesis using Cons by (simp add: domIff)
  next
    case (Some plugin)
    then show ?thesis using Cons by (cases "plugin_shutdown plugin") (auto simp: domIff)
  qed
qed

lemma logged_shutdown_each:
  "n \<in> set names \<Longrightarrow> ps n = Some pl \<Longrightarrow> plugin_shutdown pl = Raises e \<Longrightarrow>
   ShutdownErrorLogged n e \<in> set (shutdown_each ps names)"
proof (induction names)
  case Nil
  then show ?case by simp
next
  case (Cons a names)
  show ?case
  proof (cases "a = n")
    case True
    then show ?thesis using Cons.prems by simp
  next
    case False
    with Cons have "ShutdownErrorLogged n e \<in> set (shutdown_each ps names)" by simp
    then show ?thesis by (auto split: option.split hook_result.split)
  qed
qed

lemma load_each_order_in_dom:
  "set (load_order s) \<subseteq> dom (plugins s) \<Longrightarrow>
   set (load_order (load_each env ms s)) \<subseteq> dom (plugins (load_each env ms s))"
  using load_each_order_names[of env ms s] load_each_dom_mono[of s env ms] by blast

lemma reachable_order_in_dom: "reachable s \<Longrightarrow> set (load_order s) \<subseteq> dom (plugins s)"
proof (induction rule: reachable.induct)
  case (start sm)
  then show ?case by (simp add: new_plugin_manager_def)
next
  case (load s env discovered timing)
  from load_each_order_in_dom[OF load.IH] show ?case unfolding load_plugins_load_each .
qed

text \<open>
  Claim C5.  In every reachable manager \<open>shutdown_all\<close> invokes the shutdown hooks in
  exactly the reverse of the load order, whichever of the hooks raise; a hook that raises
  is logged and the hooks after it are still invoked.
\<close>

theorem shutdown_reverse_order:
  "reachable s \<Longrightarrow>
   invoked (shutdown_all s) = rev (load_order s)
   \<and> (\<forall>n pl e. n \<in> set (load_order s) \<and> plugins s n = Some pl \<and> plugin_shutdown pl = Raises e
         \<longrightarrow> ShutdownErrorLogged n e \<in> set (shutdown_all s))"
proof
  assume r: "reachable s"
  have "filter (\<lambda>n. n \<in> dom (plugins s)) (rev (load_order s)) = rev (load_order s)"
    using reachable_order_in_dom[OF r] by (auto simp: filter_id_conv)
  then show "invoked (shutdown_all s) = rev (load_order s)"
    by (simp add: shutdown_all_def invoked_shutdown_each)
  show "\<forall>n pl e. n \<in> set (load_order s) \<and> plugins s n = Some pl \<and> plugin_shutdown pl = Raises e
         \<longrightarrow> ShutdownErrorLogged n e \<in> set (shutdown_all s)"
    using logged_shutdown_each[of _ "rev (load_order s)" "plugins s"]
    by (auto simp: shutdown_all_def)
qed

subsection \<open>The tool scan\<close>

lemma scan_for_tools_names:
  "scan_for_tools ms tools = Inr ts \<Longrightarrow>
   map tool_name ts = map tool_name tools @ map resolved_tool_name (filter member_is_tool ms)"
proof (induction ms arbitrary: tools)
  case Nil
  then show ?case by simp
next
  case (Cons m ms)
  show ?case
  proof (cases "member_is_tool m")
    case False
    then show ?thesis using Cons by simp
  next
    case True
    let ?t = "\<lparr>tool_name = resolved_tool_name m,
               tool_description = or_else (member_tool_description m) (member_doc m)\<rparr>"
    from Cons.prems True have nodup: "\<not> (\<exists>t\<in>set tools. tool_name t = resolved_tool_name m)"
      by (auto simp: Let_def split: if_splits)
    with Cons.prems True have "scan_for_tools ms (tools @ [?t]) = Inr ts"
      by (simp add: Let_def)
    from Cons.IH[OF this] True show ?thesis by simp
  qed
qed

lemma scan_for_tools_duplicate:
  "distinct (map tool_name tools) \<Longrightarrow>
   \<not> distinct (map tool_name tools @ map resolved_tool_name (filter member_is_tool ms)) \<Longrightarrow>
   \<exists>msg. scan_for_tools ms tools = Inl (ValueError msg)"
proof (induction ms arbitrary: tools)
  case Nil
  then show ?case by simp
next
  case (Cons m ms)
  show ?case
  proof (cases "member_is_tool m")
    case False
    then show ?thesis using Cons by simp
  next
    case True
    note tool = this
    let ?t = "\<lparr>tool_name = resolved_tool_name m,
               tool_description = or_else (member_tool_description m) (member_doc m)\<rparr>"
    show ?thesis
    proof (cases "\<exists>t\<in>set tools. tool_name t = resolved_tool_name m")
      case True
      then show ?thesis using tool by (simp add: Let_def)
    next
      case False
      then have d: "distinct (map tool_name (tools @ [?t]))" using Cons.prems(1) by auto
      have nd: "\<not> distinct (map tool_name (tools @ [?t]) @ map resolved_tool_name (filter member_is_tool ms))"
        using Cons.prems(2) tool by simp
      from Cons.IH[OF d nd] False tool show ?thesis by (simp add: Let_def)
    qed
  qed
qed

lemma scan_for_tools_distinct:
  "distinct (map tool_name tools @ map resolved_tool_name (filter member_is_tool ms)) \<Longrightarrow>
   \<exists>ts. scan_for_tools ms tools = Inr ts"
proof (induction ms arbitrary: tools)
  case Nil
  then show ?case by simp
next
  case (Cons m ms)
  show ?case
  proof (cases "member_is_tool m")
    case False
    then show ?thesis using Cons by simp
  next
    case True
    let ?t = "\<lparr>tool_name = resolved_tool_name m,
               tool_description = or_else (member_tool_description m) (member_doc m)\<rparr>"
    from Cons.prems True have "resolved_tool_name m \<notin> set (map tool_name tools)"
      by simp
    then have nodup: "\<not> (\<exists>t\<in>set tools. tool_name t = resolved_tool_name m)"
      by force
    have "distinct (map tool_name (tools @ [?t]) @ map resolved_tool_name (filter member_is_tool ms))"
      using Cons.prems True by simp
    from Cons.IH[OF this] nodup True show ?thesis by (simp add: Let_def)
  qed
qed

lemma load_plugin_duplicate:
  assumes "resolve_plugin_class env m = Inr c" and "\<not> distinct (tool_names c)"
  shows "\<exists>e. load_plugin env m s = Inl e"
    and "class_construct c = Returns \<Longrightarrow> class_initialize c = Returns \<Longrightarrow>
         \<exists>msg. load_plugin env m s = Inl (ValueError msg)"
proof -
  from scan_for_tools_duplicate[of "[]" "class_members c"] assms(2)
  obtain msg where scan: "scan_for_tools (class_members c) [] = Inl (ValueError msg)"
    by (auto simp: tool_names_def)
  show "\<exists>e. load_plugin env m s = Inl e"
    using assms(1) scan
    by (simp add: load_plugin_unfold split: hook_result.split)
  show "class_construct c = Returns \<Longrightarrow> class_initialize c = Returns \<Longrightarrow>
         \<exists>msg. load_plugin env m s = Inl (ValueError msg)"
    using assms(1) scan by (simp add: load_plugin_unfold)
qed

lemma load_plugin_tools:
  assumes "resolve_plugin_class env m = Inr c" and "class_construct c = Returns"
      and "class_initialize c = Returns" and "distinct (tool_names c)"
  shows "\<exists>pl. load_plugin env m s = Inr (registered m pl s) \<and> map tool_name (plugin_tools pl) = tool_names c"
proof -
  from scan_for_tools_distinct[of "[]" "class_members c"] assms(4)
  obtain ts where scan: "scan_for_tools (class_members c) [] = Inr ts"
    by (auto simp: tool_names_def)
  from scan_for_tools_names[OF scan] have "map tool_name ts = tool_names c"
    by (simp add: tool_names_def)
  then show ?thesis
    using assms(1-3) scan
    by (intro exI[of _ "\<lparr>plugin_manifest = m, plugin_tools = ts, plugin_shutdown = class_shutdown c\<rparr>"])
       (simp add: load_plugin_unfold)
qed

text \<open>
  Claim C6.  When the class found for a manifest has two tool-marked members that
  resolve to the same tool name, \<open>_load_plugin\<close> raises (a \<open>ValueError\<close> from the scan when
  construction and initialisation pass), and a phase load that discovers the manifest
  leaves its name out of the registry and out of the load order.  Two plugins with
  different names whose classes each have distinct tool names, one of them shared by
  both, load one after the other, and both registered plugins hold a tool of the shared
  name.
\<close>

theorem duplicate_tool_names:
  "(resolve_plugin_class env m = Inr c \<and> \<not> distinct (tool_names c)
      \<longrightarrow> (\<exists>e. load_plugin env m s = Inl e)
          \<and> (class_construct c = Returns \<and> class_initialize c = Returns
               \<longrightarrow> (\<exists>msg. load_plugin env m s = Inl (ValueError msg)))
          \<and> (manifest_name m \<notin> dom (plugins s) \<and> manifest_name m \<notin> set (load_order s)
               \<and> (\<forall>m'\<in>set discovered. manifest_name m' = manifest_name m \<longrightarrow> m' = m)
               \<longrightarrow> manifest_name m \<notin> dom (plugins (load_plugins env discovered timing s))
                   \<and> manifest_name m \<notin> set (load_order (load_plugins env discovered timing s))))
   \<and> (manifest_name m1 \<noteq> manifest_name m2
       \<and> resolve_plugin_class env m1 = Inr c1 \<and> class_construct c1 = Returns
       \<and> class_initialize c1 = Returns \<and> distinct (tool_names c1)
       \<and> resolve_plugin_class env m2 = Inr c2 \<and> class_construct c2 = Returns
       \<and> class_initialize c2 = Returns \<and> distinct (tool_names c2)
       \<and> x \<in> set (tool_names c1) \<and> x \<in> set (tool_names c2)
      \<longrightarrow> (\<exists>s1 s2 pl1 pl2.
             load_plugin env m1 s = Inr s1 \<and> load_plugin env m2 s1 = Inr s2
             \<and> plugins s2 (manifest_name m1) = Some pl1 \<and> plugins s2 (manifest_name m2) = Some pl2
             \<and> x \<in> tool_name ` set (plugin_tools pl1) \<and> x \<in> tool_name ` set (plugin_tools pl2)
             \<and> load_order s2 = load_order s @ [manifest_name m1, manifest_name m2]))"
proof (intro conjI impI)
  assume a: "resolve_plugin_class env m = Inr c \<and> \<not> distinct (tool_names c)"
  then show "\<exists>e. load_plugin env m s = Inl e" using load_plugin_duplicate(1) by blast
  {
    assume "class_construct c = Returns \<and> class_initialize c = Returns"
    then show "\<exists>msg. load_plugin env m s = Inl (ValueError msg)"
      using a load_plugin_duplicate(2) by blast
  }
  assume b: "manifest_name m \<notin> dom (plugins s) \<and> manifest_name m \<notin> set (load_order s)
               \<and> (\<forall>m'\<in>set discovered. manifest_name m' = manifest_name m \<longrightarrow> m' = m)"
  have nl: "\<not> loads env m"
    using load_plugin_duplicate(1)[of env m c "new_plugin_manager None"] a
    by (auto simp: loads_def)
  let ?ms = "sort_reverse manifest_priority (filter (\<lambda>m. manifest_timing m = timing) discovered)"
  have "\<forall>m'\<in>set ?ms. manifest_name m' = manifest_name m \<longrightarrow> \<not> loads env m'"
    using b nl by (auto simp: to_load_set)
  from load_each_not_loaded[OF this] b
  show d: "manifest_name m \<notin> dom (plugins (load_plugins env discovered timing s))"
    unfolding load_plugins_load_each by blast
  show "manifest_name m \<notin> set (load_order (load_plugins env discovered timing s))"
    using d b load_each_order_names[of env ?ms s] unfolding load_plugins_load_each by blast
next
  assume a: "manifest_name m1 \<noteq> manifest_name m2
       \<and> resolve_plugin_class env m1 = Inr c1 \<and> class_construct c1 = Returns
       \<and> class_initialize c1 = Returns \<and> distinct (tool_names c1)
       \<and> resolve_plugin_class env m2 = Inr c2 \<and> class_construct c2 = Returns
       \<and> class_initialize c2 = Returns \<and> distinct (tool_names c2)
       \<and> x \<in> set (tool_names c1) \<and> x \<in> set (tool_names c2)"
  from a load_plugin_tools[of env m1 c1 s] obtain pl1 where
    p1: "load_plugin env m1 s = Inr (registered m1 pl1 s)" "map tool_name (plugin_tools pl1) = tool_names c1"
    by blast
  from a load_plugin_tools[of env m2 c2 "registered m1 pl1 s"] obtain pl2 where
    p2: "load_plugin env m2 (registered m1 pl1 s) = Inr (registered m2 pl2 (registered m1 pl1 s))"
        "map tool_name (plugin_tools pl2) = tool_names c2"
    by blast
  have x1: "x \<in> tool_name ` set (plugin_tools pl1)" using a p1(2) by (metis set_map)
  have x2: "x \<in> tool_name ` set (plugin_tools pl2)" using a p2(2) by (metis set_map)
  show "\<exists>s1 s2 pl1 pl2.
             load_plugin env m1 s = Inr s1 \<and> load_plugin env m2 s1 = Inr s2
             \<and> plugins s2 (manifest_name m1) = Some pl1 \<and> plugins s2 (manifest_name m2) = Some pl2
             \<and> x \<in> tool_name ` set (plugin_tools pl1) \<and> x \<in> tool_name ` set (plugin_tools pl2)
             \<and> load_order s2 = load_order s @ [manifest_name m1, manifest_name m2]"
    by (intro exI[of _ "registered m1 pl1 s"] exI[of _ "registered m2 pl2 (registered m1 pl1 s)"]
              exI[of _ pl1] exI[of _ pl2])
       (use a p1 p2 x1 x2 in \<open>simp add: registered_def\<close>)
qed

subsection \<open>Examples\<close>

lemmas plugin_eval =
  load_plugins_def sort_reverse_def load_plugin_def resolve_plugin_class_def manifest_of_def
  bare_env_def code_env_def plugin_code_def class_with_def tool_member_def UiPlugin_def
  fresh_manager_def new_plugin_manager_def resolved_tool_name_def Let_def

theorem load_plugins_priority_order_witness:
  "load_order (load_plugins bare_env
       [manifest_of ''low'' ''/plugins/low'' UI DEFAULT 10,
        manifest_of ''early'' ''/plugins/early'' UI PRE_INIT 99,
        manifest_of ''high'' ''/plugins/high'' UI DEFAULT 20,
        manifest_of ''mid'' ''/plugins/mid'' UI DEFAULT 10] DEFAULT fresh_manager)
     = [''high'', ''low'', ''mid'']
   \<and> (\<exists>loaded :: PluginManifest list.
        [''high'', ''low'', ''mid''] = map manifest_name loaded
        \<and> sorted_wrt (\<lambda>a b. manifest_priority b \<le> manifest_priority a) loaded)"
proof -
  let ?d = "[manifest_of ''low'' ''/plugins/low'' UI DEFAULT 10,
        manifest_of ''early'' ''/plugins/early'' UI PRE_INIT 99,
        manifest_of ''high'' ''/plugins/high'' UI DEFAULT 20,
        manifest_of ''mid'' ''/plugins/mid'' UI DEFAULT 10]"
  have e: "load_order (load_plugins bare_env ?d DEFAULT fresh_manager) = [''high'', ''low'', ''mid'']"
    by (simp add: plugin_eval)
  have f: "load_order fresh_manager = []" by (simp add: fresh_manager_def new_plugin_manager_def)
  from load_plugins_priority_order[of bare_env ?d DEFAULT fresh_manager]
  obtain loaded :: "PluginManifest list" where
    l: "load_order (load_plugins bare_env ?d DEFAULT fresh_manager)
       = load_order fresh_manager @ map manifest_name loaded"
    "sorted_wrt (\<lambda>a b. manifest_priority b \<le> manifest_priority a) loaded"
    by (elim exE conjE)
  from l(1) e f have n: "[''high'', ''low'', ''mid''] = map manifest_name loaded" by simp
  have "\<exists>loaded :: PluginManifest list.
        [''high'', ''low'', ''mid''] = map manifest_name loaded
        \<and> sorted_wrt (\<lambda>a b. manifest_priority b \<le> manifest_priority a) loaded"
    by (rule exI[of _ loaded]) (rule conjI[OF n l(2)])
  with e show ?thesis by (rule conjI)
qed

theorem load_plugins_phase_idempotent_counterexample:
  "manifest_timing broken = DEFAULT
   \<and> count_list (load_order (load_plugins bare_env [broken] DEFAULT
                   (load_plugins bare_env [broken] DEFAULT fresh_manager))) (manifest_name broken) = 0
   \<and> plugins (load_plugins bare_env [broken] DEFAULT
                   (load_plugins bare_env [broken] DEFAULT fresh_manager)) (manifest_name broken) = None
   \<and> manifest_timing panel_early = PRE_INIT
   \<and> plugins fresh_manager (manifest_name panel_early) = None
   \<and> plugins (load_plugins bare_env [panel_early, panel] DEFAULT fresh_manager)
         (manifest_name panel_early) \<noteq> None"
  by (simp add: plugin_eval broken_def panel_def panel_early_def)

theorem load_plugins_phase_idempotent_witness:
  "panel \<in> set [panel] \<and> manifest_timing panel = DEFAULT \<and> loads bare_env panel
   \<and> manifest_name panel \<notin> dom (plugins fresh_manager)
   \<and> manifest_name panel \<notin> set (load_order fresh_manager)
   \<and> manifest_name panel \<notin> dom (plugins (load_plugins bare_env [panel] PRE_INIT fresh_manager))
   \<and> manifest_name panel \<in> dom (plugins (load_plugins bare_env [panel] DEFAULT fresh_manager))
   \<and> count_list (load_order (load_plugins bare_env [panel] DEFAULT fresh_manager)) (manifest_name panel) = 1
   \<and> count_list (load_order (load_plugins bare_env [panel] DEFAULT
                   (load_plugins bare_env [panel] DEFAULT fresh_manager))) (manifest_name panel) = 1
   \<and> load_plugins bare_env [panel] DEFAULT (load_plugins bare_env [panel] DEFAULT fresh_manager)
       = load_plugins bare_env [panel] DEFAULT fresh_manager
   \<and> plugins (load_plugins code_env [panel_early, panel] AFTER_INIT
                (load_plugins bare_env [panel] DEFAULT fresh_manager)) ''panel''
       = plugins (load_plugins bare_env [panel] DEFAULT fresh_manager) ''panel''"
proof -
  have h: "panel \<in> set [panel]" "manifest_timing panel = DEFAULT" "PRE_INIT \<noteq> DEFAULT"
    "manifest_name panel \<notin> dom (plugins fresh_manager)"
    "manifest_name panel \<notin> set (load_order fresh_manager)"
    "\<forall>m'\<in>set [panel]. manifest_timing m' = PRE_INIT \<longrightarrow> manifest_name m' \<noteq> manifest_name panel"
    by (simp_all add: plugin_eval broken_def panel_def panel_early_def)
  have l: "loads bare_env panel"
    by (simp add: loads_def plugin_eval broken_def panel_def panel_early_def)
  have d: "''panel'' \<in> dom (plugins (load_plugins bare_env [panel] DEFAULT fresh_manager))"
    by (simp add: plugin_eval broken_def panel_def panel_early_def)
  show ?thesis
    using h l d
      load_plugins_phase_idempotent[where m = panel and discovered = "[panel]" and X = DEFAULT
        and Y = PRE_INIT and s = fresh_manager and env = bare_env and n = "''panel''"
        and env' = code_env and discovered' = "[panel_early, panel]" and Z = AFTER_INIT]
      load_plugins_phase_idempotent[where m = panel and discovered = "[panel]" and X = DEFAULT
        and Y = PRE_INIT and s = "load_plugins bare_env [panel] DEFAULT fresh_manager"
        and env = bare_env and n = "''panel''"
        and env' = code_env and discovered' = "[panel_early, panel]" and Z = AFTER_INIT]
    by simp
qed

theorem shutdown_reverse_order_witness:
  "reachable (load_plugins code_env [plugin_c, plugin_a, plugin_b] DEFAULT fresh_manager)
   \<and> load_order (load_plugins code_env [plugin_c, plugin_a, plugin_b] DEFAULT fresh_manager)
       = [''a'', ''b'', ''c'']
   \<and> invoked (shutdown_all (load_plugins code_env [plugin_c, plugin_a, plugin_b] DEFAULT fresh_manager))
       = [''c'', ''b'', ''a'']
   \<and> shutdown_all (load_plugins code_env [plugin_c, plugin_a, plugin_b] DEFAULT fresh_manager)
       = [ShutdownInvoked ''c'', ShutdownInvoked ''b'', ShutdownErrorLogged ''b'' ''boom'',
          ShutdownInvoked ''a'']"
proof -
  let ?s = "load_plugins code_env [plugin_c, plugin_a, plugin_b] DEFAULT fresh_manager"
  have r: "reachable ?s" unfolding fresh_manager_def by (intro reachable.intros)
  have o: "load_order ?s = [''a'', ''b'', ''c'']"
    by (simp add: plugin_eval plugin_a_def plugin_b_def plugin_c_def)
  have t: "shutdown_all ?s = [ShutdownInvoked ''c'', ShutdownInvoked ''b'',
              ShutdownErrorLogged ''b'' ''boom'', ShutdownInvoked ''a'']"
    by (simp add: shutdown_all_def plugin_eval plugin_a_def plugin_b_def plugin_c_def)
  from shutdown_reverse_order[OF r] o have "invoked (shutdown_all ?s) = [''c'', ''b'', ''a'']"
    by simp
  with r o t show ?thesis by simp
qed

theorem duplicate_tool_names_witness:
  "resolve_plugin_class code_env plugin_dup
     = Inr (class_with [tool_member ''first'' (Some ''run''), tool_member ''second'' (Some ''run'')] Returns)
   \<and> \<not> distinct (tool_names (class_with [tool_member ''first'' (Some ''run''),
                                        tool_member ''second'' (Some ''run'')] Returns))
   \<and> (\<exists>msg. load_plugin code_env plugin_dup fresh_manager = Inl (ValueError msg))
   \<and> manifest_name plugin_dup \<notin> dom (plugins (load_plugins code_env [plugin_a, plugin_dup] DEFAULT fresh_manager))
   \<and> manifest_name plugin_dup \<notin> set (load_order (load_plugins code_env [plugin_a, plugin_dup] DEFAULT fresh_manager))
   \<and> ''run'' \<in> set (tool_names (class_with [tool_member ''run'' None] Returns))
   \<and> (\<exists>s1 s2 pl1 pl2.
         load_plugin code_env plugin_a fresh_manager = Inr s1 \<and> load_plugin code_env plugin_c s1 = Inr s2
         \<and> plugins s2 ''a'' = Some pl1 \<and> plugins s2 ''c'' = Some pl2
         \<and> ''run'' \<in> tool_name ` set (plugin_tools pl1) \<and> ''run'' \<in> tool_name ` set (plugin_tools pl2)
         \<and> load_order s2 = [''a'', ''c''])"
proof -
  let ?dup = "class_with [tool_member ''first'' (Some ''run''), tool_member ''second'' (Some ''run'')] Returns"
  let ?one = "class_with [tool_member ''run'' None] Returns"
  have r: "resolve_plugin_class code_env plugin_dup = Inr ?dup"
          "resolve_plugin_class code_env plugin_a = Inr ?one"
          "resolve_plugin_class code_env plugin_c = Inr ?one"
    by (simp_all add: plugin_eval plugin_a_def plugin_c_def plugin_dup_def)
  have t: "\<not> distinct (tool_names ?dup)" "distinct (tool_names ?one)" "''run'' \<in> set (tool_names ?one)"
    by (simp_all add: tool_names_def plugin_eval)
  have h: "class_construct ?dup = Returns" "class_initialize ?dup = Returns"
          "class_construct ?one = Returns" "class_initialize ?one = Returns"
          "manifest_name plugin_dup \<notin> dom (plugins fresh_manager)"
          "manifest_name plugin_dup \<notin> set (load_order fresh_manager)"
          "\<forall>m'\<in>set [plugin_a, plugin_dup]. manifest_name m' = manifest_name plugin_dup \<longrightarrow> m' = plugin_dup"
          "manifest_name plugin_a \<noteq> manifest_name plugin_c"
          "manifest_name plugin_a = ''a''" "manifest_name plugin_c = ''c''"
          "load_order fresh_manager = []"
    by (simp_all add: plugin_eval plugin_a_def plugin_c_def plugin_dup_def)
  show ?thesis
    using r t h
      duplicate_tool_names[where env = code_env and m = plugin_dup and c = ?dup and s = fresh_manager
        and discovered = "[plugin_a, plugin_dup]" and timing = DEFAULT
        and ?m1.0 = plugin_a and ?m2.0 = plugin_c and ?c1.0 = ?one and ?c2.0 = ?one and x = "''run''"]
    by simp
qed

section \<open>Entities and projects in the cache\<close>

subsection \<open>Store rows\<close>

lemma db_set_native:
  assumes "json_native v"
  shows "\<exists>j. db_set c k v db = Inr (db((c, k) \<mapsto> JsonText j)) \<and> of_json j = v \<and> \<not> oversized j"
proof -
  from json_native_roundtrip[OF assms] obtain j where j: "to_json v = Inr j" "of_json j = v" by blast
  have "db_set c k v db = Inr (db((c, k) \<mapsto> JsonText j))" by (rule db_set_encoded[OF j(1)])
  with j(2) to_json_readable[OF j(1)] show ?thesis by blast
qed

lemma db_get_row:
  "\<not> oversized j \<Longrightarrow> db_get c k (db((c, k) \<mapsto> JsonText j)) = Inr (Some (of_json j))"
  by (simp add: db_get_def)

lemma db_get_other_row: "(c', k') \<noteq> (c, k) \<Longrightarrow> db_get c k (db((c', k') \<mapsto> t)) = db_get c k db"
  by (auto simp add: db_get_def)

lemma dict_setitem_nonempty: "dict_setitem k v d \<noteq> []"
  by (cases d) auto

lemma fold_setitem_nonempty:
  "kvs \<noteq> [] \<or> acc \<noteq> [] \<Longrightarrow> fold (\<lambda>kv d. dict_setitem (fst kv) (f (snd kv)) d) kvs acc \<noteq> []"
proof (induction kvs arbitrary: acc)
  case Nil
  then show ?case by simp
next
  case (Cons p ps)
  have "dict_setitem (fst p) (f (snd p)) acc \<noteq> []" by (rule dict_setitem_nonempty)
  then show ?case using Cons.IH[of "dict_setitem (fst p) (f (snd p)) acc"] by simp
qed

lemma encoded_members_length: "encoded_members ps = Inr r \<Longrightarrow> length r = length ps"
proof (induction ps arbitrary: r)
  case Nil
  then show ?case by simp
next
  case (Cons p ps)
  from Cons.prems obtain x r' where "encoded_members ps = Inr r'" "r = (fst p, x) # r'"
    by (auto split: sum.splits)
  with Cons.IH show ?case by simp
qed

lemma dict_truthy_after_roundtrip:
  assumes "to_json (PDict (kv # kvs)) = Inr j"
  shows "truthy (of_json j)"
proof -
  from assms obtain js where
    js: "encoded_members (map (\<lambda>kv. (fst kv, to_json (snd kv))) (kv # kvs)) = Inr js" "j = JObj js"
    by (cases "encoded_members (map (\<lambda>kv. (fst kv, to_json (snd kv))) (kv # kvs))") auto
  from encoded_members_length[OF js(1)] have "js \<noteq> []" by auto
  then have "fold (\<lambda>kv d. dict_setitem (fst kv) (of_json (snd kv)) d) js [] \<noteq> []"
    using fold_setitem_nonempty[of js "[]" of_json] by simp
  then show ?thesis using js(2) by simp
qed

lemma db_set_Inr:
  assumes "db_set c k v db = Inr db'"
  shows "\<exists>j. to_json v = Inr j \<and> db' = db((c, k) \<mapsto> JsonText j)"
  using assms by (cases "to_json v") (auto simp: db_set_def json_dumps_def split: if_splits)

lemma db_set_dict_hit:
  assumes "db_set c k (PDict (kv # kvs)) db = Inr db'"
  shows "\<exists>d. db_get c k db' = Inr (Some d) \<and> hit (Some d) = Some d"
proof -
  from db_set_Inr[OF assms] obtain j where
    j: "to_json (PDict (kv # kvs)) = Inr j" "db' = db((c, k) \<mapsto> JsonText j)" by blast
  from dict_truthy_after_roundtrip[OF j(1)] j(2) show ?thesis
    by (simp add: db_get_row[OF to_json_readable[OF j(1)]])
qed

lemma db_set_other:
  "db_set c' k' v db = Inr db' \<Longrightarrow> (c', k') \<noteq> (c, k) \<Longrightarrow> db' (c, k) = db (c, k)"
  using db_set_Inr[of c' k' v db db'] by auto

subsection \<open>Dumping and validating models\<close>

lemma as_str_dict_dump: "as_str_dict (str_dict_dump d) = Some d"
proof -
  have "those_pairs (map (\<lambda>kv. (fst kv, as_str (snd kv))) (map (\<lambda>kv. (fst kv, PStr (snd kv))) d)) = Some d"
    by (induction d) auto
  then show ?thesis by (simp add: str_dict_dump_def)
qed

lemma opt_str_dump_inv: "as_opt_str (opt_str_dump x) = Some x"
  by (cases x) (simp_all add: opt_str_dump_def)

lemma version_control_roundtrip: "version_control_validate (version_control_dump vc) = Some vc"
  by (cases vc)
     (simp add: version_control_validate_def version_control_dump_def str_field_def
        opt_str_field_def opt_str_dump_inv)

lemma software_roundtrip: "software_validate (software_dump sw) = Some sw"
  by (cases sw) (simp add: software_validate_def software_dump_def str_field_def)

lemma link_roundtrip: "link_validate (link_dump l) = Some l"
  by (cases l) (simp add: link_validate_def link_dump_def str_field_def)

lemma those_map_inverse: "(\<And>x. f (g x) = Some x) \<Longrightarrow> those (map (f \<circ> g) xs) = Some xs"
  by (induction xs) auto

lemma optional_model_dict: "optional_model f (PDict kvs) = map_option Some (f (PDict kvs))"
  by simp

lemma optional_vc: "optional_model version_control_validate
     (case x of None \<Rightarrow> PNone | Some vc \<Rightarrow> version_control_dump vc) = Some x"
proof (cases x)
  case None
  then show ?thesis by simp
next
  case (Some vc)
  obtain kvs where d: "version_control_dump vc = PDict kvs" by (simp add: version_control_dump_def)
  have "optional_model version_control_validate (version_control_dump vc)
          = map_option Some (version_control_validate (version_control_dump vc))"
    unfolding d by (rule optional_model_dict)
  then show ?thesis using Some by (simp add: version_control_roundtrip)
qed

lemma optional_sw: "optional_model software_validate
     (case x of None \<Rightarrow> PNone | Some sw \<Rightarrow> software_dump sw) = Some x"
proof (cases x)
  case None
  then show ?thesis by simp
next
  case (Some sw)
  obtain kvs where d: "software_dump sw = PDict kvs" by (simp add: software_dump_def)
  have "optional_model software_validate (software_dump sw)
          = map_option Some (software_validate (software_dump sw))"
    unfolding d by (rule optional_model_dict)
  then show ?thesis using Some by (simp add: software_roundtrip)
qed

lemma version_roundtrip: "version_validate (version_dump v) = Some v"
  by (cases v)
     (simp add: version_validate_def version_dump_def str_field_def optional_vc optional_sw
        as_str_dict_dump those_map_inverse[of link_validate link_dump, OF link_roundtrip])

lemma entity_roundtrip: "entity_fields (entity_model_dump e) = Some e"
  by (cases e)
     (simp add: entity_fields_def entity_model_dump_def str_field_def opt_str_field_def
        opt_str_dump_inv those_map_inverse[of version_validate version_dump, OF version_roundtrip])

lemma construct_entity_dump: "construct_entity (entity_model_dump e) = Inr e"
  using entity_roundtrip[of e] by (simp add: entity_model_dump_def entity_validate_def)

lemma str_dict_native: "distinct (map fst d) \<Longrightarrow> json_native (str_dict_dump d)"
  by (simp add: str_dict_dump_def comp_def)

lemma opt_str_native: "json_native (opt_str_dump x)"
  by (cases x) (simp_all add: opt_str_dump_def)

lemma version_dump_native: "version_native v \<Longrightarrow> json_native (version_dump v)"
  by (auto simp add: version_dump_def str_dict_native version_control_dump_def software_dump_def
       link_dump_def opt_str_native split: option.split)

lemma entity_dump_native: "entity_native e \<Longrightarrow> json_native (entity_model_dump e)"
  by (simp add: entity_native_def entity_model_dump_def opt_str_native version_dump_native)

subsection \<open>Entities in the cache\<close>

lemma cache_entity_native:
  assumes "get_entity_cache_key lib (entity_uri e) = Inr k" and "entity_native e"
  shows "\<exists>db'. cache_entity lib e m = Inr (m\<lparr>em_db := db'\<rparr>)
           \<and> db_get ENTITIES_CACHE k db' = Inr (Some (entity_model_dump e))"
proof -
  from db_set_native[OF entity_dump_native[OF assms(2)], of ENTITIES_CACHE k "em_db m"]
  obtain j where j: "db_set ENTITIES_CACHE k (entity_model_dump e) (em_db m)
                       = Inr ((em_db m)((ENTITIES_CACHE, k) \<mapsto> JsonText j))"
                    "of_json j = entity_model_dump e" "\<not> oversized j" by blast
  have "cache_entity lib e m = Inr (m\<lparr>em_db := (em_db m)((ENTITIES_CACHE, k) \<mapsto> JsonText j)\<rparr>)"
    using assms(1) j(1) by (simp add: cache_entity_def)
  moreover have "db_get ENTITIES_CACHE k ((em_db m)((ENTITIES_CACHE, k) \<mapsto> JsonText j))
                   = Inr (Some (entity_model_dump e))"
    using j(2) by (simp add: db_get_row[OF j(3)])
  ultimately show ?thesis by blast
qed

lemma add_entity_local:
  assumes "get_entity_cache_key lib (entity_uri e) = Inr k" and "entity_native e"
  shows "fst (add_entity lib e False m) = Inr e"
    and "db_get ENTITIES_CACHE k (em_db (snd (add_entity lib e False m)))
           = Inr (Some (entity_model_dump e))"
    and "em_project_manager (snd (add_entity lib e False m)) = em_project_manager m"
proof -
  from cache_entity_native[OF assms, of m] obtain db' where
    c: "cache_entity lib e m = Inr (m\<lparr>em_db := db'\<rparr>)"
       "db_get ENTITIES_CACHE k db' = Inr (Some (entity_model_dump e))" by blast
  show "fst (add_entity lib e False m) = Inr e" using c(1) by (simp add: add_entity_def)
  show "db_get ENTITIES_CACHE k (em_db (snd (add_entity lib e False m)))
           = Inr (Some (entity_model_dump e))"
    using c by (simp add: add_entity_def)
  show "em_project_manager (snd (add_entity lib e False m)) = em_project_manager m"
    using c(1) by (simp add: add_entity_def)
qed

lemma entity_dump_truthy: "truthy (entity_model_dump e)"
  by (simp add: entity_model_dump_def)

lemma entity_dump_hit: "hit (Some (entity_model_dump e)) = Some (entity_model_dump e)"
  by (simp add: entity_dump_truthy)

lemma get_entity_cached:
  assumes "parse_entity_uri lib u = Inr parsed" and "get_entity_cache_key lib u = Inr k"
      and "db_get ENTITIES_CACHE k (em_db m) = Inr cached" and "hit cached = Some c"
      and "construct_entity c = Inr e"
  shows "requested (uri_version parsed) = None \<Longrightarrow> get_entity lib u m = (Inr (Some e), m)"
    and "requested (uri_version parsed) = Some v \<Longrightarrow>
         filter (\<lambda>x. version_id x = v) (entity_versions e) \<noteq> [] \<Longrightarrow>
         get_entity lib u m
           = (Inr (Some (e\<lparr>entity_versions := filter (\<lambda>x. version_id x = v) (entity_versions e)\<rparr>)), m)"
    and "requested (uri_version parsed) = Some v \<Longrightarrow>
         filter (\<lambda>x. version_id x = v) (entity_versions e) = [] \<Longrightarrow>
         get_entity lib u m = fetch_from_providers lib u (uri_version parsed) m"
  using assms by (simp_all add: get_entity_def Let_def)

text \<open>
  Claim C1, as amended.  \<open>add_entity\<close> writes the entity it is given under the base-URI
  key, replacing the row that was there; it does not merge version lists.  After
  \<open>add_entity\<close> of any entity and then of an entity \<open>e2\<close> with the same base URI (neither
  published), an unscoped \<open>get_entity\<close> returns \<open>e2\<close> with exactly the versions \<open>e2\<close>
  carries, and \<open>get_entity\<close> with a version returns \<open>e2\<close> restricted to its versions of that
  id when it has one, and turns to the providers when it has none.  So both versions
  are returned only when the entity added last carries both.
\<close>

theorem add_entity_replaces_versions:
  assumes "get_entity_cache_key lib (entity_uri e2) = Inr k"
      and "entity_native e2"
      and "parse_entity_uri lib u = Inr parsed"
      and "get_entity_cache_key lib u = Inr k"
      and "m2 = snd (add_entity lib e2 False (snd (add_entity lib e1 False m)))"
  shows "fst (add_entity lib e2 False (snd (add_entity lib e1 False m))) = Inr e2
         \<and> (requested (uri_version parsed) = None \<longrightarrow> get_entity lib u m2 = (Inr (Some e2), m2))
         \<and> (\<forall>v. requested (uri_version parsed) = Some v
                 \<and> filter (\<lambda>x. version_id x = v) (entity_versions e2) \<noteq> []
              \<longrightarrow> get_entity lib u m2
                    = (Inr (Some (e2\<lparr>entity_versions :=
                                       filter (\<lambda>x. version_id x = v) (entity_versions e2)\<rparr>)), m2))
         \<and> (\<forall>v. requested (uri_version parsed) = Some v
                 \<and> filter (\<lambda>x. version_id x = v) (entity_versions e2) = []
              \<longrightarrow> get_entity lib u m2 = fetch_from_providers lib u (uri_version parsed) m2)"
proof -
  let ?m1 = "snd (add_entity lib e1 False m)"
  note add = add_entity_local[OF assms(1,2), of ?m1]
  have "db_get ENTITIES_CACHE k (em_db m2) = Inr (Some (entity_model_dump e2))"
    using add(2) assms(5) by simp
  note cached = get_entity_cached[OF assms(3,4) this entity_dump_hit construct_entity_dump]
  show ?thesis using add(1) cached by blast
qed

lemmas uri_eval =
  parse_entity_uri_def get_entity_cache_key_def plain_urllib_def plain_urlparse_def
  plain_parse_qs_def before_def after_def lstrip_slash_def split_slash_once_def add_value_def
  hero_uri_def Let_def

lemma hero_key: "get_entity_cache_key plain_urllib (entity_uri (hero ids)) = Inr hero_uri"
  by (simp add: hero_def uri_eval)

lemma hero_native: "entity_native (hero ids)"
  by (auto simp add: hero_def entity_native_def plain_version_def)

lemma hero_parse_plain:
  "parse_entity_uri plain_urllib hero_uri
     = Inr \<lparr>uri_project = ''projectA'', uri_entity_type = ''asset'',
            uri_path = ''characters/hero'', uri_version = None\<rparr>"
  by (simp add: uri_eval)

lemma hero_parse_v1:
  "parse_entity_uri plain_urllib (hero_uri @ ''?version=v1'')
     = Inr \<lparr>uri_project = ''projectA'', uri_entity_type = ''asset'',
            uri_path = ''characters/hero'', uri_version = Some ''v1''\<rparr>"
  by (simp add: uri_eval)

lemma hero_key_plain: "get_entity_cache_key plain_urllib hero_uri = Inr hero_uri"
  by (simp add: get_entity_cache_key_def hero_parse_plain) (simp add: hero_uri_def)

lemma hero_key_v1: "get_entity_cache_key plain_urllib (hero_uri @ ''?version=v1'') = Inr hero_uri"
  by (simp add: get_entity_cache_key_def hero_parse_v1) (simp add: hero_uri_def)

theorem add_entity_replaces_versions_counterexample:
  "get_entity_cache_key plain_urllib (entity_uri (hero [''v1'']))
     = get_entity_cache_key plain_urllib (entity_uri (hero [''v2'']))
   \<and> fst (add_entity plain_urllib (hero [''v1'']) False local_entities) = Inr (hero [''v1''])
   \<and> fst (add_entity plain_urllib (hero [''v2'']) False
            (snd (add_entity plain_urllib (hero [''v1'']) False local_entities))) = Inr (hero [''v2''])
   \<and> fst (get_entity plain_urllib hero_uri
            (snd (add_entity plain_urllib (hero [''v2'']) False
               (snd (add_entity plain_urllib (hero [''v1'']) False local_entities)))))
       = Inr (Some (hero [''v2'']))
   \<and> map version_id (entity_versions (hero [''v2''])) = [''v2'']
   \<and> fst (get_entity plain_urllib (hero_uri @ ''?version=v1'')
            (snd (add_entity plain_urllib (hero [''v2'']) False
               (snd (add_entity plain_urllib (hero [''v1'']) False local_entities)))))
       = Inr None"
proof -
  let ?m1 = "snd (add_entity plain_urllib (hero [''v1'']) False local_entities)"
  let ?m2 = "snd (add_entity plain_urllib (hero [''v2'']) False ?m1)"
  note a1 = add_entity_local[OF hero_key hero_native, of "[''v1'']" local_entities]
  note a2 = add_entity_local[OF hero_key hero_native, of "[''v2'']" ?m1]
  have h: "db_get ENTITIES_CACHE hero_uri (em_db ?m2) = Inr (Some (entity_model_dump (hero [''v2''])))"
    using a2(2) by simp
  have pm: "em_project_manager ?m2 = None"
    using a1(3) a2(3) by (simp add: local_entities_def)
  have g1: "get_entity plain_urllib hero_uri ?m2 = (Inr (Some (hero [''v2''])), ?m2)"
    by (rule get_entity_cached(1)[OF hero_parse_plain hero_key_plain h entity_dump_hit
          construct_entity_dump]) simp
  have g2: "get_entity plain_urllib (hero_uri @ ''?version=v1'') ?m2
              = fetch_from_providers plain_urllib (hero_uri @ ''?version=v1'') (Some ''v1'') ?m2"
    using get_entity_cached(3)[OF hero_parse_v1 hero_key_v1 h entity_dump_hit construct_entity_dump,
            of "''v1''"]
    by (simp add: hero_def plain_version_def)
  have g3: "fetch_from_providers plain_urllib (hero_uri @ ''?version=v1'') (Some ''v1'') ?m2 = (Inr None, ?m2)"
    using pm by (simp add: fetch_from_providers_def em_provider_def)
  show ?thesis
    using a1(1) a2(1) g1 g2 g3 by (simp add: hero_key) (simp add: hero_def plain_version_def)
qed

theorem add_entity_replaces_versions_witness:
  "get_entity_cache_key plain_urllib (entity_uri (hero [''v1'', ''v2''])) = Inr hero_uri
   \<and> entity_native (hero [''v1'', ''v2''])
   \<and> fst (get_entity plain_urllib hero_uri
            (snd (add_entity plain_urllib (hero [''v1'', ''v2'']) False
               (snd (add_entity plain_urllib (hero [''v1'']) False local_entities)))))
       = Inr (Some (hero [''v1'', ''v2'']))
   \<and> fst (get_entity plain_urllib (hero_uri @ ''?version=v1'')
            (snd (add_entity plain_urllib (hero [''v1'', ''v2'']) False
               (snd (add_entity plain_urllib (hero [''v1'']) False local_entities)))))
       = Inr (Some (hero [''v1'']))"
proof -
  let ?m2 = "snd (add_entity plain_urllib (hero [''v1'', ''v2'']) False
               (snd (add_entity plain_urllib (hero [''v1'']) False local_entities)))"
  have f: "filter (\<lambda>x. version_id x = ''v1'') (entity_versions (hero [''v1'', ''v2''])) = [plain_version ''v1'']"
    by (simp add: hero_def plain_version_def)
  from add_entity_replaces_versions[OF hero_key hero_native hero_parse_plain hero_key_plain refl,
      of "[''v1'', ''v2'']" "hero [''v1'']" local_entities]
  have g1: "get_entity plain_urllib hero_uri ?m2 = (Inr (Some (hero [''v1'', ''v2''])), ?m2)" by simp
  from add_entity_replaces_versions[OF hero_key hero_native hero_parse_v1 hero_key_v1 refl,
      of "[''v1'', ''v2'']" "hero [''v1'']" local_entities] f
  have g2: "get_entity plain_urllib (hero_uri @ ''?version=v1'') ?m2
     = (Inr (Some (hero [''v1'', ''v2'']\<lparr>entity_versions := [plain_version ''v1'']\<rparr>)), ?m2)" by simp
  have "hero [''v1'', ''v2'']\<lparr>entity_versions := [plain_version ''v1'']\<rparr> = hero [''v1'']"
    by (simp add: hero_def)
  with g1 g2 show ?thesis by (simp add: hero_key hero_native)
qed

subsection \<open>Reads that hit the cache\<close>

lemma get_project_hit:
  "db_get PROJECTS_CACHE name (pm_db pm) = Inr cached \<Longrightarrow> hit cached = Some c \<Longrightarrow>
   get_project lib name pm = (map_sum id Some (construct_project c), pm)"
  by (simp add: get_project_def Let_def)

lemma cache_entities_other:
  "c \<noteq> ENTITIES_CACHE \<Longrightarrow> snd (cache_entities lib es db) (c, k) = db (c, k)"
proof (induction es arbitrary: db)
  case Nil
  then show ?case by simp
next
  case (Cons e es)
  show ?case
  proof (cases "get_entity_cache_key lib (entity_uri e)")
    case (Inl err)
    then show ?thesis by simp
  next
    case (Inr base_uri)
    show ?thesis
    proof (cases "db_set ENTITIES_CACHE base_uri (entity_model_dump e) db")
      case (Inl err)
      then show ?thesis using Inr by simp
    next
      case (Inr db')
      from db_set_other[OF Inr, of c k] Cons.prems have "db' (c, k) = db (c, k)" by simp
      with Cons.IH[OF Cons.prems, of db'] Inr \<open>get_entity_cache_key lib (entity_uri e) = Inr base_uri\<close>
      show ?thesis by simp
    qed
  qed
qed

lemma db_get_cong: "db' (c, k) = db (c, k) \<Longrightarrow> db_get c k db' = db_get c k db"
  by (simp add: db_get_def)

lemma project_dump_dict: "\<exists>kv kvs. project_model_dump p = PDict (kv # kvs)"
  by (simp add: project_model_dump_def)

lemma entity_dump_dict: "\<exists>kv kvs. entity_model_dump e = PDict (kv # kvs)"
  by (simp add: entity_model_dump_def)

lemma get_project_miss:
  assumes "db_get PROJECTS_CACHE name (pm_db pm) = Inr cached" and "hit cached = None"
      and "pm_provider pm = Some p"
      and "provider_fetch_project p (pm_calls pm) name = Some pr"
  shows "get_project lib name pm =
     (case cache_project pr (pm_call_made (FetchProjectCall name) pm) of
        Inl e \<Rightarrow> (Inl e, pm_call_made (FetchProjectCall name) pm)
      | Inr m2 \<Rightarrow>
          (case provider_prefetch_entities p (pm_calls m2) name of
             Inl e \<Rightarrow> (Inr (Some pr), pm_call_made (PrefetchEntitiesCall name) m2)
           | Inr es \<Rightarrow>
               (Inr (Some pr),
                (pm_call_made (PrefetchEntitiesCall name) m2)
                  \<lparr>pm_db := snd (cache_entities lib es
                                   (pm_db (pm_call_made (PrefetchEntitiesCall name) m2)))\<rparr>)))"
  unfolding get_project_def Let_def using assms by simp

lemma get_project_populates:
  assumes row: "db_get PROJECTS_CACHE name (pm_db pm) = Inr cached"
      and miss: "hit cached = None"
      and prov: "pm_provider pm = Some p"
      and fetch: "provider_fetch_project p (pm_calls pm) name = Some pr"
      and key: "project_name pr = name"
      and ok: "fst (get_project lib name pm) = Inr (Some pr)"
  shows "\<exists>d. db_get PROJECTS_CACHE name (pm_db (snd (get_project lib name pm))) = Inr (Some d)
             \<and> hit (Some d) = Some d"
proof -
  let ?m1 = "pm_call_made (FetchProjectCall name) pm"
  note unfold = get_project_miss[OF row miss prov fetch, of lib]
  show ?thesis
  proof (cases "cache_project pr ?m1")
    case (Inl e)
    with unfold ok show ?thesis by simp
  next
    case (Inr m2)
    note c = this
    have "\<exists>db'. db_set PROJECTS_CACHE name (project_model_dump pr) (pm_db ?m1) = Inr db'
                \<and> m2 = ?m1\<lparr>pm_db := db'\<rparr>"
    proof (cases "db_set PROJECTS_CACHE name (project_model_dump pr) (pm_db ?m1)")
      case (Inl e)
      with c key show ?thesis by (simp add: cache_project_def)
    next
      case (Inr db')
      with c key show ?thesis by (simp add: cache_project_def)
    qed
    then obtain db' where
      s: "db_set PROJECTS_CACHE name (project_model_dump pr) (pm_db ?m1) = Inr db'"
         "m2 = ?m1\<lparr>pm_db := db'\<rparr>" by blast
    from project_dump_dict obtain kv kvs where dd: "project_model_dump pr = PDict (kv # kvs)" by blast
    from db_set_dict_hit[OF s(1)[unfolded dd]]
    obtain d where d: "db_get PROJECTS_CACHE name db' = Inr (Some d)" "hit (Some d) = Some d" by blast
    have ne: "PROJECTS_CACHE \<noteq> ENTITIES_CACHE" by (simp add: PROJECTS_CACHE_def ENTITIES_CACHE_def)
    let ?m3 = "pm_call_made (PrefetchEntitiesCall name) m2"
    have db3: "pm_db ?m3 = db'" using s(2) by (simp add: pm_call_made_def)
    show ?thesis
    proof (cases "provider_prefetch_entities p (pm_calls m2) name")
      case (Inl e)
      then have "snd (get_project lib name pm) = ?m3" using unfold c by simp
      with d db3 show ?thesis by simp
    next
      case (Inr es)
      then have st: "snd (get_project lib name pm) = ?m3\<lparr>pm_db := snd (cache_entities lib es (pm_db ?m3))\<rparr>"
        using unfold c by simp
      have "snd (cache_entities lib es (pm_db ?m3)) (PROJECTS_CACHE, name)
                       = db' (PROJECTS_CACHE, name)"
        using cache_entities_other[OF ne, of lib es "pm_db ?m3" name] db3 by simp
      then have "db_get PROJECTS_CACHE name (snd (cache_entities lib es (pm_db ?m3)))
                       = db_get PROJECTS_CACHE name db'"
        by (rule db_get_cong)
      with st d show ?thesis by simp
    qed
  qed
qed

lemma get_secret_populates:
  assumes row: "db_get SECRETS_CACHE (make_cache_key k scope project) (sm_db sm) = Inr cached"
      and miss: "hit cached = None"
      and prov: "sm_provider sm = Some p"
      and fetch: "provider_get_secret p (sm_calls sm) k scope project = Some s"
      and key: "make_cache_key (secret_key s) (secret_scope s) (secret_project s)
                  = make_cache_key k scope project"
  shows "fst (get_secret environ k scope project sm) = Inr (PStr (secret_value s))"
    and "db_get SECRETS_CACHE (make_cache_key k scope project)
               (sm_db (snd (get_secret environ k scope project sm))) = Inr (Some (secret_doc s))"
proof -
  let ?m1 = "sm\<lparr>sm_calls := sm_calls sm @ [GetSecretCall k scope project]\<rparr>"
  from cache_secret_ok[of s ?m1] key obtain db' where
    c: "cache_secret s ?m1 = Inr (?m1\<lparr>sm_db := db'\<rparr>)"
       "db_get SECRETS_CACHE (make_cache_key k scope project) db' = Inr (Some (secret_doc s))"
    by auto
  show "fst (get_secret environ k scope project sm) = Inr (PStr (secret_value s))"
    using row miss prov fetch c(1) by (simp add: get_secret_def Let_def)
  show "db_get SECRETS_CACHE (make_cache_key k scope project)
               (sm_db (snd (get_secret environ k scope project sm))) = Inr (Some (secret_doc s))"
    using row miss prov fetch c by (simp add: get_secret_def Let_def)
qed

lemma get_entity_populates:
  assumes parse: "parse_entity_uri lib uri = Inr parsed"
      and key: "get_entity_cache_key lib uri = Inr base_uri"
      and unscoped: "requested (uri_version parsed) = None"
      and row: "db_get ENTITIES_CACHE base_uri (em_db em) = Inr cached"
      and miss: "hit cached = None"
      and prov: "em_provider em = Some p"
      and fetch: "provider_get_entity p (em_calls em) uri = Some ent"
      and same: "get_entity_cache_key lib (entity_uri ent) = Inr base_uri"
      and ok: "fst (get_entity lib uri em) = Inr (Some ent)"
  shows "\<exists>d. db_get ENTITIES_CACHE base_uri (em_db (snd (get_entity lib uri em))) = Inr (Some d)
             \<and> hit (Some d) = Some d"
proof -
  let ?m1 = "em_call_made (GetEntityCall uri) em"
  have g: "get_entity lib uri em = fetch_from_providers lib uri None em"
    using parse key row miss by (simp add: get_entity_def Let_def)
  have f: "fetch_from_providers lib uri None em
             = (case cache_entity lib ent ?m1 of Inl e \<Rightarrow> (Inl e, ?m1) | Inr m2 \<Rightarrow> (Inr (Some ent), m2))"
    using prov fetch by (simp add: fetch_from_providers_def Let_def)
  obtain m2 where c: "cache_entity lib ent ?m1 = Inr m2"
    using ok g f by (cases "cache_entity lib ent ?m1") simp_all
  then obtain db' where
    s: "db_set ENTITIES_CACHE base_uri (entity_model_dump ent) (em_db ?m1) = Inr db'"
       "m2 = ?m1\<lparr>em_db := db'\<rparr>"
    using same by (auto simp: cache_entity_def split: sum.splits)
  from entity_dump_dict obtain kv kvs where dd: "entity_model_dump ent = PDict (kv # kvs)" by blast
  from db_set_dict_hit[OF s(1)[unfolded dd]]
  obtain d where d: "db_get ENTITIES_CACHE base_uri db' = Inr (Some d)" "hit (Some d) = Some d" by blast
  have "snd (get_entity lib uri em) = m2" using g f c by simp
  with d s(2) show ?thesis by simp
qed

lemma get_entity_unscoped_hit:
  assumes "parse_entity_uri lib uri = Inr parsed" and "get_entity_cache_key lib uri = Inr base_uri"
      and "requested (uri_version parsed) = None"
      and "db_get ENTITIES_CACHE base_uri (em_db em) = Inr cached" and "hit cached = Some c"
  shows "snd (get_entity lib uri em) = em"
  using assms by (simp add: get_entity_def Let_def split: sum.split)

text \<open>
  Claim C4, as amended.  A read that finds a truthy document under its cache key
  returns what that document holds and leaves the manager, and with it the history of
  provider calls, unchanged: for projects and secrets always, for entities when the
  read is unscoped or asks for a version the cached entity has.  (A version-scoped read
  of a version the cached entity lacks does call the provider, by design.)  And after a
  read that missed, got an answer from the provider and cached it under the key that
  was asked for, a repeated read makes no further provider call.
\<close>

theorem cache_hit_skips_provider:
  "(db_get PROJECTS_CACHE name (pm_db pm) = Inr cached \<and> hit cached = Some c
      \<longrightarrow> get_project lib name pm = (map_sum id Some (construct_project c), pm))
   \<and> (db_get SECRETS_CACHE (make_cache_key k scope project) (sm_db sm) = Inr cached
       \<and> hit cached = Some c
      \<longrightarrow> get_secret environ k scope project sm = (py_get c ''value'', sm))
   \<and> (parse_entity_uri lib uri = Inr parsed \<and> get_entity_cache_key lib uri = Inr base_uri
       \<and> db_get ENTITIES_CACHE base_uri (em_db em) = Inr cached \<and> hit cached = Some c
       \<and> construct_entity c = Inr e
      \<longrightarrow> (requested (uri_version parsed) = None \<longrightarrow> get_entity lib uri em = (Inr (Some e), em))
          \<and> (\<forall>v. requested (uri_version parsed) = Some v
                  \<and> filter (\<lambda>x. version_id x = v) (entity_versions e) \<noteq> []
               \<longrightarrow> get_entity lib uri em
                     = (Inr (Some (e\<lparr>entity_versions :=
                                       filter (\<lambda>x. version_id x = v) (entity_versions e)\<rparr>)), em)))
   \<and> (db_get PROJECTS_CACHE name (pm_db pm) = Inr cached \<and> hit cached = None
       \<and> pm_provider pm = Some pp
       \<and> provider_fetch_project pp (pm_calls pm) name = Some pr \<and> project_name pr = name
       \<and> fst (get_project lib name pm) = Inr (Some pr)
      \<longrightarrow> snd (get_project lib name (snd (get_project lib name pm))) = snd (get_project lib name pm))
   \<and> (db_get SECRETS_CACHE (make_cache_key k scope project) (sm_db sm) = Inr cached
       \<and> hit cached = None
       \<and> sm_provider sm = Some sp
       \<and> provider_get_secret sp (sm_calls sm) k scope project = Some s
       \<and> make_cache_key (secret_key s) (secret_scope s) (secret_project s) = make_cache_key k scope project
      \<longrightarrow> fst (get_secret environ k scope project sm) = Inr (PStr (secret_value s))
          \<and> get_secret environ k scope project (snd (get_secret environ k scope project sm))
              = (Inr (PStr (secret_value s)), snd (get_secret environ k scope project sm)))
   \<and> (parse_entity_uri lib uri = Inr parsed \<and> get_entity_cache_key lib uri = Inr base_uri
       \<and> requested (uri_version parsed) = None
       \<and> db_get ENTITIES_CACHE base_uri (em_db em) = Inr cached \<and> hit cached = None
       \<and> em_provider em = Some pp
       \<and> provider_get_entity pp (em_calls em) uri = Some ent
       \<and> get_entity_cache_key lib (entity_uri ent) = Inr base_uri
       \<and> fst (get_entity lib uri em) = Inr (Some ent)
      \<longrightarrow> snd (get_entity lib uri (snd (get_entity lib uri em))) = snd (get_entity lib uri em))"
proof (intro conjI impI allI)
  assume "db_get PROJECTS_CACHE name (pm_db pm) = Inr cached \<and> hit cached = Some c"
  then show "get_project lib name pm = (map_sum id Some (construct_project c), pm)"
    using get_project_hit by blast
next
  assume "db_get SECRETS_CACHE (make_cache_key k scope project) (sm_db sm) = Inr cached
       \<and> hit cached = Some c"
  then show "get_secret environ k scope project sm = (py_get c ''value'', sm)"
    using get_secret_hit by blast
next
  assume a: "parse_entity_uri lib uri = Inr parsed \<and> get_entity_cache_key lib uri = Inr base_uri
       \<and> db_get ENTITIES_CACHE base_uri (em_db em) = Inr cached \<and> hit cached = Some c
       \<and> construct_entity c = Inr e"
  assume "requested (uri_version parsed) = None"
  with a show "get_entity lib uri em = (Inr (Some e), em)"
    using get_entity_cached(1) by blast
next
  fix v
  assume a: "parse_entity_uri lib uri = Inr parsed \<and> get_entity_cache_key lib uri = Inr base_uri
       \<and> db_get ENTITIES_CACHE base_uri (em_db em) = Inr cached \<and> hit cached = Some c
       \<and> construct_entity c = Inr e"
  assume "requested (uri_version parsed) = Some v
                  \<and> filter (\<lambda>x. version_id x = v) (entity_versions e) \<noteq> []"
  with a show "get_entity lib uri em
                     = (Inr (Some (e\<lparr>entity_versions :=
                                       filter (\<lambda>x. version_id x = v) (entity_versions e)\<rparr>)), em)"
    using get_entity_cached(2) by blast
next
  assume a: "db_get PROJECTS_CACHE name (pm_db pm) = Inr cached \<and> hit cached = None
       \<and> pm_provider pm = Some pp
       \<and> provider_fetch_project pp (pm_calls pm) name = Some pr \<and> project_name pr = name
       \<and> fst (get_project lib name pm) = Inr (Some pr)"
  then obtain d where
    "db_get PROJECTS_CACHE name (pm_db (snd (get_project lib name pm))) = Inr (Some d)"
    "hit (Some d) = Some d"
    using get_project_populates by blast
  from get_project_hit[OF this]
  show "snd (get_project lib name (snd (get_project lib name pm))) = snd (get_project lib name pm)"
    by simp
next
  assume a: "db_get SECRETS_CACHE (make_cache_key k scope project) (sm_db sm) = Inr cached
       \<and> hit cached = None
       \<and> sm_provider sm = Some sp
       \<and> provider_get_secret sp (sm_calls sm) k scope project = Some s
       \<and> make_cache_key (secret_key s) (secret_scope s) (secret_project s) = make_cache_key k scope project"
  then show "fst (get_secret environ k scope project sm) = Inr (PStr (secret_value s))"
    using get_secret_populates(1) by blast
  from a have row: "db_get SECRETS_CACHE (make_cache_key k scope project)
               (sm_db (snd (get_secret environ k scope project sm))) = Inr (Some (secret_doc s))"
    using get_secret_populates(2) by blast
  have "hit (Some (secret_doc s)) = Some (secret_doc s)" by (simp add: secret_doc_truthy)
  from get_secret_hit[OF row this]
  show "get_secret environ k scope project (snd (get_secret environ k scope project sm))
              = (Inr (PStr (secret_value s)), snd (get_secret environ k scope project sm))"
    by (simp add: secret_doc_value)
next
  assume a: "parse_entity_uri lib uri = Inr parsed \<and> get_entity_cache_key lib uri = Inr base_uri
       \<and> requested (uri_version parsed) = None
       \<and> db_get ENTITIES_CACHE base_uri (em_db em) = Inr cached \<and> hit cached = None
       \<and> em_provider em = Some pp
       \<and> provider_get_entity pp (em_calls em) uri = Some ent
       \<and> get_entity_cache_key lib (entity_uri ent) = Inr base_uri
       \<and> fst (get_entity lib uri em) = Inr (Some ent)"
  then obtain d where
    "db_get ENTITIES_CACHE base_uri (em_db (snd (get_entity lib uri em))) = Inr (Some d)"
    "hit (Some d) = Some d"
    using get_entity_populates by blast
  with a get_entity_unscoped_hit
  show "snd (get_entity lib uri (snd (get_entity lib uri em))) = snd (get_entity lib uri em)"
    by blast
qed

lemma project_roundtrip: "project_fields (project_model_dump p) = Some p"
  by (cases p)
     (simp add: project_fields_def project_model_dump_def str_field_def opt_str_field_def
        opt_str_dump_inv)

lemma construct_project_dump: "construct_project (project_model_dump p) = Inr p"
  using project_roundtrip[of p] by (simp add: project_model_dump_def project_validate_def)

lemma hero_parse_v2:
  "parse_entity_uri plain_urllib (hero_uri @ ''?version=v2'')
     = Inr \<lparr>uri_project = ''projectA'', uri_entity_type = ''asset'',
            uri_path = ''characters/hero'', uri_version = Some ''v2''\<rparr>"
  by (simp add: uri_eval)

lemma hero_key_v2: "get_entity_cache_key plain_urllib (hero_uri @ ''?version=v2'') = Inr hero_uri"
  by (simp add: get_entity_cache_key_def hero_parse_v2) (simp add: hero_uri_def)

theorem cache_hit_skips_provider_counterexample:
  "db_get ENTITIES_CACHE hero_uri
          (em_db (snd (add_entity plain_urllib (hero [''v1'']) False studio_entities)))
     = Inr (Some (entity_model_dump (hero [''v1''])))
   \<and> truthy (entity_model_dump (hero [''v1'']))
   \<and> get_entity_cache_key plain_urllib (hero_uri @ ''?version=v2'') = Inr hero_uri
   \<and> em_calls (snd (add_entity plain_urllib (hero [''v1'']) False studio_entities)) = []
   \<and> em_calls (snd (get_entity plain_urllib (hero_uri @ ''?version=v2'')
                       (snd (add_entity plain_urllib (hero [''v1'']) False studio_entities))))
       = [GetVersionCall (hero_uri @ ''?version=v2'') ''v2'']"
proof -
  let ?m1 = "snd (add_entity plain_urllib (hero [''v1'']) False studio_entities)"
  note a = add_entity_local[OF hero_key hero_native, of "[''v1'']" studio_entities]
  have h: "db_get ENTITIES_CACHE hero_uri (em_db ?m1) = Inr (Some (entity_model_dump (hero [''v1''])))"
    using a(2) by simp
  have pm: "em_project_manager ?m1 = Some studio_projects"
    using a(3) by (simp add: studio_entities_def)
  have c0: "em_calls ?m1 = []" using pm by (simp add: em_calls_def studio_projects_def)
  have g: "get_entity plain_urllib (hero_uri @ ''?version=v2'') ?m1
              = fetch_from_providers plain_urllib (hero_uri @ ''?version=v2'') (Some ''v2'') ?m1"
    using get_entity_cached(3)[OF hero_parse_v2 hero_key_v2 h entity_dump_hit construct_entity_dump,
            of "''v2''"]
    by (simp add: hero_def plain_version_def)
  have f: "em_calls (snd (fetch_from_providers plain_urllib (hero_uri @ ''?version=v2'') (Some ''v2'') ?m1))
             = [GetVersionCall (hero_uri @ ''?version=v2'') ''v2'']"
    using pm
    by (simp add: fetch_from_providers_def em_provider_def em_calls_def em_call_made_def
          pm_call_made_def studio_projects_def studio_def Let_def)
  show ?thesis using h hero_key_v2 c0 g f by (simp add: entity_dump_truthy)
qed

lemma demo_fetch_first:
  "fst (get_project plain_urllib ''demo'' studio_projects) = Inr (Some demo_project)"
proof -
  have row: "db_get PROJECTS_CACHE ''demo'' (pm_db studio_projects) = Inr None"
    by (simp add: studio_projects_def empty_store_def db_get_def)
  have miss: "hit None = None" by simp
  have prov: "pm_provider studio_projects = Some studio" by (simp add: studio_projects_def)
  have fetch: "provider_fetch_project studio (pm_calls studio_projects) ''demo'' = Some demo_project"
    by (simp add: studio_def)
  have "json_native (project_model_dump demo_project)"
    by (simp add: project_model_dump_def demo_project_def opt_str_dump_def)
  from db_set_native[OF this] obtain j where
    "db_set PROJECTS_CACHE ''demo'' (project_model_dump demo_project)
        (pm_db (pm_call_made (FetchProjectCall ''demo'') studio_projects))
      = Inr ((pm_db (pm_call_made (FetchProjectCall ''demo'') studio_projects))
               ((PROJECTS_CACHE, ''demo'') \<mapsto> JsonText j))" by blast
  then have "\<exists>m2. cache_project demo_project (pm_call_made (FetchProjectCall ''demo'') studio_projects) = Inr m2"
    by (simp add: cache_project_def demo_project_def)
  then obtain m2 where "cache_project demo_project (pm_call_made (FetchProjectCall ''demo'') studio_projects) = Inr m2"
    by blast
  then show ?thesis
    unfolding get_project_miss[OF row miss prov fetch] by (simp split: sum.split)
qed

theorem cache_hit_skips_provider_witness:
  "fst (get_project plain_urllib ''demo'' studio_projects) = Inr (Some demo_project)
   \<and> snd (get_project plain_urllib ''demo'' (snd (get_project plain_urllib ''demo'' studio_projects)))
       = snd (get_project plain_urllib ''demo'' studio_projects)
   \<and> get_project plain_urllib ''demo'' (projr (cache_project demo_project local_projects))
       = (Inr (Some demo_project), projr (cache_project demo_project local_projects))
   \<and> fst (get_secret home_environ ''TOKEN'' USER None vault_secrets) = Inr (PStr ''t0p'')
   \<and> get_secret home_environ ''TOKEN'' USER None
         (snd (get_secret home_environ ''TOKEN'' USER None vault_secrets))
       = (Inr (PStr ''t0p''), snd (get_secret home_environ ''TOKEN'' USER None vault_secrets))
   \<and> fst (get_entity plain_urllib hero_uri studio_entities) = Inr (Some (hero [''v1'', ''v2'']))
   \<and> snd (get_entity plain_urllib hero_uri (snd (get_entity plain_urllib hero_uri studio_entities)))
       = snd (get_entity plain_urllib hero_uri studio_entities)
   \<and> get_entity plain_urllib (hero_uri @ ''?version=v2'')
         (snd (add_entity plain_urllib (hero [''v1'', ''v2'']) False studio_entities))
       = (Inr (Some (hero [''v2''])), snd (add_entity plain_urllib (hero [''v1'', ''v2'']) False studio_entities))"
proof -
  note main = cache_hit_skips_provider
  \<comment> \<open>project: a read that populates the cache, then a repeated read\<close>
  have p_miss: "db_get PROJECTS_CACHE ''demo'' (pm_db studio_projects) = Inr None"
    by (simp add: studio_projects_def empty_store_def db_get_def)
  have p_prov: "pm_provider studio_projects = Some studio" by (simp add: studio_projects_def)
  have p_fetch: "provider_fetch_project studio (pm_calls studio_projects) ''demo'' = Some demo_project"
    by (simp add: studio_def)
  have p_name: "project_name demo_project = ''demo''" by (simp add: demo_project_def)
  have p2: "snd (get_project plain_urllib ''demo'' (snd (get_project plain_urllib ''demo'' studio_projects)))
       = snd (get_project plain_urllib ''demo'' studio_projects)"
    using main[where name = "''demo''" and pm = studio_projects and lib = plain_urllib
                and pp = studio and pr = demo_project and cached = None]
          p_miss p_prov p_fetch p_name demo_fetch_first by simp
  \<comment> \<open>project: a read that hits\<close>
  let ?P = "projr (cache_project demo_project local_projects)"
  have "json_native (project_model_dump demo_project)"
    by (simp add: project_model_dump_def demo_project_def opt_str_dump_def)
  from db_set_native[OF this, of PROJECTS_CACHE "''demo''" "pm_db local_projects"] obtain j where
    j: "db_set PROJECTS_CACHE ''demo'' (project_model_dump demo_project) (pm_db local_projects)
          = Inr ((pm_db local_projects)((PROJECTS_CACHE, ''demo'') \<mapsto> JsonText j))"
       "of_json j = project_model_dump demo_project" "\<not> oversized j" by blast
  have "cache_project demo_project local_projects
          = Inr (local_projects\<lparr>pm_db := (pm_db local_projects)((PROJECTS_CACHE, ''demo'') \<mapsto> JsonText j)\<rparr>)"
    using j(1) p_name by (simp add: cache_project_def)
  then have p_row: "db_get PROJECTS_CACHE ''demo'' (pm_db ?P) = Inr (Some (project_model_dump demo_project))"
    using j(2) by (simp add: db_get_row[OF j(3)])
  have p_hit: "hit (Some (project_model_dump demo_project)) = Some (project_model_dump demo_project)"
    by (simp add: project_model_dump_def)
  have p3: "get_project plain_urllib ''demo'' ?P = (Inr (Some demo_project), ?P)"
    using main[where name = "''demo''" and pm = ?P and lib = plain_urllib
                and c = "project_model_dump demo_project"
                and cached = "Some (project_model_dump demo_project)"] p_row p_hit
    by (simp add: construct_project_dump)
  \<comment> \<open>secret\<close>
  have s_miss: "db_get SECRETS_CACHE (make_cache_key ''TOKEN'' USER None) (sm_db vault_secrets) = Inr None"
    by (simp add: vault_secrets_def empty_store_def db_get_def)
  have s_prov: "sm_provider vault_secrets = Some vault" by (simp add: vault_secrets_def)
  have s_fetch: "provider_get_secret vault (sm_calls vault_secrets) ''TOKEN'' USER None
                   = Some (new_secret ''TOKEN'' ''t0p'' USER None)"
    by (simp add: vault_def)
  have s_key: "make_cache_key (secret_key (new_secret ''TOKEN'' ''t0p'' USER None))
                 (secret_scope (new_secret ''TOKEN'' ''t0p'' USER None))
                 (secret_project (new_secret ''TOKEN'' ''t0p'' USER None))
               = make_cache_key ''TOKEN'' USER None"
    by (simp add: new_secret_def)
  have s12: "fst (get_secret home_environ ''TOKEN'' USER None vault_secrets) = Inr (PStr ''t0p'')
     \<and> get_secret home_environ ''TOKEN'' USER None
         (snd (get_secret home_environ ''TOKEN'' USER None vault_secrets))
       = (Inr (PStr ''t0p''), snd (get_secret home_environ ''TOKEN'' USER None vault_secrets))"
    using main[where k = "''TOKEN''" and scope = USER and project = None and sm = vault_secrets
                and sp = vault and s = "new_secret ''TOKEN'' ''t0p'' USER None"
                and environ = home_environ and cached = None]
          s_miss s_prov s_fetch s_key
    by (simp add: new_secret_def)
  \<comment> \<open>entity: a read that populates the cache, then a repeated read\<close>
  have e_miss: "db_get ENTITIES_CACHE hero_uri (em_db studio_entities) = Inr None"
    by (simp add: studio_entities_def empty_store_def db_get_def)
  have e_prov: "em_provider studio_entities = Some studio"
    by (simp add: em_provider_def studio_entities_def studio_projects_def)
  have e_fetch: "provider_get_entity studio (em_calls studio_entities) hero_uri = Some (hero [''v1'', ''v2''])"
    by (simp add: studio_def)
  have e_req: "requested (uri_version \<lparr>uri_project = ''projectA'', uri_entity_type = ''asset'',
            uri_path = ''characters/hero'', uri_version = None\<rparr>) = None" by simp
  have e_get: "get_entity plain_urllib hero_uri studio_entities
                 = fetch_from_providers plain_urllib hero_uri None studio_entities"
    using hero_parse_plain hero_key_plain e_miss by (simp add: get_entity_def Let_def)
  from cache_entity_native[OF hero_key hero_native, of "[''v1'', ''v2'']"
         "em_call_made (GetEntityCall hero_uri) studio_entities"]
  obtain db' where "cache_entity plain_urllib (hero [''v1'', ''v2''])
       (em_call_made (GetEntityCall hero_uri) studio_entities)
     = Inr ((em_call_made (GetEntityCall hero_uri) studio_entities)\<lparr>em_db := db'\<rparr>)" by blast
  then have e1: "fst (get_entity plain_urllib hero_uri studio_entities) = Inr (Some (hero [''v1'', ''v2'']))"
    unfolding e_get using e_prov e_fetch by (simp add: fetch_from_providers_def Let_def)
  have e2: "snd (get_entity plain_urllib hero_uri (snd (get_entity plain_urllib hero_uri studio_entities)))
       = snd (get_entity plain_urllib hero_uri studio_entities)"
    using main[where uri = hero_uri and lib = plain_urllib and em = studio_entities
                and base_uri = hero_uri and pp = studio and ent = "hero [''v1'', ''v2'']"
                and cached = None
                and parsed = "\<lparr>uri_project = ''projectA'', uri_entity_type = ''asset'',
                                uri_path = ''characters/hero'', uri_version = None\<rparr>"]
          hero_parse_plain hero_key_plain e_req e_miss e_prov e_fetch hero_key[of "[''v1'', ''v2'']"] e1
    by simp
  \<comment> \<open>entity: a version-scoped read that hits\<close>
  let ?M = "snd (add_entity plain_urllib (hero [''v1'', ''v2'']) False studio_entities)"
  have e_hit: "db_get ENTITIES_CACHE hero_uri (em_db ?M) = Inr (Some (entity_model_dump (hero [''v1'', ''v2''])))"
    using add_entity_local(2)[OF hero_key hero_native, of "[''v1'', ''v2'']" studio_entities]
    by simp
  have e_f: "filter (\<lambda>x. version_id x = ''v2'') (entity_versions (hero [''v1'', ''v2''])) = [plain_version ''v2'']"
    by (simp add: hero_def plain_version_def)
  have e_r: "requested (uri_version \<lparr>uri_project = ''projectA'', uri_entity_type = ''asset'',
            uri_path = ''characters/hero'', uri_version = Some ''v2''\<rparr>) = Some ''v2''" by simp
  have "get_entity plain_urllib (hero_uri @ ''?version=v2'') ?M
          = (Inr (Some (hero [''v1'', ''v2'']\<lparr>entity_versions := [plain_version ''v2'']\<rparr>)), ?M)"
    using main[where uri = "hero_uri @ ''?version=v2''" and lib = plain_urllib and em = ?M
                and base_uri = hero_uri and c = "entity_model_dump (hero [''v1'', ''v2''])"
                and cached = "Some (entity_model_dump (hero [''v1'', ''v2'']))"
                and e = "hero [''v1'', ''v2'']"
                and parsed = "\<lparr>uri_project = ''projectA'', uri_entity_type = ''asset'',
                                uri_path = ''characters/hero'', uri_version = Some ''v2''\<rparr>"]
          hero_parse_v2 hero_key_v2 e_hit entity_dump_hit[of "hero [''v1'', ''v2'']"]
          construct_entity_dump[of "hero [''v1'', ''v2'']"] e_f e_r
    by simp
  moreover have "hero [''v1'', ''v2'']\<lparr>entity_versions := [plain_version ''v2'']\<rparr> = hero [''v2'']"
    by (simp add: hero_def)
  ultimately have e3: "get_entity plain_urllib (hero_uri @ ''?version=v2'') ?M = (Inr (Some (hero [''v2''])), ?M)"
    by simp
  show ?thesis using demo_fetch_first p2 p3 s12 e1 e2 e3 by simp
qed

end
